(* ===== verification/Prelude.thy ===== *)
theory Prelude
imports Main "HOL-Library.Word" "HOL-Library.List_Lexorder" "HOL-Library.Char_ord"
begin

text \<open>
  Shared vocabulary of the development.

  \<^item> Machine types. A Go \<open>uint32\<close> is a 32-bit word, so \<open>+\<close> wraps. A Go
    \<open>float32\<close> that the relay only copies (the coordinates of a pose) is its bit
    pattern. A protobuf timestamp is the instant it denotes in nanoseconds, and \<open>None\<close>
    where the pointer is nil.
  \<^item> Addresses. Sessions and participants are heap objects that several structures
    point to; \<open>sptr\<close> and \<open>pptr\<close> are their addresses, \<open>conn\<close> numbers the
    WebSocket connections.
  \<^item> Go maps. A map is a partial function. Go leaves the order of \<open>range\<close> over a
    map open, so every definition that ranges over one takes the order as an argument: a
    function that lists the keys, which is only known to list each key once
    (\<open>range_ok\<close>).
  \<^item> Outcomes of a handler: it returns nil, it returns an error, or it panics.
  \<^item> The contract of a keyed table (\<open>keyed_table\<close>), which the entity table, the
    asset table and the action table implement.
\<close>

section \<open>Machine types and addresses\<close>

type_synonym u32 = "32 word"
type_synonym f32 = "32 word"
type_synonym instant = int
type_synonym timestamp = "instant option"
type_synonym bytes = "8 word list"

type_synonym sptr = nat
type_synonym pptr = nat
type_synonym conn = nat

named_theorems frame \<open>fields that an operation leaves alone\<close>

section \<open>Ranging over a Go map\<close>

type_synonym 'k order = "'k set \<Rightarrow> 'k list"

definition range_ok :: "'k order \<Rightarrow> bool" where
  "range_ok r \<longleftrightarrow> (\<forall>S. finite S \<longrightarrow> distinct (r S) \<and> set (r S) = S)"

lemma range_ok_set [simp]: "range_ok r \<Longrightarrow> finite S \<Longrightarrow> set (r S) = S"
  by (simp add: range_ok_def)

lemma range_ok_distinct [simp]: "range_ok r \<Longrightarrow> finite S \<Longrightarrow> distinct (r S)"
  by (simp add: range_ok_def)

lemma range_ok_Nil: "range_ok r \<Longrightarrow> finite S \<Longrightarrow> r S = [] \<longleftrightarrow> S = {}"
  by (metis range_ok_set set_empty)

lemma range_ok_Cons: "range_ok r \<Longrightarrow> finite S \<Longrightarrow> r S = x # xs \<Longrightarrow> x \<in> S"
  by (metis range_ok_set list.set_intros(1))

text \<open>The order that lists keys in ascending order is one of them.\<close>

lemma range_ok_sorted: "range_ok (sorted_list_of_set :: 'a::linorder set \<Rightarrow> 'a list)"
  by (simp add: range_ok_def)

section \<open>Outcomes\<close>

datatype error =
    ErrDataTo
  | ErrSessionNotJoined
  | ErrModuleMsgSkip
  | ErrZeroLengthReceipt
  | ErrReceiptChanFull
  | ErrModule string error

text \<open>A handler returns an error or nil, panics, or never returns.\<close>

datatype outcome = Nil_error | Failed error | Panicked | Endless

section \<open>Keyed tables\<close>

text \<open>
  A table stores values under a key that the value carries. The laws say what a lookup
  returns after an insertion (\<open>lookup_table\<close>) and, where single keys are deleted, after a
  deletion (\<open>keyed_table\<close>); the lemmas say what it returns after a loop that deletes the
  keys selected by a test.
\<close>

locale lookup_table =
  fixes get :: "'s \<Rightarrow> 'k \<Rightarrow> 'v option"
    and put :: "'v \<Rightarrow> 's \<Rightarrow> 's"
    and key :: "'v \<Rightarrow> 'k"
  assumes get_put: "get (put v s) k = (if k = key v then Some v else get s k)"
begin

lemma get_put_same: "get (put v s) (key v) = Some v"
  by (simp add: get_put)

lemma dom_put: "dom (get (put v s)) = insert (key v) (dom (get s))"
  by (auto simp: get_put split: if_splits)

lemma get_put_twice: "get (put v (put u s)) k = (if key u = key v then get (put v s) k
    else if k = key v then Some v else if k = key u then Some u else get s k)"
  by (auto simp: get_put)

end

locale keyed_table = lookup_table +
  fixes del :: "'k \<Rightarrow> 's \<Rightarrow> 's"
  assumes get_del: "get (del k s) k' = (if k' = k then None else get s k')"
begin

lemma get_del_same: "get (del k s) k = None"
  by (simp add: get_del)

lemma get_put_del: "get (del (key v) (put v s)) k = get (del (key v) s) k"
  by (simp add: get_put get_del)

lemma get_del_loop:
  "get (fold (\<lambda>k s. if Q k then del k s else s) ks s) k' =
    (if k' \<in> set ks \<and> Q k' then None else get s k')"
  by (induction ks arbitrary: s) (auto simp: get_del)

lemma dom_del: "dom (get (del k s)) = dom (get s) - {k}"
  by (auto simp: get_del split: if_splits)

lemma dom_del_loop:
  "dom (get (fold (\<lambda>k s. if Q k then del k s else s) ks s)) =
    dom (get s) - {k \<in> set ks. Q k}"
  by (auto simp: get_del_loop split: if_splits)

end

section \<open>Loops over lists\<close>

lemma const_upd [simp]: "(\<lambda>_. x)(n := x) = (\<lambda>_. x)"
  by auto

lemma fold_invariant_on:
  assumes "I s" and "\<And>x s. x \<in> set xs \<Longrightarrow> I s \<Longrightarrow> I (f x s)"
  shows "I (fold f xs s)"
  using assms by (induction xs arbitrary: s) auto

lemma fold_frame:
  assumes "\<And>x s. g (f x s) = g s"
  shows "g (fold f xs s) = g s"
  using assms by (induction xs arbitrary: s) simp_all

section \<open>The values found for a list of keys\<close>

lemma set_map_filter: "set (List.map_filter f xs) = {y. \<exists>x. x \<in> set xs \<and> f x = Some y}"
  by (induction xs) (auto simp: List.map_filter_simps split: option.splits)

lemma distinct_map_filter:
  assumes "distinct xs" and "\<And>x x' y. f x = Some y \<Longrightarrow> f x' = Some y \<Longrightarrow> x = x'"
  shows "distinct (List.map_filter f xs)"
  using assms
  by (induction xs) (auto simp: List.map_filter_simps set_map_filter split: option.splits)

lemma set_map_filter_dom: "set xs = dom f \<Longrightarrow> set (List.map_filter f xs) = ran f"
  by (auto simp: set_map_filter ran_def)

end
