(* ===== verification/Ids.thy ===== *)
theory Ids
imports Prelude
begin

text \<open>
  \<^verbatim>\<open>models/id.go\<close>: the generator of sequential ids, with the ids given back
  for reuse. Every id of the relay (sessions, participants, entities, component types,
  frame handlers, asset instances) comes from one of these.

  \<open>covers n g U\<close> says that \<open>g\<close> has made at most \<open>n\<close> new ids and that
  \<open>U\<close>, the ids in use, were all handed out and not given back. The contract
  \<open>id_source\<close> is what the tables of the relay rely on: a new id is not in use. It
  holds until the 32-bit counter wraps, that is for \<open>id_limit\<close> allocations.
\<close>

section \<open>SequentialIDGenerator\<close>

record SequentialIDGenerator =
  currentID :: u32
  reusableIDs :: "u32 set"

definition newGenerator :: SequentialIDGenerator where
  "newGenerator = \<lparr>currentID = 0, reusableIDs = {}\<rparr>"

definition New :: "u32 order \<Rightarrow> SequentialIDGenerator \<Rightarrow> u32 \<times> SequentialIDGenerator" where
  "New r g =
    (case r (reusableIDs g) of
       i # _ \<Rightarrow> (i, g\<lparr>reusableIDs := reusableIDs g - {i}\<rparr>)
     | [] \<Rightarrow> (let g' = g\<lparr>currentID := currentID g + 1\<rparr> in (currentID g', g')))"

definition Reuse :: "u32 \<Rightarrow> SequentialIDGenerator \<Rightarrow> SequentialIDGenerator" where
  "Reuse i g = g\<lparr>reusableIDs := insert i (reusableIDs g)\<rparr>"

section \<open>Ids in use\<close>

definition id_limit :: nat where
  "id_limit = 2 ^ 32 - 1"

definition covers :: "nat \<Rightarrow> SequentialIDGenerator \<Rightarrow> u32 set \<Rightarrow> bool" where
  "covers n g U \<longleftrightarrow>
    unat (currentID g) \<le> n \<and>
    (\<forall>i \<in> U \<union> reusableIDs g. 0 < i \<and> i \<le> currentID g) \<and>
    U \<inter> reusableIDs g = {}"

lemma covers_new: "covers n newGenerator {}"
  by (simp add: covers_def newGenerator_def)

lemma covers_mono: "covers n g U \<Longrightarrow> V \<subseteq> U \<Longrightarrow> n \<le> m \<Longrightarrow> covers m g V"
  by (auto simp: covers_def)

lemma covers_zero: "covers n g U \<Longrightarrow> 0 \<notin> U"
  by (auto simp: covers_def)

lemma covers_reuse: "covers n g U \<Longrightarrow> i \<in> U \<Longrightarrow> covers n (Reuse i g) (U - {i})"
  by (auto simp: covers_def Reuse_def)

lemma unat_succ_bounded: "unat (x :: u32) < id_limit \<Longrightarrow> unat (x + 1) = Suc (unat x)"
  by (simp add: id_limit_def unat_word_ariths)

lemma covers_alloc:
  assumes r: "range_ok r" and c: "covers n g U" and n: "n < id_limit" and N: "New r g = (i, g')"
  shows "i \<notin> U \<and> covers (Suc n) g' (insert i U)"
proof (cases "r (reusableIDs g)")
  case (Cons j js)
  then have "j \<in> reusableIDs g" by (rule range_ok_Cons [OF r finite])
  with Cons N c show ?thesis by (auto simp: New_def covers_def)
next
  case Nil
  with r have e: "reusableIDs g = {}" by (simp add: range_ok_Nil)
  from Nil N have i: "i = currentID g + 1" and g': "g' = g\<lparr>currentID := currentID g + 1\<rparr>"
    by (auto simp: New_def)
  from c n have u: "unat (currentID g + 1) = Suc (unat (currentID g))"
    by (intro unat_succ_bounded) (simp add: covers_def)
  then have "currentID g < currentID g + 1" by (simp add: word_less_nat_alt)
  moreover have "j \<le> currentID g \<Longrightarrow> j \<le> currentID g + 1" for j
    using \<open>currentID g < currentID g + 1\<close> by simp
  moreover have "0 < currentID g + 1"
    using u by (simp add: word_less_nat_alt)
  ultimately show ?thesis
    using c u by (auto simp: i g' e covers_def)
qed

section \<open>The contract of an id source\<close>

locale id_source =
  fixes new :: "'c \<Rightarrow> 'g \<Rightarrow> 'i \<times> 'g"
    and reuse :: "'i \<Rightarrow> 'g \<Rightarrow> 'g"
    and ok :: "'c \<Rightarrow> bool"
    and cov :: "nat \<Rightarrow> 'g \<Rightarrow> 'i set \<Rightarrow> bool"
    and limit :: nat
  assumes alloc: "ok c \<Longrightarrow> cov n g U \<Longrightarrow> n < limit \<Longrightarrow> new c g = (i, g') \<Longrightarrow>
      i \<notin> U \<and> cov (Suc n) g' (insert i U)"
    and give_back: "cov n g U \<Longrightarrow> i \<in> U \<Longrightarrow> cov n (reuse i g) (U - {i})"
    and weaken: "cov n g U \<Longrightarrow> V \<subseteq> U \<Longrightarrow> n \<le> m \<Longrightarrow> cov m g V"
begin

primrec news :: "'c list \<Rightarrow> 'g \<Rightarrow> 'i list \<times> 'g" where
  "news [] g = ([], g)"
| "news (c # cs) g =
    (let (i, g1) = new c g; (is, g2) = news cs g1 in (i # is, g2))"

lemma table_alloc:
  assumes "ok c" and "cov n g (dom t)" and "n < limit" and "new c g = (i, g')"
  shows "t i = None" and "cov (Suc n) g' (dom (t(i \<mapsto> v)))"
  using alloc [OF assms] by auto

lemma table_free:
  assumes "cov n g (dom t)" and "t i = Some v"
  shows "cov n (reuse i g) (dom (t(i := None)))"
  using give_back [OF assms(1), of i] assms(2) by (auto simp: dom_fun_upd)

lemma table_drop:
  assumes "cov n g (dom t)"
  shows "cov n g (dom (t(i := None)))"
  using assms by (rule weaken) auto

lemma news_fresh:
  assumes "\<forall>c \<in> set cs. ok c" and "cov n g U" and "n + length cs \<le> limit"
    and "news cs g = (is, g')"
  shows "distinct is \<and> set is \<inter> U = {} \<and> cov (n + length cs) g' (set is \<union> U)"
  using assms
proof (induction cs arbitrary: n g U "is" g')
  case Nil
  then show ?case by simp
next
  case (Cons c cs)
  obtain i g1 where new: "new c g = (i, g1)" by fastforce
  obtain js g2 where rest: "news cs g1 = (js, g2)" by fastforce
  have a: "i \<notin> U" "cov (Suc n) g1 (insert i U)"
    using alloc [OF _ Cons.prems(2) _ new] Cons.prems(1,3) by auto
  have "distinct js \<and> set js \<inter> insert i U = {} \<and>
      cov (Suc n + length cs) g2 (set js \<union> insert i U)"
    using Cons.prems(1,3) a(2) rest by (intro Cons.IH) auto
  with a new rest Cons.prems(4) show ?case by auto
qed

end

interpretation gen: id_source New Reuse range_ok covers id_limit
proof unfold_locales
  show "i \<notin> U \<and> covers (Suc n) g' (insert i U)"
    if "range_ok r" "covers n g U" "n < id_limit" "New r g = (i, g')" for r n g U i g'
    using that by (rule covers_alloc)
  show "covers n (Reuse i g) (U - {i})" if "covers n g U" "i \<in> U" for n g U i
    using that by (rule covers_reuse)
  show "covers m g V" if "covers n g U" "V \<subseteq> U" "n \<le> m" for n g U V m
    using that by (rule covers_mono)
qed

section \<open>Properties of the generator\<close>

text \<open>Allocating many ids from one generator, each with its own order of the map.\<close>

primrec NewMany :: "u32 order list \<Rightarrow> SequentialIDGenerator \<Rightarrow> u32 list \<times> SequentialIDGenerator"
  where
  "NewMany [] g = ([], g)"
| "NewMany (r # rs) g = (let (i, g1) = New r g; (is, g2) = NewMany rs g1 in (i # is, g2))"

lemma NewMany_news: "NewMany rs g = gen.news rs g"
  by (induction rs arbitrary: g) (simp_all add: Let_def)

lemma New_reusable:
  assumes "range_ok r" and "reusableIDs g \<noteq> {}"
  obtains i where "i \<in> reusableIDs g" and "New r g = (i, g\<lparr>reusableIDs := reusableIDs g - {i}\<rparr>)"
proof -
  obtain j js where e: "r (reusableIDs g) = j # js"
    using assms by (metis neq_Nil_conv range_ok_Nil finite_code)
  then have "j \<in> reusableIDs g" by (rule range_ok_Cons [OF assms(1) finite])
  with e show ?thesis by (intro that) (simp_all add: New_def)
qed

lemma New_sequential:
  assumes "range_ok r" and "reusableIDs g = {}"
  shows "New r g = (currentID g + 1, g\<lparr>currentID := currentID g + 1\<rparr>)"
proof -
  have "r {} = []" using assms(1) by (simp add: range_ok_Nil)
  with assms(2) show ?thesis by (simp add: New_def Let_def)
qed

section \<open>Freshness\<close>

text \<open>Ids drawn one after the other from a generator are pairwise different, none of
  them is 0 or in use, and they become part of the ids in use, whatever order Go picks for
  its map of reusable ids, as long as the 32-bit counter does not wrap.\<close>

theorem new_ids_fresh:
  assumes "\<forall>r \<in> set rs. range_ok r" and "covers n g U" and "n + length rs \<le> id_limit"
  shows "distinct (fst (NewMany rs g)) \<and> set (fst (NewMany rs g)) \<inter> insert 0 U = {} \<and>
    covers (n + length rs) (snd (NewMany rs g)) (set (fst (NewMany rs g)) \<union> U)"
proof -
  have "gen.news rs g = (fst (NewMany rs g), snd (NewMany rs g))" by (simp add: NewMany_news)
  from gen.news_fresh [OF assms this] show ?thesis
    using covers_zero [of "n + length rs" "snd (NewMany rs g)"] by blast
qed

lemma new_ids_fresh_witness:
  "distinct (fst (NewMany [sorted_list_of_set, sorted_list_of_set] \<lparr>currentID = 2, reusableIDs = {1}\<rparr>)) \<and>
    fst (NewMany [sorted_list_of_set, sorted_list_of_set] \<lparr>currentID = 2, reusableIDs = {1}\<rparr>) = [1, 3]"
proof -
  have "covers 2 \<lparr>currentID = 2, reusableIDs = {1}\<rparr> {2 :: u32}"
    by (simp add: covers_def word_le_nat_alt word_less_nat_alt)
  from new_ids_fresh [OF _ this, of "[sorted_list_of_set, sorted_list_of_set]"]
  have "distinct (fst (NewMany [sorted_list_of_set, sorted_list_of_set]
      \<lparr>currentID = 2, reusableIDs = {1 :: u32}\<rparr>))"
    by (simp add: range_ok_sorted id_limit_def)
  then show ?thesis by (simp add: New_def Let_def)
qed

end
