(* ===== verification/Entity.thy ===== *)
theory Entity
imports Prelude
begin

text \<open>
  \<^verbatim>\<open>models/entity.go\<close> (first half) and \<^verbatim>\<open>models/participant.go\<close>: poses,
  entities and participants, with their protobuf images. A participant is a heap object; its
  responder is the connection whose queue its messages enter. The set of the ids of the
  entities it owns is a Go set, nil and empty alike.
\<close>

section \<open>Poses and entities\<close>

record Pose =
  PX :: f32
  PY :: f32
  PZ :: f32
  RX :: f32
  RY :: f32
  RZ :: f32
  RW :: f32

definition zeroPose :: Pose where
  "zeroPose = \<lparr>PX = 0, PY = 0, PZ = 0, RX = 0, RY = 0, RZ = 0, RW = 0\<rparr>"

record PosePb =
  Px :: f32
  Py :: f32
  Pz :: f32
  Rx :: f32
  Ry :: f32
  Rz :: f32
  Rw :: f32

definition Pose_ToProtobuf :: "Pose \<Rightarrow> PosePb" where
  "Pose_ToProtobuf p =
    \<lparr>Px = PX p, Py = PY p, Pz = PZ p, Rx = RX p, Ry = RY p, Rz = RZ p, Rw = RW p\<rparr>"

text \<open>The struct literal with which the handlers read a pose from a request.\<close>

definition Pose_of_request :: "PosePb \<Rightarrow> Pose" where
  "Pose_of_request p =
    \<lparr>PX = Px p, PY = Py p, PZ = Pz p, RX = Rx p, RY = Ry p, RZ = Rz p, RW = Rw p\<rparr>"

lemma Pose_request_roundtrip: "Pose_ToProtobuf (Pose_of_request p) = p"
  by (simp add: Pose_ToProtobuf_def Pose_of_request_def)

lemma Pose_protobuf_roundtrip: "Pose_of_request (Pose_ToProtobuf p) = p"
  by (simp add: Pose_ToProtobuf_def Pose_of_request_def)

record Entity =
  e_ID :: u32
  e_ParticipantID :: u32
  e_Persist :: bool
  e_Flag :: int
  e_pose :: Pose

definition SetPose :: "Pose \<Rightarrow> Entity \<Rightarrow> Entity" where
  "SetPose v e = e\<lparr>e_pose := v\<rparr>"

definition getPose :: "Entity \<Rightarrow> Pose" where
  "getPose e = e_pose e"

record EntityPb =
  ep_Id :: u32
  ep_ParticipantId :: u32
  ep_Pose :: PosePb
  ep_Flag :: int

definition Entity_ToProtobuf :: "Entity \<Rightarrow> EntityPb" where
  "Entity_ToProtobuf e =
    \<lparr>ep_Id = e_ID e, ep_ParticipantId = e_ParticipantID e,
     ep_Pose = Pose_ToProtobuf (e_pose e), ep_Flag = e_Flag e\<rparr>"

definition EntitiesToProtobuf :: "Entity list \<Rightarrow> EntityPb list" where
  "EntitiesToProtobuf entities = map Entity_ToProtobuf entities"

lemma SetPose_frame [simp]:
  "e_ID (SetPose v e) = e_ID e"
  "e_ParticipantID (SetPose v e) = e_ParticipantID e"
  "e_Persist (SetPose v e) = e_Persist e"
  "e_Flag (SetPose v e) = e_Flag e"
  by (simp_all add: SetPose_def)

lemma getPose_SetPose [simp]: "getPose (SetPose v e) = v"
  by (simp add: SetPose_def getPose_def)

section \<open>Participants\<close>

record Participant =
  p_ID :: u32
  p_Responder :: conn
  p_entityIDs :: "u32 set"

definition Participant_AddEntity :: "Entity \<Rightarrow> Participant \<Rightarrow> Participant" where
  "Participant_AddEntity e p = p\<lparr>p_entityIDs := insert (e_ID e) (p_entityIDs p)\<rparr>"

definition Participant_RemoveEntity :: "Entity \<Rightarrow> Participant \<Rightarrow> Participant" where
  "Participant_RemoveEntity e p = p\<lparr>p_entityIDs := p_entityIDs p - {e_ID e}\<rparr>"

definition EntityIDs :: "Participant \<Rightarrow> u32 set" where
  "EntityIDs p = p_entityIDs p"

text \<open>The protobuf image of a participant holds its id.\<close>

definition Participant_ToProtobuf :: "Participant \<Rightarrow> u32" where
  "Participant_ToProtobuf p = p_ID p"

definition ParticipantsToProtobuf :: "Participant list \<Rightarrow> u32 list" where
  "ParticipantsToProtobuf participants = map Participant_ToProtobuf participants"

lemma Participant_entity_frame [simp]:
  "p_ID (Participant_AddEntity e p) = p_ID p"
  "p_Responder (Participant_AddEntity e p) = p_Responder p"
  "p_ID (Participant_RemoveEntity e p) = p_ID p"
  "p_Responder (Participant_RemoveEntity e p) = p_Responder p"
  by (simp_all add: Participant_AddEntity_def Participant_RemoveEntity_def)

end
