(* ===== verification/Rounding.thy ===== *)
theory Rounding
imports Prelude
begin

text \<open>
  Rounding of natural numbers to a number of binary places, to the nearest and ties to even,
  which the conversions to floating point numbers share.
\<close>

section \<open>Rounding\<close>

fun bits :: "nat \<Rightarrow> nat" where
  "bits n = (if n = 0 then 0 else Suc (bits (n div 2)))"

declare bits.simps [simp del]

text \<open>The quotient rounded to an integer, ties to even.\<close>

definition nearest :: "nat \<Rightarrow> nat \<Rightarrow> nat" where
  "nearest a b =
    (let q = a div b; r = a mod b
     in if 2 * r < b then q else if b < 2 * r then Suc q else if even q then q else Suc q)"

text \<open>The conversion of an integer to a float with \<open>p\<close> significant bits.\<close>

definition round_nat :: "nat \<Rightarrow> nat \<Rightarrow> nat" where
  "round_nat p n =
    (if bits n \<le> p then n else nearest n (2 ^ (bits n - p)) * 2 ^ (bits n - p))"

definition round_int :: "nat \<Rightarrow> int \<Rightarrow> int" where
  "round_int p x = (if x < 0 then - int (round_nat p (nat (- x))) else int (round_nat p (nat x)))"

section \<open>Bounds\<close>

lemma bits_0 [simp]: "bits 0 = 0"
  by (simp add: bits.simps)

lemma bits_pos: "0 < n \<Longrightarrow> bits n = Suc (bits (n div 2))"
  by (simp add: bits.simps)

lemma bits_bounds: "0 < n \<Longrightarrow> 2 ^ (bits n - 1) \<le> n \<and> n < 2 ^ bits n"
proof (induction n rule: bits.induct)
  case (1 n)
  show ?case
  proof (cases "n div 2 = 0")
    case True
    then have "n = 1" using 1(2) by arith
    then show ?thesis by (simp add: bits_pos)
  next
    case False
    then have *: "2 ^ (bits (n div 2) - 1) \<le> n div 2" "n div 2 < 2 ^ bits (n div 2)"
      using 1 by simp_all
    obtain k where k: "bits (n div 2) = Suc k" using False bits_pos by blast
    have "bits n = Suc (Suc k)" using 1(2) k by (simp add: bits_pos)
    moreover define X :: nat where "X = 2 ^ k"
    ultimately show ?thesis using * k by simp arith
  qed
qed

lemma bits_le: "bits n \<le> p \<longleftrightarrow> n < 2 ^ p"
proof (cases "n = 0")
  case False
  then have b: "2 ^ (bits n - 1) \<le> n" "n < 2 ^ bits n" using bits_bounds by simp_all
  show ?thesis
  proof
    assume "bits n \<le> p"
    then have "(2::nat) ^ bits n \<le> 2 ^ p" by (rule power_increasing) simp
    with b(2) show "n < 2 ^ p" by (rule order_less_le_trans)
  next
    assume "n < 2 ^ p"
    with b(1) have "(2::nat) ^ (bits n - 1) < 2 ^ p" by (rule order_le_less_trans)
    then have "bits n - 1 < p" by simp
    then show "bits n \<le> p" by simp
  qed
qed simp

lemma nearest_error:
  assumes "0 < b"
  shows "2 * (nearest a b * b) \<le> 2 * a + b" and "2 * a \<le> 2 * (nearest a b * b) + b"
proof -
  have a: "a = a div b * b + a mod b" by simp
  have r: "a mod b < b" using assms by simp
  define X where "X = a div b * b"
  have "a = X + a mod b" by (simp add: X_def)
  moreover have "nearest a b * b = X \<and> 2 * (a mod b) \<le> b \<or> nearest a b * b = X + b \<and> b \<le> 2 * (a mod b)"
    by (auto simp: nearest_def Let_def X_def)
  ultimately show "2 * (nearest a b * b) \<le> 2 * a + b" "2 * a \<le> 2 * (nearest a b * b) + b"
    using r by linarith+
qed

lemma round_nat_exact: "n < 2 ^ p \<Longrightarrow> round_nat p n = n"
  by (simp add: round_nat_def bits_le)

end
