(* ===== verification/Floats.thy ===== *)
theory Floats
imports Complex_Main Rounding
begin

text \<open>
  The floating point numbers of Go, in single and double precision, as far as
  \<^verbatim>\<open>modules/dagaz\<close> uses them: the arithmetic of IEEE 754 with rounding to the nearest,
  ties to even, comparisons, conversions, and functions of the package \<^verbatim>\<open>math\<close>. A product
  and a sum are rounded separately, as on amd64; the language lets a compiler fuse them. The
  payload of a NaN is left out. Proved: rounding is off by at most half a quantum, it leaves
  the numbers of the format alone, and on integers it is the rounding of \<open>Rounding\<close>.
  The simplifier evaluates the operations on numerals with the collection \<open>fl_eval\<close>.
\<close>

section \<open>Values and formats\<close>

text \<open>A finite float is the rational number it denotes; the negative zero is a value of its
  own, and the argument of an infinity says whether it is negative.\<close>

datatype fl = Fin rat | NegZero | Infty bool | NaN

datatype format = Single | Double

fun precision :: "format \<Rightarrow> int" where
  "precision Single = 24"
| "precision Double = 53"

fun min_exponent :: "format \<Rightarrow> int" where
  "min_exponent Single = - 149"
| "min_exponent Double = - 1074"

fun max_exponent :: "format \<Rightarrow> int" where
  "max_exponent Single = 128"
| "max_exponent Double = 1024"

section \<open>Rounding\<close>

definition pow2 :: "int \<Rightarrow> rat" where
  "pow2 k = (if 0 \<le> k then 2 ^ nat k else 1 / 2 ^ nat (- k))"

text \<open>The exponent of a positive number: \<open>2 ^ k \<le> x < 2 ^ (k + 1)\<close>.\<close>

definition exponent :: "rat \<Rightarrow> int" where
  "exponent x = (if 1 \<le> x then int (bits (nat \<lfloor>x\<rfloor>)) - 1 else - int (bits (nat (\<lceil>1 / x\<rceil> - 1))))"

text \<open>The nearest integer, ties to even.\<close>

definition nearest_int :: "rat \<Rightarrow> int" where
  "nearest_int x =
    (let f = \<lfloor>x\<rfloor>; r = x - of_int f
     in if r < 1 / 2 then f else if 1 / 2 < r then f + 1 else if even f then f else f + 1)"

definition rnd :: "format \<Rightarrow> rat \<Rightarrow> fl" where
  "rnd fm x =
    (if x = 0 then Fin 0
     else (let k = max (exponent \<bar>x\<bar> - (precision fm - 1)) (min_exponent fm);
               m = nearest_int (\<bar>x\<bar> / pow2 k);
               y = of_int m * pow2 k
           in if pow2 (max_exponent fm) \<le> y then Infty (x < 0)
              else if m = 0 then (if x < 0 then NegZero else Fin 0)
              else Fin (if x < 0 then - y else y)))"

section \<open>Arithmetic\<close>

fun val :: "fl \<Rightarrow> rat" where
  "val (Fin x) = x"
| "val _ = 0"

fun finite_fl :: "fl \<Rightarrow> bool" where
  "finite_fl (Fin x) = True"
| "finite_fl NegZero = True"
| "finite_fl _ = False"

fun negative :: "fl \<Rightarrow> bool" where
  "negative (Fin x) = (x < 0)"
| "negative NegZero = True"
| "negative (Infty s) = s"
| "negative NaN = False"

definition zero_fl :: "bool \<Rightarrow> fl" where
  "zero_fl s = (if s then NegZero else Fin 0)"

fun fneg :: "fl \<Rightarrow> fl" where
  "fneg (Fin x) = (if x = 0 then NegZero else Fin (- x))"
| "fneg NegZero = Fin 0"
| "fneg (Infty s) = Infty (\<not> s)"
| "fneg NaN = NaN"

fun fadd :: "format \<Rightarrow> fl \<Rightarrow> fl \<Rightarrow> fl" where
  "fadd fm NaN b = NaN"
| "fadd fm a NaN = NaN"
| "fadd fm (Infty s) (Infty t) = (if s = t then Infty s else NaN)"
| "fadd fm (Infty s) b = Infty s"
| "fadd fm a (Infty t) = Infty t"
| "fadd fm NegZero NegZero = NegZero"
| "fadd fm a b = rnd fm (val a + val b)"

definition fsub :: "format \<Rightarrow> fl \<Rightarrow> fl \<Rightarrow> fl" where
  "fsub fm a b = fadd fm a (fneg b)"

definition fmul :: "format \<Rightarrow> fl \<Rightarrow> fl \<Rightarrow> fl" where
  "fmul fm a b =
    (let s = (negative a \<noteq> negative b) in
     if a = NaN \<or> b = NaN then NaN
     else if \<not> finite_fl a \<or> \<not> finite_fl b then
       (if finite_fl a \<and> val a = 0 \<or> finite_fl b \<and> val b = 0 then NaN else Infty s)
     else if val a = 0 \<or> val b = 0 then zero_fl s
     else rnd fm (val a * val b))"

definition fdiv :: "format \<Rightarrow> fl \<Rightarrow> fl \<Rightarrow> fl" where
  "fdiv fm a b =
    (let s = (negative a \<noteq> negative b) in
     if a = NaN \<or> b = NaN then NaN
     else if \<not> finite_fl a then (if finite_fl b then Infty s else NaN)
     else if \<not> finite_fl b then zero_fl s
     else if val b = 0 then (if val a = 0 then NaN else Infty s)
     else if val a = 0 then zero_fl s
     else rnd fm (val a / val b))"

text \<open>Comparisons are false on a NaN.\<close>

fun fless :: "fl \<Rightarrow> fl \<Rightarrow> bool" where
  "fless NaN b = False"
| "fless a NaN = False"
| "fless (Infty s) (Infty t) = (s \<and> \<not> t)"
| "fless (Infty s) b = s"
| "fless a (Infty t) = (\<not> t)"
| "fless a b = (val a < val b)"

fun feq :: "fl \<Rightarrow> fl \<Rightarrow> bool" where
  "feq NaN b = False"
| "feq a NaN = False"
| "feq (Infty s) (Infty t) = (s = t)"
| "feq (Infty s) b = False"
| "feq a (Infty t) = False"
| "feq a b = (val a = val b)"

definition fle :: "fl \<Rightarrow> fl \<Rightarrow> bool" where
  "fle a b = (fless a b \<or> feq a b)"

section \<open>Conversions and the functions of package math\<close>

text \<open>A conversion from single to double precision is exact.\<close>

fun to_single :: "fl \<Rightarrow> fl" where
  "to_single (Fin x) = rnd Single x"
| "to_single a = a"

definition of_integer :: "format \<Rightarrow> int \<Rightarrow> fl" where
  "of_integer fm i = rnd fm (of_int i)"

text \<open>The integer part; \<open>None\<close> where there is none.\<close>

fun integer_part :: "fl \<Rightarrow> int option" where
  "integer_part (Fin x) = Some (if x < 0 then - \<lfloor>- x\<rfloor> else \<lfloor>x\<rfloor>)"
| "integer_part NegZero = Some 0"
| "integer_part _ = None"

fun Floor :: "fl \<Rightarrow> fl" where
  "Floor (Fin x) = Fin (of_int \<lfloor>x\<rfloor>)"
| "Floor a = a"

definition Ceil :: "fl \<Rightarrow> fl" where
  "Ceil a = fneg (Floor (fneg a))"

fun Abs :: "fl \<Rightarrow> fl" where
  "Abs (Fin x) = Fin \<bar>x\<bar>"
| "Abs NegZero = Fin 0"
| "Abs (Infty s) = Infty False"
| "Abs NaN = NaN"

definition Min2 :: "fl \<Rightarrow> fl \<Rightarrow> fl" where
  "Min2 a b =
    (if a = Infty True \<or> b = Infty True then Infty True
     else if a = NaN \<or> b = NaN then NaN
     else if feq a (Fin 0) \<and> feq a b then (if negative a then a else b)
     else if fless a b then a else b)"

definition Max2 :: "fl \<Rightarrow> fl \<Rightarrow> fl" where
  "Max2 a b =
    (if a = Infty False \<or> b = Infty False then Infty False
     else if a = NaN \<or> b = NaN then NaN
     else if feq a (Fin 0) \<and> feq a b then (if negative a then b else a)
     else if fless b a then a else b)"

text \<open>The square root, correctly rounded: the root of \<open>x = q * 4 ^ k\<close> with at least
  \<open>2 * 54\<close> bits in \<open>q\<close>, rounded down to \<open>54\<close> bits and a sticky one.\<close>

fun isqrt :: "nat \<Rightarrow> nat" where
  "isqrt n =
    (if n = 0 then 0
     else (let r = 2 * isqrt (n div 4) in if (r + 1) * (r + 1) \<le> n then r + 1 else r))"

declare isqrt.simps [simp del]

fun Sqrt :: "fl \<Rightarrow> fl" where
  "Sqrt (Fin x) =
    (if x < 0 then NaN else if x = 0 then Fin 0
     else (let k = exponent x div 2 - 60; q = x / pow2 (2 * k);
               r = isqrt (nat \<lfloor>q\<rfloor>);
               sticky = (if q = of_nat (r * r) then 0 else 1 / 2)
           in rnd Double ((of_nat r + sticky) * pow2 k)))"
| "Sqrt NegZero = NegZero"
| "Sqrt (Infty s) = (if s then NaN else Infty False)"
| "Sqrt NaN = NaN"

section \<open>Evaluation\<close>

lemma bits_numeral: "bits (numeral k) = Suc (bits (numeral k div 2))" "bits 0 = 0" "bits (Suc 0) = 1"
  by (simp_all add: bits.simps [of "numeral k"] bits.simps [of 0] bits.simps [of "Suc 0"])

lemma isqrt_numeral:
  "isqrt (numeral k) =
    (let r = 2 * isqrt (numeral k div 4) in if (r + 1) * (r + 1) \<le> numeral k then r + 1 else r)"
  "isqrt 0 = 0" "isqrt (Suc 0) = 1"
  by (simp_all add: isqrt.simps [of "numeral k"] isqrt.simps [of 0] isqrt.simps [of "Suc 0"])

lemma pow2_numeral [simp]:
  "pow2 (numeral k) = 2 ^ numeral k" "pow2 (- numeral k) = 1 / 2 ^ numeral k" "pow2 0 = 1" "pow2 1 = 2" "pow2 (-1) = 1 / 2"
  by (simp_all add: pow2_def)

lemma floor_fraction:
  "\<lfloor>numeral a / numeral b :: rat\<rfloor> = numeral a div numeral b" "\<lfloor>1 / numeral b :: rat\<rfloor> = 1 div numeral b"
  "\<lfloor>- (numeral a / numeral b) :: rat\<rfloor> = - numeral a div numeral b" "\<lfloor>- (1 / numeral b) :: rat\<rfloor> = - 1 div numeral b"
  using floor_divide_of_int_eq [where 'a = rat, of "numeral a" "numeral b"]
    floor_divide_of_int_eq [where 'a = rat, of 1 "numeral b"]
    floor_divide_of_int_eq [where 'a = rat, of "- numeral a" "numeral b"]
    floor_divide_of_int_eq [where 'a = rat, of "- 1" "numeral b"]
  by simp_all

lemma ceiling_fraction:
  "\<lceil>numeral a / numeral b :: rat\<rceil> = - (- numeral a div numeral b)" "\<lceil>1 / numeral b :: rat\<rceil> = - (- 1 div numeral b)"
  using floor_fraction(3) [of a b] floor_fraction(4) [of b] by (simp_all add: ceiling_def)

named_theorems fl_eval

lemmas [fl_eval] = floor_fraction ceiling_fraction bits_numeral isqrt_numeral rnd_def exponent_def nearest_int_def Let_def fsub_def fmul_def
  fdiv_def fle_def zero_fl_def of_integer_def Ceil_def Min2_def Max2_def

section \<open>Rounding to the nearest\<close>

lemma pow2_pos [simp]: "0 < pow2 k" "0 \<le> pow2 k" "pow2 k \<noteq> 0"
  by (simp_all add: pow2_def)

lemma pow2_powi: "pow2 k = 2 powi k"
  by (simp add: pow2_def power_int_def divide_simps)

lemma pow2_add: "pow2 (a + b) = pow2 a * pow2 b"
  by (simp add: pow2_powi power_int_add)

lemma pow2_Suc: "pow2 (k + 1) = 2 * pow2 k"
  by (simp add: pow2_add)

lemma pow2_mono: "a \<le> b \<Longrightarrow> pow2 a \<le> pow2 b"
  by (simp add: pow2_powi power_int_increasing)

lemma pow2_less: "pow2 a < pow2 b \<longleftrightarrow> a < b"
  by (metis linorder_not_less order.strict_iff_not pow2_mono pow2_powi power_int_strict_increasing one_less_numeral_iff semiring_norm(76))

lemma pow2_of_nat: "pow2 (int n) = 2 ^ n"
  by (simp add: pow2_def)

lemma exponent_bounds:
  assumes "0 < x"
  shows "pow2 (exponent x) \<le> x" and "x < pow2 (exponent x + 1)"
proof -
  have "pow2 (exponent x) \<le> x \<and> x < pow2 (exponent x + 1)"
  proof (cases "1 \<le> x")
    case True
    let ?n = "nat \<lfloor>x\<rfloor>"
    have n: "0 < ?n" "of_nat ?n = (of_int \<lfloor>x\<rfloor> :: rat)" using True by simp_all
    have b: "2 ^ (bits ?n - 1) \<le> ?n" "?n < 2 ^ bits ?n" "0 < bits ?n"
      using bits_bounds [of ?n] bits_pos [of ?n] n by auto
    have "(2 :: rat) ^ (bits ?n - 1) \<le> of_nat ?n" using b(1) by (metis of_nat_le_iff of_nat_numeral of_nat_power)
    moreover have "(of_nat ?n :: rat) + 1 \<le> 2 ^ bits ?n"
      using b(2) by (metis Suc_leI add.commute of_nat_Suc of_nat_le_iff of_nat_numeral of_nat_power)
    moreover have "of_int \<lfloor>x\<rfloor> \<le> x" "x < of_int \<lfloor>x\<rfloor> + 1" by linarith+
    ultimately have "2 ^ (bits ?n - 1) \<le> x" "x < 2 ^ bits ?n" using n(2) by linarith+
    then show ?thesis using True b(3) by (simp add: exponent_def pow2_def nat_diff_distrib)
  next
    case False
    let ?c = "\<lceil>1 / x\<rceil>" let ?m = "nat (?c - 1)"
    have "1 < 1 / x" using False assms by (simp add: field_simps)
    then have c: "2 \<le> ?c" by linarith
    then have "0 < ?m" by linarith
    moreover have "(of_nat ?m :: rat) = of_int (?c - 1)" using c by (intro of_nat_nat) linarith
    ultimately have m: "0 < ?m" "(of_nat ?m :: rat) = of_int ?c - 1" by (simp_all only: of_int_diff of_int_1)
    have b: "2 ^ (bits ?m - 1) \<le> ?m" "?m < 2 ^ bits ?m" "0 < bits ?m"
      using bits_bounds [of ?m] bits_pos [of ?m] m by auto
    have "(2 :: rat) ^ (bits ?m - 1) \<le> of_nat ?m" using b(1) by (metis of_nat_le_iff of_nat_numeral of_nat_power)
    moreover have "(of_nat ?m :: rat) + 1 \<le> 2 ^ bits ?m"
      using b(2) by (metis Suc_leI add.commute of_nat_Suc of_nat_le_iff of_nat_numeral of_nat_power)
    moreover have "of_int ?c - 1 < 1 / x" "1 / x \<le> of_int ?c" by linarith+
    ultimately have "2 ^ (bits ?m - 1) < 1 / x" "1 / x \<le> 2 ^ bits ?m" using m(2) by linarith+
    then have "x < 1 / 2 ^ (bits ?m - 1)" "1 / 2 ^ bits ?m \<le> x" using assms by (simp_all add: field_simps)
    moreover have "pow2 (- int (bits ?m) + 1) = 1 / 2 ^ (bits ?m - 1)"
      using b(3) by (cases "bits ?m") (simp_all add: pow2_def)
    moreover have "pow2 (- int (bits ?m)) = 1 / 2 ^ bits ?m" using b(3) by (simp add: pow2_def)
    ultimately show ?thesis using False by (simp add: exponent_def)
  qed
  then show "pow2 (exponent x) \<le> x" "x < pow2 (exponent x + 1)" by simp_all
qed

lemma nearest_int_error: "\<bar>of_int (nearest_int x) - x\<bar> \<le> 1 / 2"
proof -
  have "of_int \<lfloor>x\<rfloor> \<le> x" "x < of_int \<lfloor>x\<rfloor> + 1" by linarith+
  then show ?thesis by (auto simp: nearest_int_def Let_def abs_le_iff)
qed

lemma nearest_int_of_int [simp]: "nearest_int (of_int m) = m"
  by (simp add: nearest_int_def)

text \<open>The distance of the floats around a number.\<close>

definition quantum :: "format \<Rightarrow> rat \<Rightarrow> rat" where
  "quantum fm x = pow2 (max (exponent \<bar>x\<bar> - (precision fm - 1)) (min_exponent fm))"

lemma rnd_quantum:
  assumes "x \<noteq> 0" and "A = of_int (nearest_int (\<bar>x\<bar> / quantum fm x)) * quantum fm x"
  shows "rnd fm x =
    (if pow2 (max_exponent fm) \<le> A then Infty (x < 0)
     else if A = 0 then zero_fl (x < 0) else Fin (if x < 0 then - A else A))"
  using assms by (simp add: rnd_def quantum_def Let_def zero_fl_def)

text \<open>Rounding is off by at most half of it, as long as it does not overflow.\<close>

lemma rnd_error:
  assumes "finite_fl (rnd fm x)" and "x \<noteq> 0"
  shows "\<bar>val (rnd fm x) - x\<bar> \<le> quantum fm x / 2"
proof -
  let ?q = "quantum fm x" let ?m = "nearest_int (\<bar>x\<bar> / ?q)"
  have q: "0 < ?q" by (simp add: quantum_def)
  define A where "A = of_int ?m * ?q"
  have v: "val (rnd fm x) = (if x < 0 then - A else A)"
    using assms(1) by (auto simp: rnd_quantum [OF assms(2) A_def] zero_fl_def split: if_splits)
  have s: "\<bar>A - \<bar>x\<bar>\<bar> \<le> c \<Longrightarrow> \<bar>(if x < 0 then - A else A) - x\<bar> \<le> c" for c
    by (auto simp: abs_if split: if_splits)
  have "\<bar>of_int ?m - \<bar>x\<bar> / ?q\<bar> * ?q \<le> 1 / 2 * ?q"
    using nearest_int_error [of "\<bar>x\<bar> / ?q"] q by (intro mult_right_mono) simp_all
  moreover have "A - \<bar>x\<bar> = (of_int ?m - \<bar>x\<bar> / ?q) * ?q"
    using q by (simp add: A_def left_diff_distrib)
  ultimately have "\<bar>A - \<bar>x\<bar>\<bar> \<le> ?q / 2"
    using q by (simp only: abs_mult abs_of_pos)
  then show ?thesis unfolding v by (rule s)
qed

text \<open>A number that fits the format is not changed.\<close>

definition representable :: "format \<Rightarrow> rat \<Rightarrow> bool" where
  "representable fm x \<longleftrightarrow>
    (\<exists>m k. x = of_int m * pow2 k \<and> \<bar>m\<bar> < 2 ^ nat (precision fm) \<and> min_exponent fm \<le> k) \<and> \<bar>x\<bar> < pow2 (max_exponent fm)"

lemma precision_pos [simp]: "0 < precision fm"
  by (cases fm) simp_all

lemma rnd_representable:
  assumes "representable fm x"
  shows "rnd fm x = Fin x"
proof (cases "x = 0")
  case False
  obtain m k where x: "x = of_int m * pow2 k" and m: "\<bar>m\<bar> < 2 ^ nat (precision fm)"
    and k: "min_exponent fm \<le> k" and o: "\<bar>x\<bar> < pow2 (max_exponent fm)"
    using assms by (auto simp: representable_def)
  let ?e = "max (exponent \<bar>x\<bar> - (precision fm - 1)) (min_exponent fm)"
  have ax: "\<bar>x\<bar> = of_int \<bar>m\<bar> * pow2 k" by (simp add: x abs_mult)
  have "pow2 (exponent \<bar>x\<bar>) \<le> \<bar>x\<bar>" using exponent_bounds(1) [of "\<bar>x\<bar>"] False by simp
  also have "\<dots> < pow2 (precision fm) * pow2 k"
    unfolding ax
  proof (rule mult_strict_right_mono)
    have "(of_int \<bar>m\<bar> :: rat) < of_int (2 ^ nat (precision fm))" using m by (simp only: of_int_less_iff)
    then show "(of_int \<bar>m\<bar> :: rat) < pow2 (precision fm)"
      using precision_pos [of fm] by (simp add: pow2_def less_imp_le)
  qed simp
  finally have "exponent \<bar>x\<bar> < precision fm + k" by (simp add: pow2_add [symmetric] pow2_less)
  then have e: "?e \<le> k" using k by simp
  define E where "E = ?e"
  have "pow2 k = of_int (2 ^ nat (k - E)) * pow2 E"
    using e by (simp add: E_def pow2_of_nat [symmetric] pow2_add [symmetric])
  then have d: "\<bar>x\<bar> / pow2 E = of_int (\<bar>m\<bar> * 2 ^ nat (k - E))"
    by (simp add: ax)
  have Q: "quantum fm x = pow2 E" by (simp add: quantum_def E_def)
  have "\<bar>x\<bar> = of_int (nearest_int (\<bar>x\<bar> / quantum fm x)) * quantum fm x"
    unfolding Q d nearest_int_of_int unfolding d [symmetric] by simp
  from rnd_quantum [OF False this] show ?thesis using o False by (auto simp: abs_if)
qed (simp add: rnd_def)

section \<open>Single precision integers\<close>

text \<open>On integers the rounding agrees with the conversion that the latencies go through.\<close>

lemma nearest_int_quotient:
  assumes "0 < b"
  shows "nearest_int (of_nat a / of_nat b) = int (nearest a b)"
proof -
  have f: "\<lfloor>(of_nat a :: rat) / of_nat b\<rfloor> = int (a div b)"
    by (simp add: floor_divide_of_nat_eq)
  have a: "(of_nat a :: rat) = of_nat (a div b) * of_nat b + of_nat (a mod b)"
    by (metis div_mult_mod_eq of_nat_add of_nat_mult)
  have r: "(of_nat a :: rat) / of_nat b - of_int (int (a div b)) = of_nat (a mod b) / of_nat b"
    using assms by (subst a) (simp add: field_simps)
  have c: "((of_nat (a mod b) :: rat) / of_nat b < 1 / 2) = (2 * (a mod b) < b)"
    "((1 :: rat) / 2 < of_nat (a mod b) / of_nat b) = (b < 2 * (a mod b))"
  proof -
    have "(of_nat (a mod b) * 2 < (of_nat b :: rat)) = (2 * (a mod b) < b)"
      by (metis mult.commute of_nat_less_iff of_nat_mult of_nat_numeral)
    then show "((of_nat (a mod b) :: rat) / of_nat b < 1 / 2) = (2 * (a mod b) < b)"
      using assms by (simp add: divide_less_eq less_divide_eq mult.commute)
    have "((of_nat b :: rat) < of_nat (a mod b) * 2) = (b < 2 * (a mod b))"
      by (metis mult.commute of_nat_less_iff of_nat_mult of_nat_numeral)
    then show "((1 :: rat) / 2 < of_nat (a mod b) / of_nat b) = (b < 2 * (a mod b))"
      using assms by (simp add: divide_less_eq less_divide_eq mult.commute)
  qed
  show ?thesis
    unfolding nearest_int_def nearest_def Let_def f r c by simp
qed

lemma exponent_of_nat: "0 < n \<Longrightarrow> exponent (of_nat n) = int (bits n) - 1"
  by (simp add: exponent_def)

lemma rnd_of_nat:
  assumes "of_nat (round_nat 24 n) < pow2 128"
  shows "rnd Single (of_nat n) = Fin (of_nat (round_nat 24 n))"
proof (cases "bits n \<le> 24")
  case True
  then have "representable Single (of_nat n)"
    using assms bits_le [of n 24] unfolding representable_def
    by (intro conjI exI [of _ "int n"] exI [of _ 0]) (simp_all add: round_nat_def)
  then show ?thesis using True by (simp add: rnd_representable round_nat_def)
next
  case False
  then have n: "0 < n" by (cases n) auto
  let ?k = "bits n - 24"
  have q: "quantum Single (of_nat n) = of_nat (2 ^ ?k)"
    using False by (simp add: quantum_def exponent_of_nat n pow2_def nat_diff_distrib)
  have "of_nat (round_nat 24 n) = of_int (nearest_int (\<bar>of_nat n\<bar> / quantum Single (of_nat n))) * quantum Single (of_nat n)"
    using False by (simp add: q nearest_int_quotient round_nat_def del: of_nat_power)
  from rnd_quantum [OF _ this] show ?thesis using assms n by (auto simp: zero_fl_def)
qed

lemma rnd_neg: "x \<noteq> 0 \<Longrightarrow> rnd fm (- x) = fneg (rnd fm x)"
  by (auto simp: rnd_def Let_def)

end
