(* ===== verification/Dagaz_Grid.thy ===== *)
theory Dagaz_Grid
imports Dagaz_Math
begin

text \<open>
  \<^verbatim>\<open>modules/dagaz/grid_spatial_partition.go\<close>: the regular grid of quads, with its
  growth, insertion and merging of quads, the search along a ray, regions and the debug
  information. Index errors and impossible allocations are the value \<open>Crash\<close>; a loop that does
  not end is \<open>None\<close>.
\<close>

section \<open>The machine\<close>

text \<open>The language leaves open what the conversion of a float to an integer yields when the
  number does not fit; this, and the longest slice that fits into memory, are the machine's.\<close>

record Machine =
  uintOf :: "fl \<Rightarrow> nat"
  intOf :: "fl \<Rightarrow> int"
  maxSlice :: nat

definition toUint :: "Machine \<Rightarrow> fl \<Rightarrow> nat" where
  "toUint m x =
    (case integer_part x of
       None \<Rightarrow> uintOf m x mod 2 ^ 64
     | Some i \<Rightarrow> if 0 \<le> i \<and> i < 2 ^ 64 then nat i else uintOf m x mod 2 ^ 64)"

definition toInt :: "Machine \<Rightarrow> fl \<Rightarrow> int" where
  "toInt m x =
    (case integer_part x of
       None \<Rightarrow> intOf m x
     | Some i \<Rightarrow> if - (2 ^ 63) \<le> i \<and> i < 2 ^ 63 then i else intOf m x)"

text \<open>A call returns or panics. What a panic leaves behind is not modelled.\<close>

datatype 'a result = Done 'a | Crash

definition and_then :: "'a result \<Rightarrow> ('a \<Rightarrow> 'b result) \<Rightarrow> 'b result" where
  "and_then r f = (case r of Done x \<Rightarrow> f x | Crash \<Rightarrow> Crash)"

primrec each :: "('a \<Rightarrow> 's \<Rightarrow> 's result) \<Rightarrow> 'a list \<Rightarrow> 's \<Rightarrow> 's result" where
  "each f [] s = Done s"
| "each f (x # xs) s = and_then (f x s) (each f xs)"

section \<open>The grid\<close>

text \<open>The cells hold pointers to quads, which are addresses of a heap that is kept with the
  grid; the heap is total, with the next free address. A cell is addressed by its row and
  its column: the first index is the coordinate along z, the second the one along x.\<close>

type_synonym qptr = nat

record RegularGrid =
  g_Resolution :: nat
  g_PlaneCount :: u32
  g_MergeCount :: u32
  g_Min :: Vector3f
  g_Max :: Vector3f
  g_Grid :: "qptr list list list"
  g_quads :: "qptr \<Rightarrow> Quad"
  g_next :: qptr

definition MERGE_EPSILON :: fl where
  "MERGE_EPSILON = rnd Single (6 / 10)"

definition zeroVector :: Vector3f where
  "zeroVector = \<lparr>vx = Fin 0, vy = Fin 0, vz = Fin 0\<rparr>"

definition zeroQuad :: Quad where
  "zeroQuad = \<lparr>q_Center = zeroVector, q_Extents = zeroVector, q_Normal = zeroVector, q_MergeCount = 0\<rparr>"

definition NewRegularGrid :: "nat \<Rightarrow> nat \<Rightarrow> nat \<Rightarrow> RegularGrid" where
  "NewRegularGrid numCols0 numRows0 resolution0 =
    (let numCols = (if numCols0 = 0 then 1 else numCols0);
         numRows = (if numRows0 = 0 then 1 else numRows0);
         resolution = (if resolution0 = 0 then 1 else resolution0)
     in \<lparr>g_Resolution = resolution, g_PlaneCount = 0, g_MergeCount = 0, g_Min = zeroVector,
         g_Max = \<lparr>vx = of_integer Single (int resolution), vy = Fin 0, vz = of_integer Single (int resolution)\<rparr>,
         g_Grid = replicate numRows (replicate numCols []),
         g_quads = (\<lambda>_. zeroQuad), g_next = 0\<rparr>)"

text \<open>The cell at a row and a column; \<open>None\<close> where an index is out of range.\<close>

definition cell :: "RegularGrid \<Rightarrow> nat \<Rightarrow> nat \<Rightarrow> qptr list option" where
  "cell g y x =
    (if y < length (g_Grid g) \<and> x < length (g_Grid g ! y) then Some (g_Grid g ! y ! x) else None)"

definition set_cell :: "nat \<Rightarrow> nat \<Rightarrow> qptr list \<Rightarrow> RegularGrid \<Rightarrow> RegularGrid" where
  "set_cell y x ps g = g\<lparr>g_Grid := (g_Grid g)[y := (g_Grid g ! y)[x := ps]]\<rparr>"

definition append_cell :: "qptr \<Rightarrow> nat \<Rightarrow> nat \<Rightarrow> RegularGrid \<Rightarrow> RegularGrid result" where
  "append_cell q y x g =
    (case cell g y x of None \<Rightarrow> Crash | Some ps \<Rightarrow> Done (set_cell y x (ps @ [q]) g))"

definition removeQuadFromCell :: "qptr \<Rightarrow> nat \<Rightarrow> nat \<Rightarrow> RegularGrid \<Rightarrow> RegularGrid result" where
  "removeQuadFromCell toRemove x y g =
    (case cell g y x of
       None \<Rightarrow> Crash
     | Some ps \<Rightarrow>
         (let (contained, index) = arrayContains ps toRemove
          in if contained then Done (set_cell y x (butlast (ps[index := last ps])) g) else Done g))"

text \<open>The coordinate of a cell, before its conversion to an integer.\<close>

definition coord :: "RegularGrid \<Rightarrow> fl \<Rightarrow> fl \<Rightarrow> fl" where
  "coord g p lo = Floor (fdiv Double (fsub Single p lo) (of_integer Double (int (g_Resolution g))))"

definition xCoord :: "RegularGrid \<Rightarrow> Vector3f \<Rightarrow> fl" where
  "xCoord g p = coord g (vx p) (vx (g_Min g))"

definition yCoord :: "RegularGrid \<Rightarrow> Vector3f \<Rightarrow> fl" where
  "yCoord g p = coord g (vz p) (vz (g_Min g))"

section \<open>Growing\<close>

text \<open>The number of cells that one axis lacks for a coordinate to fit.\<close>

definition missing :: "Machine \<Rightarrow> RegularGrid \<Rightarrow> fl \<Rightarrow> fl \<Rightarrow> fl \<Rightarrow> int" where
  "missing m g p lo hi =
    (let n = (if fle lo p \<and> fless p hi then 0
              else if fless p lo then toInt m (Abs (Floor (fsub Single p lo)))
              else toInt m (fadd Double (Floor (Abs (fsub Single p hi))) (Fin 1)))
     in toInt m (Ceil (fdiv Double (of_integer Double n) (of_integer Double (int (g_Resolution g))))))"

definition make_slice :: "Machine \<Rightarrow> int \<Rightarrow> 'a \<Rightarrow> 'a list result" where
  "make_slice m n x = (if 0 \<le> n \<and> nat n \<le> maxSlice m then Done (replicate (nat n) x) else Crash)"

definition ExpandToFitPoint :: "Machine \<Rightarrow> Vector3f \<Rightarrow> RegularGrid \<Rightarrow> RegularGrid result" where
  "ExpandToFitPoint m p g =
    (if fle (vx (g_Min g)) (vx p) \<and> fle (vz (g_Min g)) (vz p) \<and> fless (vx p) (vx (g_Max g)) \<and> fless (vz p) (vz (g_Max g))
     then Done g
     else (let xCount = missing m g (vx p) (vx (g_Min g)) (vx (g_Max g));
               yCount = missing m g (vz p) (vz (g_Min g)) (vz (g_Max g))
           in case g_Grid g of
                [] \<Rightarrow> Crash
              | row0 # _ \<Rightarrow>
                  and_then (make_slice m xCount []) (\<lambda>cells.
                    let dx = of_integer Single (xCount * int (g_Resolution g));
                        dz = of_integer Single (yCount * int (g_Resolution g));
                        g1 = (if fless (vx p) (vx (g_Min g))
                              then g\<lparr>g_Grid := map (\<lambda>row. cells @ row) (g_Grid g),
                                     g_Min := (g_Min g)\<lparr>vx := fsub Single (vx (g_Min g)) dx\<rparr>\<rparr>
                              else g\<lparr>g_Grid := map (\<lambda>row. row @ cells) (g_Grid g),
                                     g_Max := (g_Max g)\<lparr>vx := fadd Single (vx (g_Max g)) dx\<rparr>\<rparr>)
                    in and_then (make_slice m (xCount + int (length row0)) []) (\<lambda>newRow.
                         and_then (make_slice m yCount newRow) (\<lambda>rows.
                           Done (if fless (vz p) (vz (g_Min g))
                             then g1\<lparr>g_Grid := rows @ g_Grid g1,
                                     g_Min := (g_Min g1)\<lparr>vz := fsub Single (vz (g_Min g1)) dz\<rparr>\<rparr>
                             else g1\<lparr>g_Grid := g_Grid g1 @ rows,
                                     g_Max := (g_Max g1)\<lparr>vz := fadd Single (vz (g_Max g1)) dz\<rparr>\<rparr>))))))"

section \<open>Rays\<close>

text \<open>The nearest quad of a cell that a ray hits.\<close>

definition nearest_hit :: "RegularGrid \<Rightarrow> Ray \<Rightarrow> qptr list \<Rightarrow> qptr option \<times> fl" where
  "nearest_hit g r ps =
    fold (\<lambda>p (resultQuad, tMin).
        let (hit, t) = IntersectQuad r (g_quads g p)
        in if hit \<and> fless t tMin then (Some p, t) else (resultQuad, tMin))
      ps (None, Infty False)"

text \<open>The loop along a slanted ray. The second assignment to \<^verbatim>\<open>cellX\<close> overwrites the
  first one with the clamped row. The loop need not end: \<open>None\<close>.\<close>

partial_function (option) walk ::
  "Machine \<Rightarrow> RegularGrid \<Rightarrow> Ray \<Rightarrow> Ray \<Rightarrow> Vector3f \<Rightarrow> fl \<Rightarrow> fl \<Rightarrow> fl \<Rightarrow> (qptr option \<times> fl) result option" where
  "walk m g r newRay rayDir deltaTX deltaTY t =
    (let hitPoint = Add (r_From newRay) (Mul rayDir t);
         cellY = toUint m (yCoord g hitPoint);
         cellX = toUint m (Min2 (of_integer Double (int cellY)) (of_integer Double (int (length (g_Grid g)) - 1)))
     in case cell g cellY cellX of
          None \<Rightarrow> Some Crash
        | Some ps \<Rightarrow>
            (case nearest_hit g r ps of
               (Some q, tMin) \<Rightarrow> Some (Done (Some q, tMin))
             | (None, tMin) \<Rightarrow>
                 (let tx = fadd Single t deltaTX; ty = fadd Single t deltaTY; t' = (if fless tx ty then tx else ty)
                  in if fless (Fin 1) t' \<or> \<not> finite_fl t' then Some (Done (None, Fin (- 1)))
                     else walk m g r newRay rayDir deltaTX deltaTY t')))"

text \<open>Where a ray enters the grid along one axis; \<open>None\<close> if it does not reach it.\<close>

definition entry :: "fl \<Rightarrow> fl \<Rightarrow> fl \<Rightarrow> fl \<Rightarrow> fl option" where
  "entry from dir lo hi =
    (if fless from lo then
       (let t = fsub Single lo from in if fless dir t then None else Some (fdiv Single t dir))
     else if fless hi from then
       (let t = fsub Single hi from in if fless t dir then None else Some (fdiv Single t dir))
     else Some (Fin 0))"

definition deltaT :: "fl \<Rightarrow> fl \<Rightarrow> fl \<Rightarrow> fl \<Rightarrow> nat \<Rightarrow> fl" where
  "deltaT from dir lo hi count =
    (let t_min = fdiv Single (fsub Single lo from) dir;
         t_max = fdiv Single (fsub Single hi from) dir;
         (t_lo, t_hi) = (if fless t_max t_min then Swap (t_min, t_max) else (t_min, t_max))
     in fdiv Single (fsub Single t_hi t_lo) (of_integer Single (int count)))"

text \<open>A ray straight up or down looks into one cell; its projection has the length zero.\<close>

definition lookup_cell :: "Machine \<Rightarrow> RegularGrid \<Rightarrow> Ray \<Rightarrow> Vector3f \<Rightarrow> (qptr option \<times> fl) result" where
  "lookup_cell m g r from =
    (let cellX = toInt m (xCoord g from); cellY = toInt m (yCoord g from)
     in if cellX < 0 then Done (None, Fin (- 1))
        else (case g_Grid g of
          [] \<Rightarrow> Crash
        | row0 # _ \<Rightarrow>
            if int (length row0) \<le> cellX then Done (None, Fin (- 1))
            else if cellY < 0 \<or> int (length (g_Grid g)) \<le> cellY then Done (None, Fin (- 1))
            else (case cell g (nat cellY) (nat cellX) of
              None \<Rightarrow> Crash
            | Some ps \<Rightarrow> Done (nearest_hit g r ps))))"

definition Grid_IntersectQuad :: "Machine \<Rightarrow> RegularGrid \<Rightarrow> Ray \<Rightarrow> (qptr option \<times> fl) result option" where
  "Grid_IntersectQuad m g r =
    (let newRay = \<lparr>r_From = (r_From r)\<lparr>vy := Fin 0\<rparr>, r_To = (r_To r)\<lparr>vy := Fin 0\<rparr>\<rparr>;
         from = r_From newRay;
         rayDir = Sub (r_To newRay) from
     in if feq (Length rayDir) (Fin 0) then Some (lookup_cell m g r from)
        else (case entry (vx from) (vx rayDir) (vx (g_Min g)) (vx (g_Max g)) of
          None \<Rightarrow> Some (Done (None, Fin (- 1)))
        | Some xt \<Rightarrow>
          (case entry (vz from) (vz rayDir) (vz (g_Min g)) (vz (g_Max g)) of
            None \<Rightarrow> Some (Done (None, Fin (- 1)))
          | Some zt \<Rightarrow>
            (case g_Grid g of
               [] \<Rightarrow> Some Crash
             | row0 # _ \<Rightarrow>
                 walk m g r newRay rayDir
                   (deltaT (vx from) (vx rayDir) (vx (g_Min g)) (vx (g_Max g)) (length row0))
                   (deltaT (vz from) (vz rayDir) (vz (g_Min g)) (vz (g_Max g)) (length (g_Grid g)))
                   (if fless zt xt then xt else zt)))))"

section \<open>Merging and inserting\<close>

definition upd_quad :: "qptr \<Rightarrow> (Quad \<Rightarrow> Quad) \<Rightarrow> RegularGrid \<Rightarrow> RegularGrid" where
  "upd_quad q f g = g\<lparr>g_quads := (g_quads g)(q := f (g_quads g q))\<rparr>"

text \<open>The cells a quad covers: first and last column, first and last row.\<close>

definition covers_cells :: "Machine \<Rightarrow> RegularGrid \<Rightarrow> Quad \<Rightarrow> nat \<times> nat \<times> nat \<times> nat" where
  "covers_cells m g q =
    (let minPoint = Sub (q_Center q) (q_Extents q); maxPoint = Add (q_Center q) (q_Extents q)
     in (toUint m (xCoord g minPoint), toUint m (xCoord g maxPoint),
         toUint m (yCoord g minPoint), toUint m (yCoord g maxPoint)))"

definition on_cell :: "bool \<Rightarrow> qptr \<Rightarrow> nat \<Rightarrow> nat \<Rightarrow> RegularGrid \<Rightarrow> RegularGrid result" where
  "on_cell expand q y x = (if expand then append_cell q y x else removeQuadFromCell q x y)"

text \<open>The four loops of \<^verbatim>\<open>mergeQuads\<close> over the cells that an edge has passed.\<close>

definition move_edges ::
  "qptr \<Rightarrow> nat \<times> nat \<times> nat \<times> nat \<Rightarrow> nat \<times> nat \<times> nat \<times> nat \<Rightarrow> RegularGrid \<Rightarrow> RegularGrid result" where
  "move_edges q = (\<lambda>(minX0, maxX0, minY0, maxY0) (minX1, maxX1, minY1, maxY1) g.
    let (minMinX, maxMinX, expandLeftEdge) = (if minX1 < minX0 then (minX1, minX0, True) else (minX0, minX1, False));
        (minMaxX, maxMaxX, expandRightEdge) = (if maxX1 < maxX0 then (maxX1, maxX0, False) else (maxX0, maxX1, True));
        (minMinY, maxMinY, expandTopEdge) = (if minY1 < minY0 then (minY1, minY0, True) else (minY0, minY1, False));
        (minMaxY, maxMaxY, expandBottomEdge) = (if maxY1 < maxY0 then (maxY1, maxY0, False) else (maxY0, maxY1, True))
    in and_then (each (\<lambda>y. each (on_cell expandLeftEdge q y) [minMinX..<maxMinX]) [minMinY..<Suc maxMaxY] g) (\<lambda>g.
       and_then (each (\<lambda>y. each (on_cell expandRightEdge q y) (rev [Suc minMaxX..<Suc maxMaxX])) [minMinY..<Suc maxMaxY] g) (\<lambda>g.
       and_then (each (\<lambda>y. each (on_cell expandTopEdge q y) [maxMinX..<Suc minMaxX]) [minMinY..<maxMinY] g)
                (each (\<lambda>y. each (on_cell expandBottomEdge q y) [maxMinX..<Suc minMaxX]) (rev [Suc minMaxY..<Suc maxMaxY])))))"

definition mergeQuads :: "Machine \<Rightarrow> qptr \<Rightarrow> qptr \<Rightarrow> RegularGrid \<Rightarrow> RegularGrid result" where
  "mergeQuads m existingQuad newQuad g =
    (let c0 = covers_cells m g (g_quads g existingQuad);
         old = g_quads g existingQuad; new = g_quads g newQuad;
         centerDiff = Sub (q_Center new) (q_Center old);
         extentsDiff = Sub (q_Extents new) (q_Extents old);
         fifth = rnd Single (2 / 10);
         g1 = upd_quad existingQuad (\<lambda>q. q\<lparr>q_Center := Add (q_Center q) (Mul centerDiff fifth),
                q_Extents := Add (q_Extents q) (Mul extentsDiff fifth)\<rparr>) g;
         c1 = covers_cells m g1 (g_quads g1 existingQuad)
     in and_then (move_edges existingQuad c0 c1 g1) (\<lambda>g2.
          Done ((upd_quad existingQuad (\<lambda>q. q\<lparr>q_MergeCount := q_MergeCount q + 1\<rparr>) g2)
                  \<lparr>g_MergeCount := g_MergeCount g2 + 1\<rparr>)))"

text \<open>The quad nearest to the center of another one, above or below it.\<close>

definition nearest_plane :: "Machine \<Rightarrow> qptr \<Rightarrow> RegularGrid \<Rightarrow> qptr option result option" where
  "nearest_plane m quadToMerge g =
    (let c = q_Center (g_quads g quadToMerge);
         reach = rnd Single (val MERGE_EPSILON + 1);
         upRay = \<lparr>r_From = c, r_To = c\<lparr>vy := fadd Single (vy c) reach\<rparr>\<rparr>;
         downRay = \<lparr>r_From = c, r_To = c\<lparr>vy := fsub Single (vy c) reach\<rparr>\<rparr>
     in Option.bind (Grid_IntersectQuad m g upRay) (\<lambda>up.
        Option.bind (Grid_IntersectQuad m g downRay) (\<lambda>down.
        Some (and_then up (\<lambda>(hitUp, tUp). and_then down (\<lambda>(hitDown, tDown).
          if hitDown = None \<and> hitUp = None then Done None
          else (case (if fless tDown tUp then hitDown else hitUp) of
                  None \<Rightarrow> Crash
                | Some hit \<Rightarrow> Done (Some hit))))))))"

text \<open>The loop that merges a quad into the nearest one, and that one again. The result is the
  quad to be merged at the end, \<open>None\<close> for nil.\<close>

partial_function (option) merge_loop ::
  "Machine \<Rightarrow> qptr \<Rightarrow> RegularGrid \<Rightarrow> (qptr option \<times> RegularGrid) result option" where
  "merge_loop m quadToMerge g =
    Option.bind (nearest_plane m quadToMerge g) (\<lambda>found.
    case found of
      Crash \<Rightarrow> Some Crash
    | Done None \<Rightarrow> Some (Done (Some quadToMerge, g))
    | Done (Some hit) \<Rightarrow>
        if EqualWithEpsilon (vy (q_Center (g_quads g hit))) (vy (q_Center (g_quads g quadToMerge))) MERGE_EPSILON \<and>
           doHorizontalPlanesOverlap (g_quads g hit) (g_quads g quadToMerge)
        then (case mergeQuads m hit quadToMerge g of
                Crash \<Rightarrow> Some Crash
              | Done g1 \<Rightarrow>
                  if Equal (q_Center (g_quads g1 hit)) (q_Center (g_quads g1 quadToMerge))
                  then Some (Done (None, g1))
                  else merge_loop m hit g1)
        else Some (Done (Some quadToMerge, g)))"

text \<open>The loops that enter a new quad into the cells it covers.\<close>

definition enter_cells :: "Machine \<Rightarrow> qptr \<Rightarrow> nat \<times> nat \<times> nat \<times> nat \<Rightarrow> RegularGrid \<Rightarrow> RegularGrid result" where
  "enter_cells m q = (\<lambda>(minX, maxX, minY, maxY) g.
    let bound = (\<lambda>hi n. toUint m (Min2 (of_integer Double (int hi)) (of_integer Double (int n - 1))))
    in each (\<lambda>i g. if length (g_Grid g) \<le> i then Crash
               else each (append_cell q i) [minX..<Suc (bound maxX (length (g_Grid g ! i)))] g)
         [minY..<Suc (bound maxY (length (g_Grid g)))] g)"

definition InsertQuad :: "Machine \<Rightarrow> Quad \<Rightarrow> RegularGrid \<Rightarrow> RegularGrid result option" where
  "InsertQuad m q g =
    (let p = g_next g;
         g0 = g\<lparr>g_quads := (g_quads g)(p := q), g_next := Suc p\<rparr>
     in case and_then (ExpandToFitPoint m (Sub (q_Center q) (q_Extents q)) g0)
               (ExpandToFitPoint m (Add (q_Center q) (q_Extents q))) of
          Crash \<Rightarrow> Some Crash
        | Done g1 \<Rightarrow>
            Option.bind (merge_loop m p g1) (\<lambda>r. Some (case r of
              Crash \<Rightarrow> Crash
            | Done (quadToMerge, g2) \<Rightarrow>
                if quadToMerge = Some p
                then and_then (enter_cells m p (covers_cells m g2 q) g2) (\<lambda>g3.
                       Done (g3\<lparr>g_PlaneCount := g_PlaneCount g3 + 1\<rparr>))
                else Done g2)))"

section \<open>Queries\<close>

text \<open>The quads in the cells of a region. The order of the answer is the one of ranging over a
  map.\<close>

definition GetRegion :: "Machine \<Rightarrow> qptr order \<Rightarrow> Vector3f \<Rightarrow> Vector3f \<Rightarrow> RegularGrid \<Rightarrow> qptr list result" where
  "GetRegion m r min0 max0 g =
    (let lo = \<lparr>vx = Max2 (vx min0) (vx (g_Min g)), vy = Fin 0, vz = Max2 (vz min0) (vz (g_Min g))\<rparr>;
         hi = \<lparr>vx = Min2 (vx max0) (vx (g_Max g)), vy = Fin 0, vz = Min2 (vz max0) (vz (g_Max g))\<rparr>;
         minX = toUint m (xCoord g lo); minY = toUint m (yCoord g lo);
         maxX = toUint m (xCoord g hi); maxY = toUint m (yCoord g hi)
     in and_then
          (each (\<lambda>y. each (\<lambda>x acc. case cell g y x of None \<Rightarrow> Crash | Some ps \<Rightarrow> Done (acc \<union> set ps)) [minX..<maxX])
             [minY..<maxY] {})
          (\<lambda>result. Done (r result)))"

record SpatialDebugInfo =
  di_Resolution :: u32
  di_Row_count :: u32
  di_Col_count :: u32
  di_Plane_count :: u32
  di_Merge_count :: u32
  di_Min_point :: Vector3f
  di_Max_point :: Vector3f
  di_Occupancy :: "u32 list"

text \<open>The counts and the indices are 32 bits wide.\<close>

definition occupancy_turn :: "RegularGrid \<Rightarrow> u32 \<Rightarrow> nat \<Rightarrow> nat \<Rightarrow> u32 list \<Rightarrow> u32 list result" where
  "occupancy_turn g Col_count y x occ =
    (let i = unat (of_nat y * Col_count + of_nat x :: u32)
     in case cell g y x of
          None \<Rightarrow> Crash
        | Some ps \<Rightarrow> if i < length occ then Done (occ[i := of_nat (length ps)]) else Crash)"

definition GetDebugInfo :: "RegularGrid \<Rightarrow> SpatialDebugInfo result" where
  "GetDebugInfo g =
    (case g_Grid g of
       [] \<Rightarrow> Crash
     | row0 # _ \<Rightarrow>
         (let Row_count = of_nat (length (g_Grid g)) :: u32; Col_count = of_nat (length row0) :: u32
          in and_then
               (each (\<lambda>y. each (occupancy_turn g Col_count y) [0..<unat Col_count]) [0..<unat Row_count]
                  (replicate (unat (Row_count * Col_count)) 0))
               (\<lambda>occ. Done \<lparr>di_Resolution = of_nat (g_Resolution g), di_Row_count = Row_count,
                  di_Col_count = Col_count, di_Plane_count = g_PlaneCount g, di_Merge_count = g_MergeCount g,
                  di_Min_point = g_Min g, di_Max_point = g_Max g, di_Occupancy = occ\<rparr>)))"

section \<open>Instances\<close>

text \<open>The grid that the module starts with, and a machine.\<close>

definition fresh_grid :: RegularGrid where
  "fresh_grid = NewRegularGrid 1 1 2"

definition mach0 :: Machine where
  "mach0 = \<lparr>uintOf = (\<lambda>_. 0), intOf = (\<lambda>_. - (2 ^ 63)), maxSlice = 2 ^ 40\<rparr>"

end
