(* ===== verification/Messages.thy ===== *)
theory Messages
imports Entity Dagaz_Grid
begin

text \<open>
  The protobuf messages of \<^verbatim>\<open>hagall-common\<close> that the relay reads and writes, with
  the fields its code uses. The generated Go types and the wire format are outside the
  repository: a received message is modelled by its type, which is the constructor of
  \<open>Msg\<close>, and by what \<^verbatim>\<open>msg.DataTo(&req)\<close> makes of its bytes, an error or
  the request. The \<open>Timestamp\<close> field that every answer carries is the wall clock and
  is left out; the origin timestamps, which the relay copies from the requests, are kept.
\<close>

section \<open>Values carried by messages\<close>

record EntityComponent =
  ec_TypeId :: u32
  ec_EntityId :: u32
  ec_Data :: bytes

record EntityAction =
  ea_EntityId :: u32
  ea_Name :: string
  ea_Timestamp :: timestamp
  ea_Data :: bytes

record AssetInstance =
  ai_Id :: u32
  ai_AssetId :: string
  ai_ParticipantId :: u32
  ai_EntityId :: u32

record LatencyData =
  ld_CreatedAt :: instant
  ld_Min :: int
  ld_Max :: int
  ld_Mean :: int
  ld_P95 :: int
  ld_Last :: int
  ld_IterationCount :: u32
  ld_PingRequestIds :: "u32 list"
  ld_SessionId :: string
  ld_ClientId :: string
  ld_WalletAddress :: string

record ReceiptPayload =
  rp_Receipt :: string
  rp_Hash :: bytes
  rp_Signature :: bytes

datatype (plugins only: code size) ErrorCode =
    BAD_REQUEST
  | UNAUTHORIZED
  | NOT_FOUND
  | CONFLICT
  | TOO_LARGE
  | SESSION_ALREADY_JOINED
  | INTERNAL_SERVER_ERROR
  | SERVER_TOO_BUSY

section \<open>Requests\<close>

record PingReq =
  ping_RequestId :: u32

record PongReq =
  pong_RequestId :: u32

record LatencyReq =
  lat_RequestId :: u32
  lat_IterationCount :: u32
  lat_WalletAddress :: string

record JoinReq =
  join_RequestId :: u32
  join_Timestamp :: timestamp
  join_SessionId :: string

record EntityAddReq =
  eadd_RequestId :: u32
  eadd_Timestamp :: timestamp
  eadd_Persist :: bool
  eadd_Flag :: int
  eadd_Pose :: "PosePb option"

record EntityDeleteReq =
  edel_RequestId :: u32
  edel_Timestamp :: timestamp
  edel_EntityId :: u32

record UpdatePoseMsg =
  upose_Timestamp :: timestamp
  upose_EntityId :: u32
  upose_Pose :: "PosePb option"

record CustomMsg =
  custom_Timestamp :: timestamp
  custom_ParticipantIds :: "u32 list"
  custom_Body :: bytes

record TypeNameReq =
  tname_RequestId :: u32
  tname_Name :: string

record TypeIdReq =
  tid_RequestId :: u32
  tid_TypeId :: u32

record ComponentReq =
  comp_RequestId :: u32
  comp_Timestamp :: timestamp
  comp_TypeId :: u32
  comp_EntityId :: u32
  comp_Data :: bytes

record ReceiptReq =
  rec_RequestId :: u32
  rec_Receipt :: string
  rec_Hash :: bytes
  rec_Signature :: bytes

record ActionReq =
  act_RequestId :: u32
  act_Timestamp :: timestamp
  act_EntityAction :: "EntityAction option"

record AssetReq =
  asset_RequestId :: u32
  asset_Timestamp :: timestamp
  asset_AssetId :: string
  asset_EntityId :: u32

text \<open>The requests to the dagaz module; samples are never nil, other pointers may be.\<close>

record QuadSampleMsg =
  qs_Samples :: "ProtoQuad list"

record GroundPlaneReq =
  gp_RequestId :: u32
  gp_Ray :: "ProtoRay option"

record RegionReq =
  reg_RequestId :: u32
  reg_Min :: "Point option"
  reg_Max :: "Point option"

record DebugInfoReq =
  dbg_RequestId :: u32

type_synonym 'a decoded = "error + 'a"

text \<open>The messages of the core protocol, those of the entity component system, and those
  of the modules.\<close>

datatype (plugins only: code size) ComponentRequest =
    ComponentTypeAddRequest "TypeNameReq decoded"
  | ComponentTypeGetNameRequest "TypeIdReq decoded"
  | ComponentTypeGetIdRequest "TypeNameReq decoded"
  | ComponentAddRequest "ComponentReq decoded"
  | ComponentDeleteRequest "ComponentReq decoded"
  | ComponentListRequest "TypeIdReq decoded"
  | ComponentUpdate "ComponentReq decoded"
  | ComponentSubscribeRequest "TypeIdReq decoded"
  | ComponentUnsubscribeRequest "TypeIdReq decoded"

datatype (plugins only: code size) DagazRequest =
    DagazQuadSample "QuadSampleMsg decoded"
  | DagazGetGroundPlaneRequest "GroundPlaneReq decoded"
  | DagazGetRegionRequest "RegionReq decoded"
  | DagazGetDebugInfoRequest "DebugInfoReq decoded"

datatype (plugins only: code size) Msg =
    PingRequest "PingReq decoded"
  | PingResponseMsg "PongReq decoded"
  | SignedLatencyRequest "LatencyReq decoded"
  | ParticipantJoinRequest "JoinReq decoded"
  | EntityAddRequest "EntityAddReq decoded"
  | EntityDeleteRequest "EntityDeleteReq decoded"
  | EntityUpdatePose "UpdatePoseMsg decoded"
  | CustomMessage "CustomMsg decoded"
  | ReceiptRequest "ReceiptReq decoded"
  | ComponentMessage ComponentRequest
  | VikjaEntityActionRequest "ActionReq decoded"
  | OdalAssetInstanceAddRequest "AssetReq decoded"
  | DagazMessage DagazRequest
  | OtherMessage

section \<open>Answers and broadcasts\<close>

datatype (plugins only: code size) ComponentProto =
    ComponentTypeAddResponse u32 u32
  | ComponentTypeGetNameResponse u32 string
  | ComponentTypeGetIdResponse u32 u32
  | ComponentAddResponse u32
  | ComponentAddBroadcast timestamp EntityComponent
  | ComponentDeleteResponse u32
  | ComponentDeleteBroadcast timestamp EntityComponent
  | ComponentUpdateBroadcast timestamp EntityComponent
  | ComponentListResponse u32 "EntityComponent list"
  | ComponentSubscribeResponse u32
  | ComponentUnsubscribeResponse u32

datatype (plugins only: code size) EntityProto =
    EntityAddResponse u32 u32
  | EntityAddBroadcast timestamp EntityPb
  | EntityDeleteResponse u32
  | EntityDeleteBroadcast timestamp u32
  | EntityUpdatePoseBroadcast timestamp u32 PosePb

datatype (plugins only: code size) VikjaProto =
    VikjaState "EntityAction list"
  | VikjaEntityActionResponse u32
  | VikjaEntityActionBroadcast timestamp EntityAction

datatype (plugins only: code size) OdalProto =
    OdalState "AssetInstance list"
  | OdalAssetInstanceAddResponse u32 u32
  | OdalAssetInstanceAddBroadcast timestamp AssetInstance

record GridInfoPb =
  gi_GridResolution :: u32
  gi_GridRowCount :: u32
  gi_GridColCount :: u32
  gi_GridPlaneCount :: u32
  gi_GridMergeCount :: u32
  gi_GridMinPoint :: Point
  gi_GridMaxPoint :: Point
  gi_Occupancy :: "u32 list"

datatype (plugins only: code size) DagazProto =
    DagazGetGroundPlaneResponse u32 ProtoQuad
  | DagazGetRegionResponse u32 "ProtoQuad list"
  | DagazGetDebugInfoResponse u32 GridInfoPb

datatype (plugins only: code size) Proto =
    ErrorResponse u32 ErrorCode
  | PingResponse u32
  | PingRequestProto u32
  | SignedLatencyResponse u32 bytes string
  | SyncClock
  | ParticipantJoinResponse u32 string string u32
  | SessionState "u32 list" "EntityPb list" "EntityComponent list"
  | ParticipantJoinBroadcast timestamp u32
  | ParticipantLeaveBroadcast timestamp u32
  | CustomMessageBroadcast timestamp u32 bytes
  | ReceiptResponse u32
  | EntityMessage EntityProto
  | ComponentAnswer ComponentProto
  | VikjaMessage VikjaProto
  | OdalMessage OdalProto
  | DagazAnswer DagazProto

end
