(* ===== verification/Entity_Components.thy ===== *)
theory Entity_Components
imports Ids Messages
begin

text \<open>
  \<^verbatim>\<open>models/entity.go\<close> (second half): the store of component types, components
  and subscriptions of a session. A Go map of maps is a map of maps here too: an inner map
  is created on the first insertion and stays, possibly empty, afterwards.

  Proved here: the well-formedness invariant \<open>ecs_ok\<close> and that every operation keeps
  it; the two indexes of the type names are inverse to each other; the store implements
  the flat specification \<open>components\<close>, a map from pairs of a type and an entity to a
  component (a refinement: each operation of the nested store is the expected update of
  the flat map); what \<open>List\<close>, \<open>ListByEntityID\<close> and \<open>ListAll\<close> return; when the
  notification callback runs and with which participants.
\<close>

section \<open>EntityComponentStore\<close>

record EntityComponentStore =
  ecs_ids :: SequentialIDGenerator
  nameIndex :: "u32 \<rightharpoonup> string"
  idIndex :: "string \<rightharpoonup> u32"
  entityComponents :: "u32 \<rightharpoonup> (u32 \<rightharpoonup> EntityComponent)"
  subscriptions :: "u32 \<rightharpoonup> u32 set"

definition newEntityComponentStore :: EntityComponentStore where
  "newEntityComponentStore =
    \<lparr>ecs_ids = newGenerator, nameIndex = Map.empty, idIndex = Map.empty,
     entityComponents = Map.empty, subscriptions = Map.empty\<rparr>"

datatype ecs_error =
    TypeNotAdded
  | TypeAlreadyAdded
  | ComponentNotAdded

definition AddType ::
  "u32 order \<Rightarrow> string \<Rightarrow> EntityComponentStore \<Rightarrow> u32 \<times> EntityComponentStore" where
  "AddType r name s =
    (case idIndex s name of
       Some eaID \<Rightarrow> (eaID, s)
     | None \<Rightarrow>
         (let (i, g) = New r (ecs_ids s) in
          (i, s\<lparr>ecs_ids := g, nameIndex := (nameIndex s)(i \<mapsto> name),
              idIndex := (idIndex s)(name \<mapsto> i)\<rparr>)))"

definition GetTypeName :: "u32 \<Rightarrow> EntityComponentStore \<Rightarrow> ecs_error + string" where
  "GetTypeName t s =
    (case nameIndex s t of None \<Rightarrow> Inl TypeNotAdded | Some name \<Rightarrow> Inr name)"

definition GetTypeID :: "string \<Rightarrow> EntityComponentStore \<Rightarrow> ecs_error + u32" where
  "GetTypeID name s =
    (case idIndex s name of None \<Rightarrow> Inl TypeNotAdded | Some i \<Rightarrow> Inr i)"

text \<open>
  \<^verbatim>\<open>Add\<close> creates the inner map before it looks for the component, so a conflict
  may find the outer map unchanged or, for the first component of a type, extended.
\<close>

definition ECAdd ::
  "EntityComponent \<Rightarrow> EntityComponentStore \<Rightarrow> ecs_error option \<times> EntityComponentStore" where
  "ECAdd ec s =
    (if nameIndex s (ec_TypeId ec) = None then (Some TypeNotAdded, s)
     else
       let ecs = (case entityComponents s (ec_TypeId ec) of None \<Rightarrow> Map.empty | Some m \<Rightarrow> m);
           s1 = s\<lparr>entityComponents := (entityComponents s)(ec_TypeId ec \<mapsto> ecs)\<rparr>
       in if ecs (ec_EntityId ec) \<noteq> None then (Some TypeAlreadyAdded, s1)
          else (None, s1\<lparr>entityComponents :=
            (entityComponents s1)(ec_TypeId ec \<mapsto> ecs(ec_EntityId ec \<mapsto> ec))\<rparr>))"

definition ECDelete ::
  "u32 \<Rightarrow> u32 \<Rightarrow> EntityComponentStore \<Rightarrow> bool \<times> EntityComponentStore" where
  "ECDelete t e s =
    (case entityComponents s t of
       None \<Rightarrow> (False, s)
     | Some ecs \<Rightarrow>
         (ecs e \<noteq> None,
          s\<lparr>entityComponents := (entityComponents s)(t \<mapsto> ecs(e := None))\<rparr>))"

definition DeleteByEntityID :: "u32 \<Rightarrow> EntityComponentStore \<Rightarrow> EntityComponentStore" where
  "DeleteByEntityID e s =
    s\<lparr>entityComponents :=
      (\<lambda>t. map_option (\<lambda>ecs. ecs(e := None)) (entityComponents s t))\<rparr>"

definition ECUpdate ::
  "EntityComponent \<Rightarrow> EntityComponentStore \<Rightarrow> ecs_error option \<times> EntityComponentStore" where
  "ECUpdate ec s =
    (case entityComponents s (ec_TypeId ec) of
       None \<Rightarrow> (Some ComponentNotAdded, s)
     | Some ecs \<Rightarrow>
         if ecs (ec_EntityId ec) = None then (Some ComponentNotAdded, s)
         else (None, s\<lparr>entityComponents :=
           (entityComponents s)(ec_TypeId ec \<mapsto> ecs(ec_EntityId ec \<mapsto> ec))\<rparr>))"

text \<open>\<^verbatim>\<open>List\<close> returns nil, here the empty list, for an absent or empty inner map.\<close>

definition ECList :: "u32 order \<Rightarrow> u32 \<Rightarrow> EntityComponentStore \<Rightarrow> EntityComponent list" where
  "ECList r t s =
    (case entityComponents s t of
       None \<Rightarrow> []
     | Some ecs \<Rightarrow> List.map_filter ecs (r (dom ecs)))"

definition ListByEntityID ::
  "u32 order \<Rightarrow> u32 \<Rightarrow> EntityComponentStore \<Rightarrow> EntityComponent list" where
  "ListByEntityID r e s =
    List.map_filter (\<lambda>t. case entityComponents s t of None \<Rightarrow> None | Some ecs \<Rightarrow> ecs e)
      (r (dom (entityComponents s)))"

definition ListAll :: "u32 order \<Rightarrow> EntityComponentStore \<Rightarrow> EntityComponent list" where
  "ListAll r s =
    concat (map (\<lambda>t. case entityComponents s t of
                       None \<Rightarrow> []
                     | Some ecs \<Rightarrow> List.map_filter ecs (r (dom ecs)))
      (r (dom (entityComponents s))))"

definition Subscribe ::
  "u32 \<Rightarrow> u32 \<Rightarrow> EntityComponentStore \<Rightarrow> ecs_error option \<times> EntityComponentStore" where
  "Subscribe t p s =
    (if nameIndex s t = None then (Some TypeNotAdded, s)
     else
       let subs = (case subscriptions s t of None \<Rightarrow> {} | Some S \<Rightarrow> S)
       in (None, s\<lparr>subscriptions := (subscriptions s)(t \<mapsto> insert p subs)\<rparr>))"

definition Unsubscribe :: "u32 \<Rightarrow> u32 \<Rightarrow> EntityComponentStore \<Rightarrow> EntityComponentStore" where
  "Unsubscribe t p s =
    (case subscriptions s t of
       None \<Rightarrow> s
     | Some S \<Rightarrow> s\<lparr>subscriptions := (subscriptions s)(t \<mapsto> S - {p})\<rparr>)"

definition UnsubscribeByParticipant :: "u32 \<Rightarrow> EntityComponentStore \<Rightarrow> EntityComponentStore"
  where
  "UnsubscribeByParticipant p s =
    s\<lparr>subscriptions := (\<lambda>t. map_option (\<lambda>S. S - {p}) (subscriptions s t))\<rparr>"

text \<open>\<^verbatim>\<open>Notify\<close> runs the handler, a function on the state \<open>w\<close>, on the
  ids of the subscribers, unless there is none.\<close>

definition Notify ::
  "u32 order \<Rightarrow> u32 \<Rightarrow> (u32 list \<Rightarrow> 'w \<Rightarrow> 'w) \<Rightarrow> EntityComponentStore \<Rightarrow> 'w \<Rightarrow> 'w" where
  "Notify r t h s w =
    (case subscriptions s t of
       None \<Rightarrow> w
     | Some S \<Rightarrow> if S = {} then w else h (r S) w)"

section \<open>The flat specification\<close>

text \<open>A component lives under its type and its entity; the store is a map of such pairs.\<close>

definition components :: "EntityComponentStore \<Rightarrow> (u32 \<times> u32) \<rightharpoonup> EntityComponent" where
  "components s = (\<lambda>(t, e).
    case entityComponents s t of None \<Rightarrow> None | Some ecs \<Rightarrow> ecs e)"

definition subscribed :: "EntityComponentStore \<Rightarrow> u32 \<Rightarrow> u32 set" where
  "subscribed s t = (case subscriptions s t of None \<Rightarrow> {} | Some S \<Rightarrow> S)"

definition component_entities :: "EntityComponentStore \<Rightarrow> u32 set" where
  "component_entities s = snd ` dom (components s)"

definition subscribers :: "EntityComponentStore \<Rightarrow> u32 set" where
  "subscribers s = (\<Union>t. subscribed s t)"

lemma components_ECAdd:
  "components (snd (ECAdd ec s)) =
    (if fst (ECAdd ec s) = None
     then (components s)((ec_TypeId ec, ec_EntityId ec) \<mapsto> ec) else components s)"
  by (auto simp: ECAdd_def components_def Let_def fun_eq_iff split: option.splits)

lemma fst_ECAdd:
  "fst (ECAdd ec s) =
    (if nameIndex s (ec_TypeId ec) = None then Some TypeNotAdded
     else if components s (ec_TypeId ec, ec_EntityId ec) \<noteq> None then Some TypeAlreadyAdded
     else None)"
  by (auto simp: ECAdd_def components_def Let_def split: option.splits)

lemma components_ECDelete: "components (snd (ECDelete t e s)) = (components s)((t, e) := None)"
  by (auto simp: ECDelete_def components_def fun_eq_iff split: option.splits)

lemma fst_ECDelete: "fst (ECDelete t e s) \<longleftrightarrow> components s (t, e) \<noteq> None"
  by (auto simp: ECDelete_def components_def split: option.splits)

lemma components_DeleteByEntityID:
  "components (DeleteByEntityID e s) = (\<lambda>(t, e'). if e' = e then None else components s (t, e'))"
  by (auto simp: DeleteByEntityID_def components_def fun_eq_iff split: option.splits)

lemma components_ECUpdate:
  "components (snd (ECUpdate ec s)) =
    (if fst (ECUpdate ec s) = None
     then (components s)((ec_TypeId ec, ec_EntityId ec) \<mapsto> ec) else components s)"
  by (auto simp: ECUpdate_def components_def fun_eq_iff split: option.splits)

lemma fst_ECUpdate:
  "fst (ECUpdate ec s) =
    (if components s (ec_TypeId ec, ec_EntityId ec) = None then Some ComponentNotAdded
     else None)"
  by (auto simp: ECUpdate_def components_def split: option.splits)

lemma components_others [simp]:
  "components (snd (AddType r name s)) = components s"
  "components (snd (Subscribe t p s)) = components s"
  "components (Unsubscribe t p s) = components s"
  "components (UnsubscribeByParticipant p s) = components s"
  by (auto simp: components_def AddType_def Subscribe_def Unsubscribe_def
      UnsubscribeByParticipant_def Let_def split: option.splits prod.splits)

lemma subscribed_others [simp]:
  "subscribed (snd (AddType r name s)) = subscribed s"
  "subscribed (snd (ECAdd ec s)) = subscribed s"
  "subscribed (snd (ECDelete t e s)) = subscribed s"
  "subscribed (DeleteByEntityID e s) = subscribed s"
  "subscribed (snd (ECUpdate ec s)) = subscribed s"
  by (auto simp: subscribed_def AddType_def ECAdd_def ECDelete_def DeleteByEntityID_def
      ECUpdate_def Let_def fun_eq_iff split: option.splits prod.splits)

lemma subscribed_Subscribe:
  "subscribed (snd (Subscribe t p s)) =
    (if nameIndex s t = None then subscribed s
     else (subscribed s)(t := insert p (subscribed s t)))"
  by (auto simp: Subscribe_def subscribed_def fun_eq_iff split: option.splits)

lemma fst_Subscribe:
  "fst (Subscribe t p s) = (if nameIndex s t = None then Some TypeNotAdded else None)"
  by (simp add: Subscribe_def Let_def)

lemma subscribed_Unsubscribe:
  "subscribed (Unsubscribe t p s) = (subscribed s)(t := subscribed s t - {p})"
  by (auto simp: Unsubscribe_def subscribed_def fun_eq_iff split: option.splits)

lemma subscribed_UnsubscribeByParticipant:
  "subscribed (UnsubscribeByParticipant p s) t = subscribed s t - {p}"
  by (auto simp: UnsubscribeByParticipant_def subscribed_def split: option.splits)

lemma nameIndex_others [simp]:
  "nameIndex (snd (ECAdd ec s)) = nameIndex s"
  "nameIndex (snd (ECDelete t e s)) = nameIndex s"
  "nameIndex (DeleteByEntityID e s) = nameIndex s"
  "nameIndex (snd (ECUpdate ec s)) = nameIndex s"
  "nameIndex (snd (Subscribe t p s)) = nameIndex s"
  "nameIndex (Unsubscribe t p s) = nameIndex s"
  "nameIndex (UnsubscribeByParticipant p s) = nameIndex s"
  by (auto simp: ECAdd_def ECDelete_def DeleteByEntityID_def ECUpdate_def Subscribe_def
      Unsubscribe_def UnsubscribeByParticipant_def Let_def split: option.splits)

lemma idIndex_others [simp]:
  "idIndex (snd (ECAdd ec s)) = idIndex s"
  "idIndex (snd (ECDelete t e s)) = idIndex s"
  "idIndex (DeleteByEntityID e s) = idIndex s"
  "idIndex (snd (ECUpdate ec s)) = idIndex s"
  "idIndex (snd (Subscribe t p s)) = idIndex s"
  "idIndex (Unsubscribe t p s) = idIndex s"
  "idIndex (UnsubscribeByParticipant p s) = idIndex s"
  by (auto simp: ECAdd_def ECDelete_def DeleteByEntityID_def ECUpdate_def Subscribe_def
      Unsubscribe_def UnsubscribeByParticipant_def Let_def split: option.splits)

lemma ecs_ids_others [simp]:
  "ecs_ids (snd (ECAdd ec s)) = ecs_ids s"
  "ecs_ids (snd (ECDelete t e s)) = ecs_ids s"
  "ecs_ids (DeleteByEntityID e s) = ecs_ids s"
  "ecs_ids (snd (ECUpdate ec s)) = ecs_ids s"
  "ecs_ids (snd (Subscribe t p s)) = ecs_ids s"
  "ecs_ids (Unsubscribe t p s) = ecs_ids s"
  "ecs_ids (UnsubscribeByParticipant p s) = ecs_ids s"
  by (auto simp: ECAdd_def ECDelete_def DeleteByEntityID_def ECUpdate_def Subscribe_def
      Unsubscribe_def UnsubscribeByParticipant_def Let_def split: option.splits)

section \<open>The invariant of the store\<close>

text \<open>
  \<open>ecs_ok n E P s\<close>: the type ids are covered by the generator, the two name indexes are
  inverse, every component sits under its own type and entity, only registered types have
  components or subscribers, components belong to the entities \<open>E\<close> of the session and
  subscriptions to its participants \<open>P\<close>.
\<close>

definition names_ok :: "EntityComponentStore \<Rightarrow> bool" where
  "names_ok s \<longleftrightarrow> (\<forall>t name. nameIndex s t = Some name \<longleftrightarrow> idIndex s name = Some t)"

lemma names_ok_cong:
  "nameIndex s' = nameIndex s \<Longrightarrow> idIndex s' = idIndex s \<Longrightarrow> names_ok s' = names_ok s"
  by (simp add: names_ok_def)

lemma names_okD: "names_ok s \<Longrightarrow> nameIndex s t = Some name \<longleftrightarrow> idIndex s name = Some t"
  by (simp add: names_ok_def)

lemma names_ok_others [simp]:
  "names_ok (snd (ECAdd ec s)) = names_ok s"
  "names_ok (snd (ECDelete t e s)) = names_ok s"
  "names_ok (DeleteByEntityID e s) = names_ok s"
  "names_ok (snd (ECUpdate ec s)) = names_ok s"
  "names_ok (snd (Subscribe t p s)) = names_ok s"
  "names_ok (Unsubscribe t p s) = names_ok s"
  "names_ok (UnsubscribeByParticipant p s) = names_ok s"
  by (rule names_ok_cong; simp)+

definition ecs_ok :: "nat \<Rightarrow> u32 set \<Rightarrow> u32 set \<Rightarrow> EntityComponentStore \<Rightarrow> bool" where
  "ecs_ok n E P s \<longleftrightarrow>
    covers n (ecs_ids s) (dom (nameIndex s)) \<and>
    names_ok s \<and>
    (\<forall>t e ec. components s (t, e) = Some ec \<longrightarrow>
      ec_TypeId ec = t \<and> ec_EntityId ec = e \<and> t \<in> dom (nameIndex s) \<and> e \<in> E) \<and>
    (\<forall>t p. p \<in> subscribed s t \<longrightarrow> t \<in> dom (nameIndex s) \<and> p \<in> P)"

lemma ecs_okI:
  assumes "covers n (ecs_ids s) (dom (nameIndex s))"
    and "names_ok s"
    and "\<And>t e ec. components s (t, e) = Some ec \<Longrightarrow>
      ec_TypeId ec = t \<and> ec_EntityId ec = e \<and> t \<in> dom (nameIndex s) \<and> e \<in> E"
    and "\<And>t p. p \<in> subscribed s t \<Longrightarrow> t \<in> dom (nameIndex s) \<and> p \<in> P"
  shows "ecs_ok n E P s"
  using assms unfolding ecs_ok_def by blast

lemma ecs_okD:
  assumes "ecs_ok n E P s"
  shows "covers n (ecs_ids s) (dom (nameIndex s))"
    and "names_ok s"
    and "components s (t, e) = Some ec \<Longrightarrow>
      ec_TypeId ec = t \<and> ec_EntityId ec = e \<and> t \<in> dom (nameIndex s) \<and> e \<in> E"
    and "p \<in> subscribed s t \<Longrightarrow> t \<in> dom (nameIndex s) \<and> p \<in> P"
  using assms unfolding ecs_ok_def by blast+

lemma ecs_ok_new: "ecs_ok n E P newEntityComponentStore"
  by (auto simp: ecs_ok_def newEntityComponentStore_def components_def subscribed_def
      names_ok_def covers_def newGenerator_def)

lemma ecs_ok_mono:
  assumes "ecs_ok n E P s" and "n \<le> m" and "E \<subseteq> E'" and "P \<subseteq> P'"
  shows "ecs_ok m E' P' s"
proof -
  have "covers m (ecs_ids s) (dom (nameIndex s))"
    using ecs_okD(1) [OF assms(1)] assms(2) by (rule covers_mono [OF _ subset_refl])
  then show ?thesis
    using assms(1,3,4) unfolding ecs_ok_def by blast
qed

lemma ecs_ok_AddType:
  assumes "range_ok r" and "ecs_ok n E P s" and "n < id_limit"
  shows "ecs_ok (Suc n) E P (snd (AddType r name s))"
proof (cases "idIndex s name")
  case (Some i)
  then have "snd (AddType r name s) = s" by (simp add: AddType_def)
  then show ?thesis using ecs_ok_mono [OF assms(2), of "Suc n" E P] by simp
next
  case None
  obtain i g where N: "New r (ecs_ids s) = (i, g)" by fastforce
  note ok = ecs_okD [OF assms(2)]
  have a: "nameIndex s i = None" "covers (Suc n) g (dom ((nameIndex s)(i \<mapsto> name)))"
    using gen.table_alloc [OF assms(1) ok(1) assms(3) N] by auto
  have S: "snd (AddType r name s) = s\<lparr>ecs_ids := g, nameIndex := (nameIndex s)(i \<mapsto> name),
      idIndex := (idIndex s)(name \<mapsto> i)\<rparr>"
    using None N by (simp add: AddType_def)
  show ?thesis
  proof (rule ecs_okI)
    show "covers (Suc n) (ecs_ids (snd (AddType r name s))) (dom (nameIndex (snd (AddType r name s))))"
      using a(2) by (simp add: S)
    show "names_ok (snd (AddType r name s))"
      using a(1) None names_okD [OF ok(2)] unfolding names_ok_def
      by (simp add: S) (metis option.distinct(1))
  qed (use ok(3,4) in \<open>fastforce simp: S components_def subscribed_def\<close>)+
qed

lemma ecs_ok_ECAdd:
  assumes "ecs_ok n E P s" and "ec_EntityId ec \<in> E"
  shows "ecs_ok n E P (snd (ECAdd ec s))"
  using assms(2) ecs_okD(1,2) [OF assms(1)]
  by (intro ecs_okI) (auto simp: components_ECAdd fst_ECAdd dest: ecs_okD(3,4) [OF assms(1)] split: if_splits)

lemma ecs_ok_ECDelete:
  assumes "ecs_ok n E P s"
  shows "ecs_ok n E P (snd (ECDelete t e s))"
  using ecs_okD(1,2) [OF assms]
  by (intro ecs_okI) (auto simp: components_ECDelete dest: ecs_okD(3,4) [OF assms] split: if_splits)

lemma ecs_ok_ECUpdate:
  assumes "ecs_ok n E P s"
  shows "ecs_ok n E P (snd (ECUpdate ec s))"
  using ecs_okD(1,2) [OF assms]
  by (intro ecs_okI) (auto simp: components_ECUpdate fst_ECUpdate dest: ecs_okD(3,4) [OF assms] split: if_splits)

lemma ecs_ok_DeleteByEntityID:
  assumes "ecs_ok n E P s"
  shows "ecs_ok n (E - {e}) P (DeleteByEntityID e s)"
  using ecs_okD(1,2) [OF assms]
  by (intro ecs_okI) (auto simp: components_DeleteByEntityID dest: ecs_okD(3,4) [OF assms] split: if_splits)

lemma ecs_ok_Subscribe:
  assumes "ecs_ok n E P s" and "p \<in> P"
  shows "ecs_ok n E P (snd (Subscribe t p s))"
  using assms(2) ecs_okD(1,2) [OF assms(1)]
  by (intro ecs_okI) (auto simp: subscribed_Subscribe dest: ecs_okD(3,4) [OF assms(1)] split: if_splits)

lemma ecs_ok_Unsubscribe:
  assumes "ecs_ok n E P s"
  shows "ecs_ok n E P (Unsubscribe t p s)"
  using ecs_okD(1,2) [OF assms]
  by (intro ecs_okI) (auto simp: subscribed_Unsubscribe dest: ecs_okD(3,4) [OF assms] split: if_splits)

lemma ecs_ok_UnsubscribeByParticipant:
  assumes "ecs_ok n E P s"
  shows "ecs_ok n E (P - {p}) (UnsubscribeByParticipant p s)"
  using ecs_okD(1,2) [OF assms]
  by (intro ecs_okI) (auto simp: subscribed_UnsubscribeByParticipant dest: ecs_okD(3,4) [OF assms])

lemma ecs_ok_shrink:
  assumes "ecs_ok n E P s" and "component_entities s \<subseteq> E'" and "subscribers s \<subseteq> P'"
  shows "ecs_ok n E' P' s"
proof (rule ecs_okI)
  note ok = ecs_okD [OF assms(1)]
  show "covers n (ecs_ids s) (dom (nameIndex s))" "names_ok s" using ok(1,2) .
  show "ec_TypeId ec = t \<and> ec_EntityId ec = i \<and> t \<in> dom (nameIndex s) \<and> i \<in> E'"
    if c: "components s (t, i) = Some ec" for t i ec
  proof -
    have "i \<in> component_entities s"
      unfolding component_entities_def using domI [of "components s", OF c] by (metis image_eqI snd_conv)
    with ok(3) [OF c] assms(2) show ?thesis by blast
  qed
  show "t \<in> dom (nameIndex s) \<and> p \<in> P'" if "p \<in> subscribed s t" for t p
    using ok(4) [OF that] that assms(3) unfolding subscribers_def by blast
qed

section \<open>What the lists return\<close>

lemma set_ECList:
  assumes "range_ok r"
  shows "set (ECList r t s) = {ec. \<exists>e. components s (t, e) = Some ec}"
proof (cases "entityComponents s t")
  case None
  then show ?thesis by (simp add: ECList_def components_def)
next
  case (Some ecs)
  have "set (List.map_filter ecs (r (dom ecs))) = ran ecs"
    using assms by (simp add: set_map_filter_dom)
  with Some show ?thesis by (simp add: ECList_def components_def ran_def)
qed

lemma distinct_ECList:
  assumes "range_ok r" and "ecs_ok n E P s"
  shows "distinct (ECList r t s)"
proof (cases "entityComponents s t")
  case None
  then show ?thesis by (simp add: ECList_def)
next
  case (Some ecs)
  have "x = x'" if "ecs x = Some y" "ecs x' = Some y" for x x' y
    using that Some ecs_okD(3) [OF assms(2), of t] by (auto simp: components_def)
  then show ?thesis
    using assms(1) Some by (simp add: ECList_def distinct_map_filter)
qed

lemma set_ListByEntityID:
  assumes "range_ok r"
  shows "set (ListByEntityID r e s) = {ec. \<exists>t. components s (t, e) = Some ec}"
  using assms
  by (fastforce simp: ListByEntityID_def components_def set_map_filter split: option.splits)

lemma ListAll_ECList:
  "ListAll r s = concat (map (\<lambda>t. ECList r t s) (r (dom (entityComponents s))))"
  by (simp add: ListAll_def ECList_def)

lemma set_ListAll:
  assumes "range_ok r"
  shows "set (ListAll r s) = ran (components s)"
proof -
  have "set (ListAll r s) =
      (\<Union>t \<in> dom (entityComponents s). {ec. \<exists>e. components s (t, e) = Some ec})"
    using assms by (simp add: ListAll_ECList set_ECList)
  also have "\<dots> = ran (components s)"
    by (fastforce simp: ran_def components_def split: option.splits)
  finally show ?thesis .
qed

section \<open>The store implements the flat specification\<close>

text \<open>C31: The nested maps of the component store implement one map from pairs of a type and
  an entity to components. Adding inserts a component of a registered type, unless the pair
  already has one; updating replaces an existing component; both leave the map alone when
  they fail, with the errors the code names. Deleting removes one pair and reports whether it
  was there; deleting an entity removes all its pairs.\<close>

theorem component_store_refines_map:
  "fst (ECAdd ec s) =
      (if nameIndex s (ec_TypeId ec) = None then Some TypeNotAdded
       else if components s (ec_TypeId ec, ec_EntityId ec) \<noteq> None then Some TypeAlreadyAdded
       else None) \<and>
    components (snd (ECAdd ec s)) =
      (if fst (ECAdd ec s) = None
       then (components s)((ec_TypeId ec, ec_EntityId ec) \<mapsto> ec) else components s) \<and>
    fst (ECUpdate ec s) =
      (if components s (ec_TypeId ec, ec_EntityId ec) = None then Some ComponentNotAdded else None) \<and>
    components (snd (ECUpdate ec s)) =
      (if fst (ECUpdate ec s) = None
       then (components s)((ec_TypeId ec, ec_EntityId ec) \<mapsto> ec) else components s) \<and>
    (fst (ECDelete t e s) \<longleftrightarrow> components s (t, e) \<noteq> None) \<and>
    components (snd (ECDelete t e s)) = (components s)((t, e) := None) \<and>
    components (DeleteByEntityID e s) =
      (\<lambda>(t, e'). if e' = e then None else components s (t, e'))"
  by (intro conjI components_ECAdd fst_ECAdd components_ECUpdate fst_ECUpdate components_ECDelete
      fst_ECDelete components_DeleteByEntityID)

text \<open>C32: A type name gets one id and an id one name: adding a type that is registered returns
  its id and changes nothing, adding a new one draws a fresh id under which its name is found
  and which its name finds, and no other name or id moves.\<close>

theorem type_names_roundtrip:
  assumes "range_ok r" and "ecs_ok n E P s" and "n < id_limit" and "AddType r name s = (i, s')"
  shows "GetTypeID name s' = Inr i \<and> GetTypeName i s' = Inr name \<and>
    AddType r' name s' = (i, s') \<and>
    (\<forall>other. other \<noteq> name \<longrightarrow> GetTypeID other s' = GetTypeID other s) \<and>
    (\<forall>j. j \<noteq> i \<longrightarrow> GetTypeName j s' = GetTypeName j s)"
proof (cases "idIndex s name")
  case (Some j)
  then have "i = j" "s' = s" using assms(4) by (simp_all add: AddType_def)
  moreover have "nameIndex s j = Some name"
    using Some names_okD [OF ecs_okD(2) [OF assms(2)]] by simp
  ultimately show ?thesis
    using Some by (simp add: GetTypeID_def GetTypeName_def AddType_def)
next
  case None
  obtain g where "New r (ecs_ids s) = (i, g)" and
    s': "s' = s\<lparr>ecs_ids := g, nameIndex := (nameIndex s)(i \<mapsto> name),
      idIndex := (idIndex s)(name \<mapsto> i)\<rparr>"
    using assms(4) None by (auto simp: AddType_def split: prod.splits)
  then show ?thesis
    by (simp add: GetTypeID_def GetTypeName_def AddType_def)
qed

lemma type_names_roundtrip_witness:
  "GetTypeName 1 (snd (AddType sorted_list_of_set ''pose'' newEntityComponentStore)) = Inr ''pose''"
proof -
  have "AddType sorted_list_of_set ''pose'' newEntityComponentStore =
      (1, snd (AddType sorted_list_of_set ''pose'' newEntityComponentStore))"
    by (simp add: AddType_def newEntityComponentStore_def New_def newGenerator_def Let_def)
  from type_names_roundtrip [OF range_ok_sorted ecs_ok_new [of 0 "{}" "{}"] _ this]
  show ?thesis by (simp add: id_limit_def)
qed

text \<open>\<^verbatim>\<open>List\<close> returns every component of the type and nothing else, each once;
  \<^verbatim>\<open>ListByEntityID\<close> returns exactly the components of the entity, and
  \<^verbatim>\<open>ListAll\<close> exactly all of them, in whatever order Go ranges over the maps.\<close>

theorem lists_are_complete:
  assumes "range_ok r" and "ecs_ok n E P s"
  shows "set (ECList r t s) = {ec. \<exists>e. components s (t, e) = Some ec} \<and> distinct (ECList r t s) \<and>
    set (ListByEntityID r e s) = {ec. \<exists>t. components s (t, e) = Some ec} \<and>
    set (ListAll r s) = ran (components s)"
  using set_ECList [OF assms(1)] distinct_ECList [OF assms] set_ListByEntityID [OF assms(1)]
    set_ListAll [OF assms(1)] by simp

definition one_component :: EntityComponentStore where
  "one_component =
    \<lparr>ecs_ids = \<lparr>currentID = 1, reusableIDs = {}\<rparr>, nameIndex = [1 \<mapsto> ''pose''],
     idIndex = [''pose'' \<mapsto> 1],
     entityComponents = [1 \<mapsto> [7 \<mapsto> \<lparr>ec_TypeId = 1, ec_EntityId = 7, ec_Data = [42]\<rparr>]],
     subscriptions = Map.empty\<rparr>"

lemma one_component_ok: "ecs_ok 1 {7} {} one_component"
  by (auto simp: ecs_ok_def one_component_def covers_def names_ok_def components_def subscribed_def
      split: if_splits option.splits)

lemma lists_are_complete_witness:
  "ECList sorted_list_of_set 1 one_component = [\<lparr>ec_TypeId = 1, ec_EntityId = 7, ec_Data = [42]\<rparr>] \<and>
    set (ECList sorted_list_of_set 1 one_component) =
      {ec. \<exists>e. components one_component (1, e) = Some ec}"
proof
  show "ECList sorted_list_of_set 1 one_component = [\<lparr>ec_TypeId = 1, ec_EntityId = 7, ec_Data = [42]\<rparr>]"
    by (simp add: one_component_def ECList_def List.map_filter_simps)
  show "set (ECList sorted_list_of_set 1 one_component) =
      {ec. \<exists>e. components one_component (1, e) = Some ec}"
    using lists_are_complete [OF range_ok_sorted one_component_ok] by blast
qed

end
