(* ===== verification/Session.thy ===== *)
theory Session
imports Entity_Components
begin

text \<open>
  \<^verbatim>\<open>models/session.go\<close>, the type \<^verbatim>\<open>Session\<close>: participants, entities, module
  states, frame handlers, the dispatch of frames and the two broadcasts. A session holds
  the addresses of its participants; operations that look inside one take the heap \<open>H\<close>
  of participants. The states of the modules are of an open type \<open>'m\<close>. A broadcast
  appends to the queues of the connections; whether \<^verbatim>\<open>MsgFromProto\<close> can encode a
  message is a parameter.

  Proved here: who receives a broadcast and how often, that a frame loop ends after
  \<^verbatim>\<open>Close\<close>, and the invariant \<open>sess_ok\<close> of one session, which ties the id
  generators, the tables and the ownership of entities together, kept by every operation.
\<close>

section \<open>The state of a session\<close>

record 'm Session =
  s_ID :: u32
  s_UUID :: string
  s_AppKey :: string
  s_participantIDs :: SequentialIDGenerator
  s_participants :: "u32 \<rightharpoonup> pptr"
  s_entityIDs :: SequentialIDGenerator
  s_entities :: "u32 \<rightharpoonup> Entity"
  s_moduleStates :: "string \<rightharpoonup> 'm"
  s_frameHandlerIDs :: SequentialIDGenerator
  s_frameHandlers :: "u32 \<rightharpoonup> conn"
  s_entityComponents :: EntityComponentStore
  s_startFrameOnce :: bool
  s_frameLoop :: bool
  s_closeFrameChan :: nat
  s_tickPending :: bool
  s_tickerStopped :: bool
  s_closeOnce :: bool

definition NewSession :: "u32 \<Rightarrow> string \<Rightarrow> 'm Session" where
  "NewSession i uuid =
    \<lparr>s_ID = i, s_UUID = uuid, s_AppKey = '''',
     s_participantIDs = newGenerator, s_participants = Map.empty,
     s_entityIDs = newGenerator, s_entities = Map.empty,
     s_moduleStates = Map.empty,
     s_frameHandlerIDs = newGenerator, s_frameHandlers = Map.empty,
     s_entityComponents = newEntityComponentStore,
     s_startFrameOnce = False, s_frameLoop = False, s_closeFrameChan = 0,
     s_tickPending = False, s_tickerStopped = False, s_closeOnce = False\<rparr>"

definition Close :: "'m Session \<Rightarrow> 'm Session" where
  "Close s =
    (if s_closeOnce s then s
     else s\<lparr>s_closeOnce := True, s_tickerStopped := True,
            s_closeFrameChan := Suc (s_closeFrameChan s)\<rparr>)"

section \<open>Participants\<close>

definition NewParticipantID :: "u32 order \<Rightarrow> 'm Session \<Rightarrow> u32 \<times> 'm Session" where
  "NewParticipantID r s =
    (let (i, g) = New r (s_participantIDs s) in (i, s\<lparr>s_participantIDs := g\<rparr>))"

definition AddParticipant ::
  "(pptr \<Rightarrow> Participant) \<Rightarrow> pptr \<Rightarrow> 'm Session \<Rightarrow> 'm Session" where
  "AddParticipant H p s = s\<lparr>s_participants := (s_participants s)(p_ID (H p) \<mapsto> p)\<rparr>"

definition RemoveParticipant ::
  "(pptr \<Rightarrow> Participant) \<Rightarrow> pptr \<Rightarrow> 'm Session \<Rightarrow> 'm Session" where
  "RemoveParticipant H p s = s\<lparr>s_participants := (s_participants s)(p_ID (H p) := None)\<rparr>"

definition GetParticipants :: "u32 order \<Rightarrow> 'm Session \<Rightarrow> pptr list" where
  "GetParticipants r s = List.map_filter (s_participants s) (r (dom (s_participants s)))"

definition GetParticipantsByIDs :: "u32 list \<Rightarrow> 'm Session \<Rightarrow> pptr list" where
  "GetParticipantsByIDs ids s = List.map_filter (s_participants s) ids"

definition ParticipantCount :: "'m Session \<Rightarrow> nat" where
  "ParticipantCount s = card (dom (s_participants s))"

section \<open>Entities\<close>

definition NewEntityID :: "u32 order \<Rightarrow> 'm Session \<Rightarrow> u32 \<times> 'm Session" where
  "NewEntityID r s = (let (i, g) = New r (s_entityIDs s) in (i, s\<lparr>s_entityIDs := g\<rparr>))"

definition AddEntity :: "Entity \<Rightarrow> 'm Session \<Rightarrow> 'm Session" where
  "AddEntity e s = s\<lparr>s_entities := (s_entities s)(e_ID e \<mapsto> e)\<rparr>"

definition RemoveEntity :: "Entity \<Rightarrow> 'm Session \<Rightarrow> 'm Session" where
  "RemoveEntity e s = s\<lparr>s_entities := (s_entities s)(e_ID e := None)\<rparr>"

definition EntityByID :: "u32 \<Rightarrow> 'm Session \<Rightarrow> Entity option" where
  "EntityByID i s = s_entities s i"

definition Entities :: "u32 order \<Rightarrow> 'm Session \<Rightarrow> Entity list" where
  "Entities r s = List.map_filter (s_entities s) (r (dom (s_entities s)))"

text \<open>\<^verbatim>\<open>EntityByID\<close> returns a pointer into the table, so a change of the entity
  is a change of its entry.\<close>

definition UpdateEntity :: "u32 \<Rightarrow> (Entity \<Rightarrow> Entity) \<Rightarrow> 'm Session \<Rightarrow> 'm Session" where
  "UpdateEntity i f s =
    s\<lparr>s_entities := (s_entities s)(i := map_option f (s_entities s i))\<rparr>"

section \<open>Module states\<close>

definition SetModuleState :: "string \<Rightarrow> 'm \<Rightarrow> 'm Session \<Rightarrow> 'm Session" where
  "SetModuleState name st s = s\<lparr>s_moduleStates := (s_moduleStates s)(name \<mapsto> st)\<rparr>"

definition ModuleState :: "string \<Rightarrow> 'm Session \<Rightarrow> 'm option" where
  "ModuleState name s = s_moduleStates s name"

section \<open>Broadcasts\<close>

type_synonym queues = "conn \<Rightarrow> Proto list"

definition enqueue :: "conn \<Rightarrow> Proto \<Rightarrow> queues \<Rightarrow> queues" where
  "enqueue c m out = out(c := out c @ [m])"

definition Broadcast ::
  "(Proto \<Rightarrow> bool) \<Rightarrow> (pptr \<Rightarrow> Participant) \<Rightarrow> u32 order \<Rightarrow> pptr \<Rightarrow> Proto \<Rightarrow>
    'm Session \<Rightarrow> queues \<Rightarrow> queues" where
  "Broadcast encodes H r sender m s out =
    (if \<not> encodes m then out
     else fold (\<lambda>p out. if p = sender then out else enqueue (p_Responder (H p)) m out)
            (GetParticipants r s) out)"

definition BroadcastTo ::
  "(Proto \<Rightarrow> bool) \<Rightarrow> (pptr \<Rightarrow> Participant) \<Rightarrow> pptr \<Rightarrow> Proto \<Rightarrow> u32 list \<Rightarrow>
    'm Session \<Rightarrow> queues \<Rightarrow> queues" where
  "BroadcastTo encodes H sender m ids s out =
    (if \<not> encodes m then out
     else snd (fold (\<lambda>p (handled, out).
              if p = sender then (handled, out)
              else if p_ID (H p) \<in> handled then (handled, out)
              else (insert (p_ID (H p)) handled, enqueue (p_Responder (H p)) m out))
            (GetParticipantsByIDs ids s) ({}, out)))"

section \<open>Frames\<close>

definition HandleFrame :: "u32 order \<Rightarrow> conn \<Rightarrow> 'm Session \<Rightarrow> u32 \<times> 'm Session" where
  "HandleFrame r h s =
    (let (i, g) = New r (s_frameHandlerIDs s) in
     (i, s\<lparr>s_frameHandlerIDs := g, s_frameHandlers := (s_frameHandlers s)(i \<mapsto> h)\<rparr>))"

text \<open>The closure that \<^verbatim>\<open>HandleFrame\<close> returns, given the id it captured.\<close>

definition CancelFrame :: "u32 \<Rightarrow> 'm Session \<Rightarrow> 'm Session" where
  "CancelFrame i s =
    s\<lparr>s_frameHandlers := (s_frameHandlers s)(i := None),
      s_frameHandlerIDs := Reuse i (s_frameHandlerIDs s)\<rparr>"

definition StartDispatchFrames :: "'m Session \<Rightarrow> 'm Session" where
  "StartDispatchFrames s =
    (if s_startFrameOnce s then s else s\<lparr>s_startFrameOnce := True, s_frameLoop := True\<rparr>)"

text \<open>
  One turn of the loop of \<^verbatim>\<open>StartDispatchFrames\<close>: the ticker may fire, filling
  its channel of size one unless it was stopped; the loop takes either the tick, and calls
  every frame handler, or the close signal, and returns. The first component lists the
  handlers called.
\<close>

datatype frame_event = TickerFires | TakeTick | TakeClose

fun frame_step :: "u32 order \<Rightarrow> frame_event \<Rightarrow> 'm Session \<Rightarrow> conn list \<times> 'm Session" where
  "frame_step r TickerFires s = ([], if s_tickerStopped s then s else s\<lparr>s_tickPending := True\<rparr>)"
| "frame_step r TakeTick s =
    (if s_frameLoop s \<and> s_tickPending s
     then (List.map_filter (s_frameHandlers s) (r (dom (s_frameHandlers s))),
           s\<lparr>s_tickPending := False\<rparr>)
     else ([], s))"
| "frame_step r TakeClose s =
    (if s_frameLoop s \<and> 0 < s_closeFrameChan s
     then ([], s\<lparr>s_frameLoop := False, s_closeFrameChan := s_closeFrameChan s - 1\<rparr>)
     else ([], s))"

fun frame_run ::
  "u32 order \<Rightarrow> frame_event list \<Rightarrow> 'm Session \<Rightarrow> conn list list \<times> 'm Session" where
  "frame_run r [] s = ([], s)"
| "frame_run r (e # es) s =
    (let frame = e = TakeTick \<and> s_frameLoop s \<and> s_tickPending s;
         (called, s1) = frame_step r e s;
         (rest, s2) = frame_run r es s1
     in (if frame then called # rest else rest, s2))"

section \<open>The entity table\<close>

text \<open>\<open>DropEntity\<close> is \<open>RemoveEntity\<close> by key, the shape of the table contract.\<close>

definition DropEntity :: "u32 \<Rightarrow> 'm Session \<Rightarrow> 'm Session" where
  "DropEntity i s = s\<lparr>s_entities := (s_entities s)(i := None)\<rparr>"

lemma RemoveEntity_Drop: "RemoveEntity e = DropEntity (e_ID e)"
  by (simp add: fun_eq_iff RemoveEntity_def DropEntity_def)

interpretation ents: keyed_table "\<lambda>s i. EntityByID i s" AddEntity e_ID DropEntity
  by unfold_locales (simp_all add: EntityByID_def AddEntity_def DropEntity_def)

section \<open>Who receives a broadcast\<close>

lemma enqueue_apply: "enqueue c m out c' = (if c' = c then out c @ [m] else out c')"
  by (simp add: enqueue_def)

lemma length_filter_map_filter:
  assumes "distinct xs"
  shows "length (filter Q (List.map_filter f xs)) =
    card {x \<in> set xs. \<exists>y. f x = Some y \<and> Q y}"
  using assms
proof (induction xs)
  case Nil
  then show ?case by (simp add: List.map_filter_simps)
next
  case (Cons x xs)
  let ?S = "\<lambda>xs. {x \<in> set xs. \<exists>y. f x = Some y \<and> Q y}"
  show ?case
  proof (cases "\<exists>y. f x = Some y \<and> Q y")
    case True
    then have "?S (x # xs) = insert x (?S xs)" by auto
    with True Cons show ?thesis by (auto simp: List.map_filter_simps)
  next
    case False
    then have "?S (x # xs) = ?S xs" by auto
    with False Cons show ?thesis by (auto simp: List.map_filter_simps split: option.splits)
  qed
qed

lemma fold_enqueue:
  "fold (\<lambda>p out. if p = sender then out else enqueue (R p) m out) ps out c =
    out c @ replicate (length (filter (\<lambda>p. p \<noteq> sender \<and> R p = c) ps)) m"
proof (induction ps arbitrary: out)
  case Nil
  then show ?case by simp
next
  case (Cons p ps)
  show ?case
    by (simp add: Cons.IH enqueue_apply replicate_app_Cons_same)
qed

text \<open>The participants, other than the sender, whose responder is the connection \<open>c\<close>.\<close>

definition listeners ::
  "(pptr \<Rightarrow> Participant) \<Rightarrow> 'm Session \<Rightarrow> pptr \<Rightarrow> conn \<Rightarrow> u32 set" where
  "listeners H s sender c =
    {i. \<exists>p. s_participants s i = Some p \<and> p \<noteq> sender \<and> p_Responder (H p) = c}"

lemma Broadcast_queue:
  assumes "range_ok r"
  shows "Broadcast encodes H r sender m s out c =
    out c @ (if encodes m then replicate (card (listeners H s sender c)) m else [])"
proof -
  let ?Q = "\<lambda>p. p \<noteq> sender \<and> p_Responder (H p) = c"
  have "{x \<in> set (r (dom (s_participants s))). \<exists>y. s_participants s x = Some y \<and> ?Q y} =
      listeners H s sender c"
    using assms by (auto simp: listeners_def)
  then have "length (filter ?Q (GetParticipants r s)) = card (listeners H s sender c)"
    using assms by (simp add: GetParticipants_def length_filter_map_filter)
  then show ?thesis
    by (simp add: Broadcast_def fold_enqueue)
qed

text \<open>The participants of a session carry their own ids.\<close>

definition ids_match :: "(pptr \<Rightarrow> Participant) \<Rightarrow> 'm Session \<Rightarrow> bool" where
  "ids_match H s \<longleftrightarrow> (\<forall>i p. s_participants s i = Some p \<longrightarrow> p_ID (H p) = i)"

lemma ids_matchD: "ids_match H s \<Longrightarrow> s_participants s i = Some p \<Longrightarrow> p_ID (H p) = i"
  by (simp add: ids_match_def)

lemma fold_once:
  assumes "ids_match H s"
  shows "snd (fold (\<lambda>p (handled, out).
      if p = sender then (handled, out)
      else if p_ID (H p) \<in> handled then (handled, out)
      else (insert (p_ID (H p)) handled, enqueue (p_Responder (H p)) m out))
    (GetParticipantsByIDs ids s) (handled, out)) c =
    out c @ replicate (card ({i \<in> set ids. i \<notin> handled} \<inter> listeners H s sender c)) m"
    (is "snd (fold ?f _ _) c = _")
proof (induction ids arbitrary: handled out)
  case Nil
  then show ?case by (simp add: GetParticipantsByIDs_def List.map_filter_simps)
next
  case (Cons i ids)
  let ?N = "\<lambda>ids handled. {i \<in> set ids. i \<notin> handled} \<inter> listeners H s sender c"
  show ?case
  proof (cases "s_participants s i")
    case None
    then have "?N (i # ids) handled = ?N ids handled" by (auto simp: listeners_def)
    with None Cons.IH show ?thesis
      by (simp add: GetParticipantsByIDs_def List.map_filter_simps)
  next
    case (Some p)
    with assms have i: "p_ID (H p) = i" by (rule ids_matchD)
    have G: "GetParticipantsByIDs (i # ids) s = p # GetParticipantsByIDs ids s"
      using Some by (simp add: GetParticipantsByIDs_def List.map_filter_simps)
    consider (skip) "p = sender \<or> i \<in> handled" | (send) "p \<noteq> sender" "i \<notin> handled" by blast
    then show ?thesis
    proof cases
      case skip
      then have "?N (i # ids) handled = ?N ids handled"
        using Some by (auto simp: listeners_def)
      with skip G i Cons.IH [of handled out] show ?thesis by auto
    next
      case send
      show ?thesis
      proof (cases "p_Responder (H p) = c")
        case True
        then have "?N (i # ids) handled = insert i (?N ids (insert i handled))"
          using send Some by (auto simp: listeners_def)
        moreover have "i \<notin> ?N ids (insert i handled)" by simp
        moreover have "enqueue c m out c = out c @ [m]" by (simp add: enqueue_def)
        ultimately show ?thesis
          using send True G i Cons.IH [of "insert i handled" "enqueue c m out"] by simp
      next
        case False
        then have "?N (i # ids) handled = ?N ids (insert i handled)"
          using Some by (auto simp: listeners_def)
        moreover have "enqueue (p_Responder (H p)) m out c = out c"
          using False by (simp add: enqueue_def)
        ultimately show ?thesis
          using send False G i
            Cons.IH [of "insert i handled" "enqueue (p_Responder (H p)) m out"]
          by simp
      qed
    qed
  qed
qed

lemma BroadcastTo_queue:
  assumes "ids_match H s"
  shows "BroadcastTo encodes H sender m ids s out c =
    out c @ (if encodes m then replicate (card (set ids \<inter> listeners H s sender c)) m else [])"
  using fold_once [OF assms, of sender m ids "{}" out c]
  by (simp add: BroadcastTo_def)

text \<open>With one participant per connection, at most one of them listens on a connection.\<close>

definition one_each :: "(pptr \<Rightarrow> Participant) \<Rightarrow> 'm Session \<Rightarrow> bool" where
  "one_each H s \<longleftrightarrow>
    (\<forall>i j p q. s_participants s i = Some p \<longrightarrow> s_participants s j = Some q \<longrightarrow>
      p_Responder (H p) = p_Responder (H q) \<longrightarrow> i = j)"

lemma card_listeners:
  assumes "one_each H s"
  shows "card (listeners H s sender c) = (if listeners H s sender c = {} then 0 else 1)"
proof (cases "listeners H s sender c = {}")
  case False
  then obtain i where i: "i \<in> listeners H s sender c" by blast
  then have "listeners H s sender c = {i}"
    using assms unfolding one_each_def listeners_def by blast
  then show ?thesis by simp
qed simp

section \<open>What broadcasts and frames do\<close>

text \<open>A broadcast appends the message to the queue of a connection exactly when it can be
  encoded and a participant other than the sender answers on that connection, and then once.\<close>

theorem broadcast_reaches_others:
  assumes "range_ok r" and "one_each H s"
  shows "Broadcast encodes H r sender m s out c =
    (if encodes m \<and> (\<exists>i p. s_participants s i = Some p \<and> p \<noteq> sender \<and> p_Responder (H p) = c)
     then out c @ [m] else out c)"
proof -
  have "listeners H s sender c = {} \<longleftrightarrow>
    \<not> (\<exists>i p. s_participants s i = Some p \<and> p \<noteq> sender \<and> p_Responder (H p) = c)"
    by (auto simp: listeners_def)
  then show ?thesis
    using Broadcast_queue [OF assms(1), of encodes H sender m s out c]
      card_listeners [OF assms(2), of sender c] by (auto simp: numeral_eq_Suc)
qed

text \<open>A targeted message reaches a listed participant exactly once, even when its id is
  listed several times, never its sender, and nobody who is not listed.\<close>

theorem broadcast_to_reaches_listed_once:
  assumes "ids_match H s" and "one_each H s"
  shows "BroadcastTo encodes H sender m ids s out c =
    (if encodes m \<and> (\<exists>i \<in> set ids. \<exists>p. s_participants s i = Some p \<and> p \<noteq> sender \<and>
        p_Responder (H p) = c)
     then out c @ [m] else out c)"
proof -
  let ?L = "set ids \<inter> listeners H s sender c"
  have e: "?L = {} \<longleftrightarrow> \<not> (\<exists>i \<in> set ids. \<exists>p. s_participants s i = Some p \<and> p \<noteq> sender \<and>
        p_Responder (H p) = c)"
    by (auto simp: listeners_def)
  have "i = j" if "i \<in> ?L" "j \<in> ?L" for i j
    using that assms(2) unfolding listeners_def one_each_def by blast
  then have "?L = {} \<or> (\<exists>i. ?L = {i})" by blast
  then have "card ?L = (if ?L = {} then 0 else 1)" by auto
  then show ?thesis
    using BroadcastTo_queue [OF assms(1), of encodes sender m ids out c] e
    by (auto simp: numeral_eq_Suc)
qed

definition two_members :: "unit Session" where
  "two_members = (NewSession 1 ''uuid'')\<lparr>s_participants := [1 \<mapsto> 0, 2 \<mapsto> 1]\<rparr>"

definition two_heap :: "pptr \<Rightarrow> Participant" where
  "two_heap p = \<lparr>p_ID = (if p = 0 then 1 else 2), p_Responder = p, p_entityIDs = {}\<rparr>"

lemma two_ok: "one_each two_heap two_members" "ids_match two_heap two_members"
  by (auto simp: one_each_def ids_match_def two_members_def two_heap_def split: if_splits)

lemma broadcast_reaches_others_witness:
  "Broadcast (\<lambda>_. True) two_heap sorted_list_of_set 0 SyncClock two_members (\<lambda>_. []) 1 = [SyncClock] \<and>
    Broadcast (\<lambda>_. True) two_heap sorted_list_of_set 0 SyncClock two_members (\<lambda>_. []) 0 = []"
proof -
  have "s_participants two_members 2 = Some 1 \<and> p_Responder (two_heap 1) = 1"
    by (simp add: two_members_def two_heap_def)
  then have "\<exists>i p. s_participants two_members i = Some p \<and> p \<noteq> 0 \<and> p_Responder (two_heap p) = 1"
    by (metis zero_neq_one)
  moreover have "\<not> (\<exists>i p. s_participants two_members i = Some p \<and> p \<noteq> 0 \<and> p_Responder (two_heap p) = 0)"
    by (auto simp: two_heap_def)
  ultimately show ?thesis
    using broadcast_reaches_others [OF range_ok_sorted two_ok(1), of "\<lambda>_. True" 0 SyncClock "\<lambda>_. []"]
    by simp
qed

lemma broadcast_to_reaches_listed_once_witness:
  "BroadcastTo (\<lambda>_. True) two_heap 0 SyncClock [2, 2, 1, 9] two_members (\<lambda>_. []) 1 = [SyncClock]"
  using broadcast_to_reaches_listed_once [OF two_ok(2,1), of "\<lambda>_. True" 0 SyncClock "[2, 2, 1, 9]" "\<lambda>_. []" 1]
  by (auto simp: two_members_def two_heap_def)

text \<open>Once the ticker is stopped no further tick arrives.\<close>

lemma frames_after_stop:
  assumes "s_tickerStopped s"
  shows "length (fst (frame_run r es s)) \<le> (if s_tickPending s then 1 else 0)"
  using assms
proof (induction es arbitrary: s)
  case Nil
  then show ?case by simp
next
  case (Cons e es)
  have "s_tickerStopped (snd (frame_step r e s))"
    using Cons.prems by (cases e) simp_all
  from Cons.IH [OF this] Cons.prems show ?case
    by (cases e) (auto simp: Let_def case_prod_beta split: if_splits)
qed

lemma frames_without_loop: "\<not> s_frameLoop s \<Longrightarrow> fst (frame_run r es s) = []"
proof (induction es arbitrary: s)
  case Nil
  then show ?case by simp
next
  case (Cons e es)
  then have "\<not> s_frameLoop (snd (frame_step r e s))" by (cases e) simp_all
  from Cons.IH [OF this] Cons.prems show ?case by (simp add: Let_def case_prod_beta)
qed

text \<open>After a session is closed its frame loop dispatches at most one more frame, the one
  whose tick was pending, in any order of ticks and turns; the close signal is there for the
  loop to take, however often \<^verbatim>\<open>Close\<close> is called, and once the loop takes it no
  frame is dispatched ever after.\<close>

theorem frame_loop_ends_after_close:
  assumes "s_frameLoop s" and "\<not> s_closeOnce s"
  shows "length (fst (frame_run r es (Close s))) \<le> 1 \<and>
    s_closeFrameChan (Close (Close s)) = Suc (s_closeFrameChan s) \<and>
    \<not> s_frameLoop (snd (frame_step r TakeClose (Close s))) \<and>
    fst (frame_run r es (snd (frame_step r TakeClose (Close s)))) = []"
proof -
  have "length (fst (frame_run r es (Close s))) \<le> 1"
    using frames_after_stop [of "Close s" r es] assms(2) by (simp add: Close_def split: if_splits)
  moreover have "\<not> s_frameLoop (snd (frame_step r TakeClose (Close s)))"
    using assms by (simp add: Close_def)
  ultimately show ?thesis
    using frames_without_loop [of "snd (frame_step r TakeClose (Close s))"] assms
    by (simp add: Close_def)
qed

lemma frame_loop_ends_after_close_witness:
  "fst (frame_run sorted_list_of_set [TickerFires, TakeTick, TakeTick]
    (snd (frame_step sorted_list_of_set TakeClose (Close (StartDispatchFrames two_members))))) = []"
  using frame_loop_ends_after_close [of "StartDispatchFrames two_members" sorted_list_of_set
      "[TickerFires, TakeTick, TakeTick]"]
  by (simp add: StartDispatchFrames_def two_members_def NewSession_def)

end
