(* ===== verification/Session_Inv.thy ===== *)
theory Session_Inv
imports Session
begin

text \<open>
  The invariant of one session, \<open>sess_ok n H s\<close>, where \<open>H\<close> is the heap of
  participants and \<open>n\<close> bounds the ids made so far: the generators cover the ids in
  use; the component store is well formed over the entities and participants of the
  session; participants and entities carry the id they are filed under; an entity persists
  or its owner is still there; and a participant's set of entity ids is exactly the set of
  the entities it owns. The owners of persisted entities count as ids in use, so no later
  participant inherits an entity. Every operation keeps the invariant.
\<close>

section \<open>The invariant\<close>

definition known_pids :: "'m Session \<Rightarrow> u32 set" where
  "known_pids s = dom (s_participants s) \<union> e_ParticipantID ` ran (s_entities s)"

definition owned_by :: "'m Session \<Rightarrow> u32 \<Rightarrow> u32 set" where
  "owned_by s pid = {i. \<exists>e. s_entities s i = Some e \<and> e_ParticipantID e = pid}"

definition sess_ok :: "nat \<Rightarrow> (pptr \<Rightarrow> Participant) \<Rightarrow> 'm Session \<Rightarrow> bool" where
  "sess_ok n H s \<longleftrightarrow>
    covers n (s_participantIDs s) (known_pids s) \<and>
    covers n (s_entityIDs s) (dom (s_entities s)) \<and>
    covers n (s_frameHandlerIDs s) (dom (s_frameHandlers s)) \<and>
    ecs_ok n (dom (s_entities s)) (dom (s_participants s)) (s_entityComponents s) \<and>
    ids_match H s \<and>
    (\<forall>i e. s_entities s i = Some e \<longrightarrow>
      e_ID e = i \<and> (e_Persist e \<or> e_ParticipantID e \<in> dom (s_participants s))) \<and>
    (\<forall>pid p. s_participants s pid = Some p \<longrightarrow> p_entityIDs (H p) = owned_by s pid)"

lemma sess_okD:
  assumes "sess_ok n H s"
  shows "covers n (s_participantIDs s) (known_pids s)"
    and "covers n (s_entityIDs s) (dom (s_entities s))"
    and "covers n (s_frameHandlerIDs s) (dom (s_frameHandlers s))"
    and "ecs_ok n (dom (s_entities s)) (dom (s_participants s)) (s_entityComponents s)"
    and "ids_match H s"
    and "s_entities s i = Some e \<Longrightarrow>
      e_ID e = i \<and> (e_Persist e \<or> e_ParticipantID e \<in> dom (s_participants s))"
    and "s_participants s pid = Some p \<Longrightarrow> p_entityIDs (H p) = owned_by s pid"
  using assms unfolding sess_ok_def by blast+

lemma sess_okI:
  assumes "covers n (s_participantIDs s) (known_pids s)"
    and "covers n (s_entityIDs s) (dom (s_entities s))"
    and "covers n (s_frameHandlerIDs s) (dom (s_frameHandlers s))"
    and "ecs_ok n (dom (s_entities s)) (dom (s_participants s)) (s_entityComponents s)"
    and "ids_match H s"
    and "\<And>i e. s_entities s i = Some e \<Longrightarrow>
      e_ID e = i \<and> (e_Persist e \<or> e_ParticipantID e \<in> dom (s_participants s))"
    and "\<And>pid p. s_participants s pid = Some p \<Longrightarrow> p_entityIDs (H p) = owned_by s pid"
  shows "sess_ok n H s"
  using assms unfolding sess_ok_def by blast

text \<open>The invariant reads eight fields only.\<close>

lemma sess_ok_cong:
  assumes "s_participantIDs s' = s_participantIDs s" "s_participants s' = s_participants s"
    and "s_entityIDs s' = s_entityIDs s" "s_entities s' = s_entities s"
    and "s_frameHandlerIDs s' = s_frameHandlerIDs s" "s_frameHandlers s' = s_frameHandlers s"
    and "s_entityComponents s' = s_entityComponents s"
  shows "sess_ok n H s' \<longleftrightarrow> sess_ok n H s"
  using assms by (simp add: sess_ok_def known_pids_def owned_by_def ids_match_def)

lemma sess_ok_fields [simp]:
  "sess_ok n H (s\<lparr>s_AppKey := k\<rparr>) \<longleftrightarrow> sess_ok n H s"
  "sess_ok n H (SetModuleState name st s) \<longleftrightarrow> sess_ok n H s"
  "sess_ok n H (StartDispatchFrames s) \<longleftrightarrow> sess_ok n H s"
  "sess_ok n H (Close s) \<longleftrightarrow> sess_ok n H s"
  by (rule sess_ok_cong; simp add: SetModuleState_def StartDispatchFrames_def Close_def)+

lemma sess_ok_heap:
  assumes "sess_ok n H s" and "\<And>pid p. s_participants s pid = Some p \<Longrightarrow> H' p = H p"
  shows "sess_ok n H' s"
  using assms by (auto simp: sess_ok_def ids_match_def)

lemma sess_ok_mono:
  assumes "sess_ok n H s" and "n \<le> m"
  shows "sess_ok m H s"
  using sess_okD [OF assms(1)] assms(2)
  by (intro sess_okI) (blast intro: covers_mono ecs_ok_mono)+

lemma sess_ok_new: "sess_ok n H (NewSession i uuid)"
  by (auto simp: sess_ok_def NewSession_def known_pids_def ids_match_def ecs_ok_new
      covers_def newGenerator_def)

section \<open>Joining\<close>

lemma sess_ok_join:
  assumes r: "range_ok r" and n: "n < id_limit" and ok: "sess_ok n H s"
    and N: "NewParticipantID r s = (pid, s1)"
    and p: "p_ID (H p) = pid" "p_entityIDs (H p) = {}"
    and F: "HandleFrame r c (AddParticipant H p s1) = (fid, s2)"
  shows "s_participants s pid = None" and "s_frameHandlers s fid = None"
    and "sess_ok (Suc n) H s2"
    and "s_participants s2 = (s_participants s)(pid \<mapsto> p)"
    and "s_frameHandlers s2 = (s_frameHandlers s)(fid \<mapsto> c)"
    and "s_entities s2 = s_entities s"
proof -
  obtain g where g: "New r (s_participantIDs s) = (pid, g)" and s1: "s1 = s\<lparr>s_participantIDs := g\<rparr>"
    using N by (auto simp: NewParticipantID_def split: prod.splits)
  obtain f where f: "New r (s_frameHandlerIDs s) = (fid, f)"
    and s2: "s2 = s1\<lparr>s_participants := (s_participants s)(pid \<mapsto> p), s_frameHandlerIDs := f,
        s_frameHandlers := (s_frameHandlers s)(fid \<mapsto> c)\<rparr>"
    using F p(1) by (auto simp: HandleFrame_def AddParticipant_def s1 split: prod.splits)
  note okD = sess_okD [OF ok]
  have P: "pid \<notin> known_pids s" "covers (Suc n) g (insert pid (known_pids s))"
    using covers_alloc [OF r okD(1) n g] by auto
  then show fresh: "s_participants s pid = None" by (auto simp: known_pids_def)
  note T = gen.table_alloc(1) [OF r okD(3) n f] gen.table_alloc(2) [OF r okD(3) n f, of c]
  from T(1) show "s_frameHandlers s fid = None" .
  show S: "s_participants s2 = (s_participants s)(pid \<mapsto> p)"
    "s_frameHandlers s2 = (s_frameHandlers s)(fid \<mapsto> c)" "s_entities s2 = s_entities s"
    by (simp_all add: s1 s2)
  show "sess_ok (Suc n) H s2"
  proof (rule sess_okI)
    have "known_pids s2 = insert pid (known_pids s)"
      by (simp add: known_pids_def S)
    with P show "covers (Suc n) (s_participantIDs s2) (known_pids s2)"
      by (simp add: s1 s2)
    show "covers (Suc n) (s_entityIDs s2) (dom (s_entities s2))"
      using covers_mono [OF okD(2) subset_refl, of "Suc n"] by (simp add: s1 s2)
    show "covers (Suc n) (s_frameHandlerIDs s2) (dom (s_frameHandlers s2))"
      using T(2) by (simp add: s1 s2)
    show "ecs_ok (Suc n) (dom (s_entities s2)) (dom (s_participants s2)) (s_entityComponents s2)"
      using ecs_ok_mono [OF okD(4), of "Suc n" "dom (s_entities s2)" "dom (s_participants s2)"]
      by (auto simp: s1 s2)
    show "ids_match H s2"
      using okD(5) p(1) by (simp add: ids_match_def S)
    show "e_ID e = i \<and> (e_Persist e \<or> e_ParticipantID e \<in> dom (s_participants s2))"
      if "s_entities s2 i = Some e" for i e
      using okD(6) that by (auto simp: S)
    have "owned_by s pid = {}"
      using P(1) by (auto simp: owned_by_def known_pids_def ran_def)
    then show "p_entityIDs (H q) = owned_by s2 q'" if "s_participants s2 q' = Some q" for q' q
      using that p(2) okD(7) by (auto simp: S owned_by_def split: if_splits)
  qed
qed

section \<open>Entities\<close>

lemma sess_ok_AddEntity:
  assumes r: "range_ok r" and n: "n < id_limit" and ok: "sess_ok n H s"
    and p: "s_participants s pid = Some p"
    and N: "NewEntityID r s = (i, s1)"
    and e: "e_ID e = i" "e_ParticipantID e = pid"
  shows "s_entities s i = None"
    and "sess_ok (Suc n) (H(p := Participant_AddEntity e (H p))) (AddEntity e s1)"
proof -
  obtain g where g: "New r (s_entityIDs s) = (i, g)" and s1: "s1 = s\<lparr>s_entityIDs := g\<rparr>"
    using N by (auto simp: NewEntityID_def split: prod.splits)
  note okD = sess_okD [OF ok]
  note T = gen.table_alloc(1) [OF r okD(2) n g] gen.table_alloc(2) [OF r okD(2) n g, of e]
  from T(1) show fresh: "s_entities s i = None" .
  let ?s = "AddEntity e s1" and ?H = "H(p := Participant_AddEntity e (H p))"
  have S: "s_entities ?s = (s_entities s)(i \<mapsto> e)" "s_participants ?s = s_participants s"
    using e by (simp_all add: AddEntity_def s1)
  have own: "owned_by ?s q = (if q = pid then insert i (owned_by s q) else owned_by s q)" for q
    using e fresh by (auto simp: owned_by_def S)
  show "sess_ok (Suc n) ?H ?s"
  proof (rule sess_okI)
    have "known_pids ?s = known_pids s"
      using p e fresh by (auto simp: known_pids_def S)
    then show "covers (Suc n) (s_participantIDs ?s) (known_pids ?s)"
      using covers_mono [OF okD(1) subset_refl, of "Suc n"] by (simp add: AddEntity_def s1)
    show "covers (Suc n) (s_entityIDs ?s) (dom (s_entities ?s))"
      using T(2) e by (simp add: AddEntity_def s1)
    show "covers (Suc n) (s_frameHandlerIDs ?s) (dom (s_frameHandlers ?s))"
      using covers_mono [OF okD(3) subset_refl, of "Suc n"] by (simp add: AddEntity_def s1)
    show "ecs_ok (Suc n) (dom (s_entities ?s)) (dom (s_participants ?s)) (s_entityComponents ?s)"
      using ecs_ok_mono [OF okD(4), of "Suc n" "dom (s_entities ?s)" "dom (s_participants ?s)"]
      by (auto simp: AddEntity_def s1)
    show "ids_match ?H ?s"
      using okD(5) by (simp add: ids_match_def S)
    show "e_ID e' = j \<and> (e_Persist e' \<or> e_ParticipantID e' \<in> dom (s_participants ?s))"
      if "s_entities ?s j = Some e'" for j e'
      using okD(6) that e p by (auto simp: S split: if_splits)
    show "p_entityIDs (?H q) = owned_by ?s q'" if q: "s_participants ?s q' = Some q" for q' q
    proof (cases "q' = pid")
      case True
      with q p okD(7) [OF p] e show ?thesis
        by (simp add: S own Participant_AddEntity_def)
    next
      case False
      with q p ids_matchD [OF okD(5), of q' q] ids_matchD [OF okD(5) p] have "q \<noteq> p"
        by (auto simp: S)
      with False q okD(7) show ?thesis by (simp add: S own)
    qed
  qed
qed

lemma sess_ok_DeleteEntity:
  assumes ok: "sess_ok n H s" and p: "s_participants s pid = Some p"
    and E: "s_entities s i = Some e" and e: "e_ParticipantID e = pid"
  shows "sess_ok n (H(p := Participant_RemoveEntity e (H p)))
    (RemoveEntity e (s\<lparr>s_entityComponents := DeleteByEntityID (e_ID e) (s_entityComponents s)\<rparr>))"
    (is "sess_ok n ?H ?s")
proof -
  note okD = sess_okD [OF ok]
  have i: "e_ID e = i" using okD(6) [OF E] by simp
  have S: "s_entities ?s = (s_entities s)(i := None)" "s_participants ?s = s_participants s"
    "s_entityComponents ?s = DeleteByEntityID i (s_entityComponents s)"
    by (simp_all add: RemoveEntity_def i)
  have own: "owned_by ?s q = owned_by s q - {i}" for q
    by (auto simp: owned_by_def S)
  show ?thesis
  proof (rule sess_okI)
    have "known_pids ?s \<subseteq> known_pids s" by (auto simp: known_pids_def S ran_def)
    then show "covers n (s_participantIDs ?s) (known_pids ?s)"
      using covers_mono [OF okD(1)] by (simp add: RemoveEntity_def)
    show "covers n (s_entityIDs ?s) (dom (s_entities ?s))"
      using gen.table_drop [OF okD(2)] by (simp add: RemoveEntity_def)
    show "covers n (s_frameHandlerIDs ?s) (dom (s_frameHandlers ?s))"
      using okD(3) by (simp add: RemoveEntity_def)
    show "ecs_ok n (dom (s_entities ?s)) (dom (s_participants ?s)) (s_entityComponents ?s)"
      using ecs_ok_DeleteByEntityID [OF okD(4)] by (simp add: S)
    show "ids_match ?H ?s" using okD(5) by (simp add: ids_match_def S)
    show "e_ID e' = j \<and> (e_Persist e' \<or> e_ParticipantID e' \<in> dom (s_participants ?s))"
      if "s_entities ?s j = Some e'" for j e'
      using okD(6) that by (auto simp: S split: if_splits)
    show "p_entityIDs (?H q) = owned_by ?s q'" if q: "s_participants ?s q' = Some q" for q' q
    proof (cases "q' = pid")
      case True
      with q p have "q = p" by (simp add: S)
      with True okD(7) [OF p] show ?thesis
        by (simp add: own Participant_RemoveEntity_def) (simp add: i)
    next
      case False
      with q p ids_matchD [OF okD(5), of q' q] ids_matchD [OF okD(5) p] have "q \<noteq> p"
        by (auto simp: S)
      moreover have "i \<notin> owned_by s q'" using E e False by (auto simp: owned_by_def)
      ultimately show ?thesis using q okD(7) [of q' q] by (simp add: S own)
    qed
  qed
qed

lemma sess_ok_UpdatePose:
  assumes ok: "sess_ok n H s"
  shows "sess_ok n H (UpdateEntity i (SetPose v) s)"
proof -
  note okD = sess_okD [OF ok]
  let ?s = "UpdateEntity i (SetPose v) s"
  have S: "s_entities ?s j = Some e \<longleftrightarrow>
      (\<exists>e0. s_entities s j = Some e0 \<and> e = (if j = i then SetPose v e0 else e0))" for j e
    by (auto simp: UpdateEntity_def)
  have D: "dom (s_entities ?s) = dom (s_entities s)" by (auto simp: UpdateEntity_def)
  have own: "owned_by ?s q = owned_by s q" for q
    by (auto simp: owned_by_def UpdateEntity_def)
  have R: "e_ParticipantID ` ran (s_entities ?s) = e_ParticipantID ` ran (s_entities s)"
    by (auto simp: ran_def S image_iff split: if_splits) (metis SetPose_frame(2))+
  show ?thesis
  proof (rule sess_okI)
    show "p_entityIDs (H p) = owned_by ?s pid" if "s_participants ?s pid = Some p" for pid p
      using that okD(7) by (simp add: own) (simp add: UpdateEntity_def)
    show "e_ID e = j \<and> (e_Persist e \<or> e_ParticipantID e \<in> dom (s_participants ?s))"
      if e: "s_entities ?s j = Some e" for j e
    proof -
      obtain e0 where "s_entities s j = Some e0" "e = (if j = i then SetPose v e0 else e0)"
        using e unfolding S by blast
      with okD(6) [of j e0] show ?thesis by (simp add: UpdateEntity_def)
    qed
  qed (use okD in \<open>simp_all add: D R known_pids_def\<close>,
      use okD in \<open>simp_all add: UpdateEntity_def known_pids_def ids_match_def\<close>)
qed

section \<open>Components\<close>

lemma sess_ok_ecs:
  assumes "sess_ok n H s" and "n \<le> m"
    and "ecs_ok m (dom (s_entities s)) (dom (s_participants s)) x"
  shows "sess_ok m H (s\<lparr>s_entityComponents := x\<rparr>)"
  using sess_okD [OF sess_ok_mono [OF assms(1,2)]] assms(3)
  by (auto simp: sess_ok_def known_pids_def owned_by_def ids_match_def)

section \<open>Leaving\<close>

text \<open>The body of the loop over the entities of a leaving participant.\<close>

definition DropOwned :: "u32 \<Rightarrow> 'm Session \<Rightarrow> 'm Session" where
  "DropOwned i s =
    (case EntityByID i s of
       None \<Rightarrow> s
     | Some e \<Rightarrow>
         if e_Persist e then s
         else RemoveEntity e
           (s\<lparr>s_entityComponents := DeleteByEntityID (e_ID e) (s_entityComponents s)\<rparr>))"

text \<open>What one turn and the whole loop do: entities and components shrink, in step.\<close>

lemma DropOwned_frame [simp]:
  "s_participants (DropOwned i s) = s_participants s"
  "s_participantIDs (DropOwned i s) = s_participantIDs s"
  "s_entityIDs (DropOwned i s) = s_entityIDs s"
  "s_frameHandlers (DropOwned i s) = s_frameHandlers s"
  "s_frameHandlerIDs (DropOwned i s) = s_frameHandlerIDs s"
  "s_moduleStates (DropOwned i s) = s_moduleStates s"
  "s_ID (DropOwned i s) = s_ID s"
  "s_AppKey (DropOwned i s) = s_AppKey s"
  "s_closeOnce (DropOwned i s) = s_closeOnce s"
  by (simp_all add: DropOwned_def RemoveEntity_def split: option.splits)

lemmas DropOwned_loop_frame [simp] =
  fold_frame [of s_participants DropOwned, OF DropOwned_frame(1)]
  fold_frame [of s_participantIDs DropOwned, OF DropOwned_frame(2)]
  fold_frame [of s_entityIDs DropOwned, OF DropOwned_frame(3)]
  fold_frame [of s_frameHandlers DropOwned, OF DropOwned_frame(4)]
  fold_frame [of s_frameHandlerIDs DropOwned, OF DropOwned_frame(5)]
  fold_frame [of s_moduleStates DropOwned, OF DropOwned_frame(6)]
  fold_frame [of s_ID DropOwned, OF DropOwned_frame(7)]
  fold_frame [of s_AppKey DropOwned, OF DropOwned_frame(8)]
  fold_frame [of s_closeOnce DropOwned, OF DropOwned_frame(9)]

definition keys_ok :: "'m Session \<Rightarrow> bool" where
  "keys_ok s \<longleftrightarrow> (\<forall>i e. s_entities s i = Some e \<longrightarrow> e_ID e = i)"

lemma keys_okD: "keys_ok s \<Longrightarrow> s_entities s i = Some e \<Longrightarrow> e_ID e = i"
  by (simp add: keys_ok_def)

lemma sess_ok_keys: "sess_ok n H s \<Longrightarrow> keys_ok s"
  using sess_okD(6) by (fastforce simp: keys_ok_def)

lemma DropOwned_entities:
  assumes "keys_ok s"
  shows "s_entities (DropOwned i s) j =
    (if j = i \<and> (\<exists>e. s_entities s i = Some e \<and> \<not> e_Persist e) then None else s_entities s j)"
  using keys_okD [OF assms]
  by (auto simp: DropOwned_def EntityByID_def RemoveEntity_def split: option.splits)

lemma DropOwned_keys: "keys_ok s \<Longrightarrow> keys_ok (DropOwned i s)"
  unfolding keys_ok_def [of "DropOwned i s"]
  by (auto simp: DropOwned_entities dest: keys_okD split: if_splits)

lemma DropOwned_ecs:
  assumes "keys_ok s" and "ecs_ok n (dom (s_entities s)) P (s_entityComponents s)"
  shows "ecs_ok n (dom (s_entities (DropOwned i s))) P (s_entityComponents (DropOwned i s))"
proof (cases "\<exists>e. s_entities s i = Some e \<and> \<not> e_Persist e")
  case True
  then obtain e where e: "s_entities s i = Some e" "\<not> e_Persist e" by blast
  with assms(1) have i: "e_ID e = i" by (blast dest: keys_okD)
  have "dom (s_entities (DropOwned i s)) = dom (s_entities s) - {i}"
    using e i by (auto simp: DropOwned_def EntityByID_def RemoveEntity_def)
  moreover have "s_entityComponents (DropOwned i s) = DeleteByEntityID i (s_entityComponents s)"
    using e i by (simp add: DropOwned_def EntityByID_def RemoveEntity_def)
  ultimately show ?thesis
    using ecs_ok_DeleteByEntityID [OF assms(2)] by simp
next
  case False
  then have "DropOwned i s = s"
    by (auto simp: DropOwned_def EntityByID_def split: option.splits)
  with assms(2) show ?thesis by simp
qed

lemma DropOwned_loop_entities:
  assumes "keys_ok s"
  shows "s_entities (fold DropOwned is s) j =
      (if j \<in> set is \<and> (\<exists>e. s_entities s j = Some e \<and> \<not> e_Persist e) then None
       else s_entities s j)"
  using assms
  by (induction "is" arbitrary: s) (auto simp: DropOwned_entities DropOwned_keys)

lemma DropOwned_loop_ecs:
  assumes "keys_ok s" and "ecs_ok n (dom (s_entities s)) P (s_entityComponents s)"
  shows "ecs_ok n (dom (s_entities (fold DropOwned is s))) P
      (s_entityComponents (fold DropOwned is s))"
  using assms by (induction "is" arbitrary: s) (auto simp: DropOwned_ecs DropOwned_keys)

text \<open>
  The session after a participant left: its subscriptions, its entities that do not persist,
  its frame handler and itself are gone.
\<close>

definition Leave ::
  "(pptr \<Rightarrow> Participant) \<Rightarrow> u32 list \<Rightarrow> pptr \<Rightarrow> u32 \<Rightarrow> 'm Session \<Rightarrow> 'm Session" where
  "Leave H is p fid s =
    RemoveParticipant H p (CancelFrame fid (fold DropOwned is
      (s\<lparr>s_entityComponents := UnsubscribeByParticipant (p_ID (H p)) (s_entityComponents s)\<rparr>)))"

lemma Leave_entities:
  assumes "sess_ok n H s"
  shows "s_entities (Leave H is p fid s) j =
    (if j \<in> set is \<and> (\<exists>e. s_entities s j = Some e \<and> \<not> e_Persist e) then None
     else s_entities s j)"
proof -
  let ?s = "s\<lparr>s_entityComponents := UnsubscribeByParticipant (p_ID (H p)) (s_entityComponents s)\<rparr>"
  have "keys_ok ?s"
    using sess_ok_keys [OF assms] by (simp add: keys_ok_def)
  then show ?thesis
    using DropOwned_loop_entities [of ?s "is" j]
    by (simp add: Leave_def RemoveParticipant_def CancelFrame_def cong: if_cong)
qed

lemma Leave_frame [simp]:
  "s_participants (Leave H is p fid s) = (s_participants s)(p_ID (H p) := None)"
  "s_frameHandlers (Leave H is p fid s) = (s_frameHandlers s)(fid := None)"
  "s_moduleStates (Leave H is p fid s) = s_moduleStates s"
  "s_ID (Leave H is p fid s) = s_ID s"
  "s_AppKey (Leave H is p fid s) = s_AppKey s"
  "s_closeOnce (Leave H is p fid s) = s_closeOnce s"
  by (simp_all add: Leave_def RemoveParticipant_def CancelFrame_def)

lemma sess_ok_Leave:
  assumes ok: "sess_ok n H s" and p: "s_participants s pid = Some p"
    and f: "s_frameHandlers s fid = Some c" and "is": "set is = p_entityIDs (H p)"
  shows "sess_ok n H (Leave H is p fid s)"
proof -
  note okD = sess_okD [OF ok]
  let ?s = "Leave H is p fid s"
  have pid: "p_ID (H p) = pid" using okD(5) p by (rule ids_matchD)
  have E: "s_entities ?s j = (if j \<in> owned_by s pid \<and>
      (\<exists>e. s_entities s j = Some e \<and> \<not> e_Persist e) then None else s_entities s j)" for j
    using Leave_entities [OF ok] "is" okD(7) [OF p] by simp
  have sub: "s_entities ?s j = Some e \<Longrightarrow> s_entities s j = Some e" for j e
    by (simp add: E split: if_splits)
  have own: "owned_by ?s q = owned_by s q" if "q \<noteq> pid" for q
    using that by (auto simp: owned_by_def E split: if_splits)
  show ?thesis
  proof (rule sess_okI)
    have "known_pids ?s \<subseteq> known_pids s"
      using sub by (fastforce simp: known_pids_def ran_def)
    then show "covers n (s_participantIDs ?s) (known_pids ?s)"
      using covers_mono [OF okD(1)] by (simp add: Leave_def RemoveParticipant_def CancelFrame_def)
    have "dom (s_entities ?s) \<subseteq> dom (s_entities s)" using sub by auto
    then show "covers n (s_entityIDs ?s) (dom (s_entities ?s))"
      using covers_mono [OF okD(2)] by (simp add: Leave_def RemoveParticipant_def CancelFrame_def)
    show "covers n (s_frameHandlerIDs ?s) (dom (s_frameHandlers ?s))"
      using gen.table_free [OF okD(3) f]
      by (simp add: Leave_def RemoveParticipant_def CancelFrame_def)
    let ?u = "s\<lparr>s_entityComponents := UnsubscribeByParticipant (p_ID (H p)) (s_entityComponents s)\<rparr>"
    have "keys_ok ?u" using sess_ok_keys [OF ok] by (simp add: keys_ok_def)
    moreover have "ecs_ok n (dom (s_entities ?u)) (dom (s_participants s) - {pid})
        (s_entityComponents ?u)"
      using ecs_ok_UnsubscribeByParticipant [OF okD(4)] by (simp add: pid)
    ultimately have "ecs_ok n (dom (s_entities (fold DropOwned is ?u))) (dom (s_participants s) - {pid})
        (s_entityComponents (fold DropOwned is ?u))"
      by (rule DropOwned_loop_ecs)
    moreover have "s_entities ?s = s_entities (fold DropOwned is ?u)"
      "s_entityComponents ?s = s_entityComponents (fold DropOwned is ?u)"
      "dom (s_participants ?s) = dom (s_participants s) - {pid}"
      by (simp_all add: Leave_def RemoveParticipant_def CancelFrame_def pid)
    ultimately show "ecs_ok n (dom (s_entities ?s)) (dom (s_participants ?s)) (s_entityComponents ?s)"
      by (simp only:)
    show "ids_match H ?s" using okD(5) by (simp add: ids_match_def)
    show "e_ID e = j \<and> (e_Persist e \<or> e_ParticipantID e \<in> dom (s_participants ?s))"
      if e: "s_entities ?s j = Some e" for j e
    proof (cases "e_Persist e")
      case True
      with okD(6) [OF sub [OF e]] show ?thesis by simp
    next
      case False
      with e have "j \<notin> owned_by s pid" by (auto simp: E split: if_splits)
      with sub [OF e] have "e_ParticipantID e \<noteq> pid" by (auto simp: owned_by_def)
      with okD(6) [OF sub [OF e]] False show ?thesis by (simp add: pid)
    qed
    show "p_entityIDs (H q) = owned_by ?s q'" if "s_participants ?s q' = Some q" for q' q
      using that okD(7) [of q' q] own [of q'] by (auto simp: pid split: if_splits)
  qed
qed

end
