(* ===== verification/Session_Store.thy ===== *)
theory Session_Store
imports Session_Inv
begin

text \<open>
  \<^verbatim>\<open>models/session.go\<close>, the type \<^verbatim>\<open>SessionStore\<close>, with the session metrics of
  \<^verbatim>\<open>models/metrics.go\<close>: the sessions of the server under their global ids. The store
  holds addresses of sessions. The discovery service is outside the repository; the code
  uses its server id only, which is a constant of the model.

  Proved here: \<open>GlobalSessionID\<close> never confuses two sessions, not even of two servers
  (the hexadecimal part has no \<open>x\<close>), and what a lookup returns after \<^verbatim>\<open>Add\<close> and
  \<^verbatim>\<open>Remove\<close>.
\<close>

section \<open>Hexadecimal numbers, the verb \<open>%x\<close> of \<open>fmt.Sprintf\<close>\<close>

definition hex_digit :: "nat \<Rightarrow> char" where
  "hex_digit n = ''0123456789abcdef'' ! n"

fun hex :: "nat \<Rightarrow> string" where
  "hex n = (if n < 16 then [hex_digit n] else hex (n div 16) @ [hex_digit (n mod 16)])"

declare hex.simps [simp del]

text \<open>The value of a digit and of a numeral, to read them back.\<close>

definition hex_value :: "char \<Rightarrow> nat" where
  "hex_value c =
    (if CHR ''0'' \<le> c \<and> c \<le> CHR ''9'' then of_char c - 48 else of_char c - 87)"

definition unhex :: "string \<Rightarrow> nat" where
  "unhex s = foldl (\<lambda>a c. 16 * a + hex_value c) 0 s"

lemma hex_value_digit: "n < 16 \<Longrightarrow> hex_value (hex_digit n) = n"
proof -
  have "\<forall>n \<in> set [0..<16]. hex_value (hex_digit n) = n" by code_simp
  then show "n < 16 \<Longrightarrow> hex_value (hex_digit n) = n" by simp
qed

lemma hex_digit_no_x: "n < 16 \<Longrightarrow> hex_digit n \<noteq> CHR ''x''"
proof -
  have "\<forall>n \<in> set [0..<16]. hex_digit n \<noteq> CHR ''x''" by code_simp
  then show "n < 16 \<Longrightarrow> hex_digit n \<noteq> CHR ''x''" by simp
qed

lemma unhex_hex: "unhex (hex n) = n"
proof (induction n rule: hex.induct)
  case (1 n)
  show ?case
  proof (cases "n < 16")
    case True
    then show ?thesis by (simp add: hex.simps [of n] unhex_def hex_value_digit)
  next
    case False
    with "1" have "unhex (hex (n div 16)) = n div 16" by simp
    with False show ?thesis
      by (simp add: hex.simps [of n] unhex_def hex_value_digit)
  qed
qed

lemma hex_inject: "hex m = hex n \<longleftrightarrow> m = n"
  by (metis unhex_hex)

lemma hex_no_x: "CHR ''x'' \<notin> set (hex n)"
proof (induction n rule: hex.induct)
  case (1 n)
  then show ?case
    using hex_digit_no_x [of n] hex_digit_no_x [of "n mod 16"]
    by (subst hex.simps) auto
qed

lemma split_at_last:
  assumes "a @ c # u = b @ c # v" and "c \<notin> set u" and "c \<notin> set v"
  shows "a = b \<and> u = v"
proof -
  have last: "takeWhile (\<lambda>x. x \<noteq> c) (rev (w @ c # t)) = rev t" if "c \<notin> set t" for w t
  proof -
    have "takeWhile (\<lambda>x. x \<noteq> c) (rev t @ c # rev w) = rev t @ takeWhile (\<lambda>x. x \<noteq> c) (c # rev w)"
      using that by (intro takeWhile_append2) auto
    then show ?thesis by simp
  qed
  have "rev u = rev v"
    using last [OF assms(2), of a] last [OF assms(3), of b] assms(1) by simp
  with assms(1) show ?thesis by simp
qed

section \<open>SessionStore\<close>

record SessionStore =
  ss_DiscoveryService :: "string option"
  ss_initOnce :: bool
  ss_sessions :: "string \<rightharpoonup> sptr"
  ss_ids :: SequentialIDGenerator
  ss_sessionCount :: "string \<Rightarrow> int"
  ss_sessionCountTotal :: "string \<Rightarrow> nat"

definition newSessionStore :: "string option \<Rightarrow> SessionStore" where
  "newSessionStore d =
    \<lparr>ss_DiscoveryService = d, ss_initOnce = False, ss_sessions = Map.empty,
     ss_ids = newGenerator, ss_sessionCount = (\<lambda>_. 0), ss_sessionCountTotal = (\<lambda>_. 0)\<rparr>"

text \<open>\<open>init\<close> runs once, before the first access to the table of sessions.\<close>

definition init_once :: "SessionStore \<Rightarrow> SessionStore" where
  "init_once s =
    (if ss_initOnce s then s
     else s\<lparr>ss_initOnce := True, ss_sessions := Map.empty,
            ss_DiscoveryService :=
              (case ss_DiscoveryService s of None \<Rightarrow> Some ''ted'' | Some d \<Rightarrow> Some d)\<rparr>)"

definition ServerID :: "SessionStore \<Rightarrow> string" where
  "ServerID s = (case ss_DiscoveryService s of None \<Rightarrow> ''ted'' | Some d \<Rightarrow> d)"

definition GlobalSessionID :: "SessionStore \<Rightarrow> u32 \<Rightarrow> string" where
  "GlobalSessionID s i = ServerID s @ ''x'' @ hex (unat i)"

definition NewID :: "u32 order \<Rightarrow> SessionStore \<Rightarrow> u32 \<times> SessionStore" where
  "NewID r s = (let (i, g) = New r (ss_ids s) in (i, s\<lparr>ss_ids := g\<rparr>))"

definition instrumentIncreaseSessionGauge :: "string \<Rightarrow> SessionStore \<Rightarrow> SessionStore" where
  "instrumentIncreaseSessionGauge k s =
    s\<lparr>ss_sessionCount := (ss_sessionCount s)(k := ss_sessionCount s k + 1)\<rparr>"

definition instrumentDecreaseSessionGauge :: "string \<Rightarrow> SessionStore \<Rightarrow> SessionStore" where
  "instrumentDecreaseSessionGauge k s =
    s\<lparr>ss_sessionCount := (ss_sessionCount s)(k := ss_sessionCount s k - 1)\<rparr>"

definition instrumentCountSession :: "string \<Rightarrow> SessionStore \<Rightarrow> SessionStore" where
  "instrumentCountSession k s =
    s\<lparr>ss_sessionCountTotal := (ss_sessionCountTotal s)(k := Suc (ss_sessionCountTotal s k))\<rparr>"

text \<open>\<^verbatim>\<open>Add\<close> never fails. The session is given by its address and its contents.\<close>

definition SessionStore_Add :: "sptr \<Rightarrow> 'm Session \<Rightarrow> SessionStore \<Rightarrow> SessionStore" where
  "SessionStore_Add sp session s0 =
    (let s = init_once s0;
         s1 = s\<lparr>ss_sessions := (ss_sessions s)(GlobalSessionID s (s_ID session) \<mapsto> sp)\<rparr>
     in instrumentCountSession (s_AppKey session)
          (instrumentIncreaseSessionGauge (s_AppKey session) s1))"

text \<open>\<^verbatim>\<open>Remove\<close> also closes the session.\<close>

definition SessionStore_Remove ::
  "'m Session \<Rightarrow> SessionStore \<Rightarrow> SessionStore \<times> 'm Session" where
  "SessionStore_Remove session s0 =
    (let s = init_once s0;
         s1 = s\<lparr>ss_sessions := (ss_sessions s)(GlobalSessionID s (s_ID session) := None)\<rparr>;
         session' = Close session;
         s2 = s1\<lparr>ss_ids := Reuse (s_ID session) (ss_ids s1)\<rparr>
     in (instrumentDecreaseSessionGauge (s_AppKey session) s2, session'))"

definition GetByGlobalID :: "string \<Rightarrow> SessionStore \<Rightarrow> sptr option \<times> SessionStore" where
  "GetByGlobalID v s0 = (let s = init_once s0 in (ss_sessions s v, s))"

section \<open>Global ids\<close>

lemma ServerID_init [simp]: "ServerID (init_once s) = ServerID s"
  by (simp add: ServerID_def init_once_def split: option.splits)

lemma GlobalSessionID_cong: "ServerID s = ServerID s' \<Longrightarrow> GlobalSessionID s = GlobalSessionID s'"
  by (simp add: fun_eq_iff GlobalSessionID_def)

lemma GlobalSessionID_inject:
  "GlobalSessionID s i = GlobalSessionID s' j \<longleftrightarrow> ServerID s = ServerID s' \<and> i = j"
proof
  assume "GlobalSessionID s i = GlobalSessionID s' j"
  then have "ServerID s = ServerID s' \<and> hex (unat i) = hex (unat j)"
    using hex_no_x by (intro split_at_last [where c = "CHR ''x''"]) (simp_all add: GlobalSessionID_def)
  then show "ServerID s = ServerID s' \<and> i = j" by (simp add: hex_inject word_unat_eq_iff)
qed (simp add: GlobalSessionID_def)

lemma GlobalSessionID_nonempty: "GlobalSessionID s i \<noteq> ''''"
  by (simp add: GlobalSessionID_def)

lemma ServerID_ops [simp]:
  "ServerID (snd (NewID r s)) = ServerID s"
  "ServerID (SessionStore_Add sp session s) = ServerID s"
  "ServerID (fst (SessionStore_Remove session s)) = ServerID s"
  "ServerID (snd (GetByGlobalID v s)) = ServerID s"
  by (simp_all add: NewID_def SessionStore_Add_def SessionStore_Remove_def GetByGlobalID_def
      Let_def instrumentCountSession_def instrumentIncreaseSessionGauge_def
      instrumentDecreaseSessionGauge_def ServerID_def init_once_def
      split: option.splits prod.splits)

text \<open>The table as seen through \<open>GetByGlobalID\<close>.\<close>

definition find_session :: "SessionStore \<Rightarrow> string \<Rightarrow> sptr option" where
  "find_session s v = fst (GetByGlobalID v s)"

lemma find_session_init: "find_session (init_once s) = find_session s"
  by (auto simp: fun_eq_iff find_session_def GetByGlobalID_def init_once_def)

lemma find_session_Add:
  "find_session (SessionStore_Add sp session s) v =
    (if v = GlobalSessionID s (s_ID session) then Some sp else find_session s v)"
  using GlobalSessionID_cong [OF ServerID_init, of s]
  by (simp add: find_session_def GetByGlobalID_def SessionStore_Add_def Let_def
      instrumentCountSession_def instrumentIncreaseSessionGauge_def)
    (simp add: init_once_def)

lemma find_session_Remove:
  "find_session (fst (SessionStore_Remove session s)) v =
    (if v = GlobalSessionID s (s_ID session) then None else find_session s v)"
  using GlobalSessionID_cong [OF ServerID_init, of s]
  by (simp add: find_session_def GetByGlobalID_def SessionStore_Remove_def Let_def
      instrumentDecreaseSessionGauge_def)
    (simp add: init_once_def)

lemma find_session_NewID: "find_session (snd (NewID r s)) = find_session s"
  by (simp add: fun_eq_iff NewID_def find_session_def GetByGlobalID_def init_once_def
      split: prod.splits)

lemma SessionStore_Add_fields:
  "ss_ids (SessionStore_Add sp session s) = ss_ids s"
  "ss_sessionCount (SessionStore_Add sp session s) =
    (ss_sessionCount s)(s_AppKey session := ss_sessionCount s (s_AppKey session) + 1)"
  by (simp_all add: SessionStore_Add_def Let_def instrumentCountSession_def
      instrumentIncreaseSessionGauge_def init_once_def)

lemma SessionStore_Remove_fields:
  "ss_ids (fst (SessionStore_Remove session s)) = Reuse (s_ID session) (ss_ids s)"
  "ss_sessionCount (fst (SessionStore_Remove session s)) =
    (ss_sessionCount s)(s_AppKey session := ss_sessionCount s (s_AppKey session) - 1)"
  "snd (SessionStore_Remove session s) = Close session"
  by (simp_all add: SessionStore_Remove_def Let_def instrumentDecreaseSessionGauge_def
      init_once_def)

section \<open>The contract of the store\<close>

text \<open>Global session ids never collide: two of them are equal only if they name the same
  session of the same server, whatever text the server ids are.\<close>

theorem global_id_injective:
  "GlobalSessionID s i = GlobalSessionID s' j \<longleftrightarrow> ServerID s = ServerID s' \<and> i = j"
  by (rule GlobalSessionID_inject)

text \<open>A session that was added is found under its global id and no other lookup changes;
  after its removal it is not found any more, every other session still is, its id can be
  drawn again, it is closed, and the gauge of its app key is back at its old value.\<close>

theorem store_add_remove:
  "fst (GetByGlobalID v (SessionStore_Add sp session s)) =
      (if v = GlobalSessionID s (s_ID session) then Some sp else fst (GetByGlobalID v s)) \<and>
    fst (GetByGlobalID v (fst (SessionStore_Remove session (SessionStore_Add sp session s)))) =
      (if v = GlobalSessionID s (s_ID session) then None else fst (GetByGlobalID v s)) \<and>
    s_ID session \<in> reusableIDs (ss_ids (fst (SessionStore_Remove session (SessionStore_Add sp session s)))) \<and>
    s_closeOnce (snd (SessionStore_Remove session (SessionStore_Add sp session s))) \<and>
    ss_sessionCount (fst (SessionStore_Remove session (SessionStore_Add sp session s))) = ss_sessionCount s"
proof -
  have G: "GlobalSessionID (SessionStore_Add sp session s) = GlobalSessionID s"
    by (rule GlobalSessionID_cong) simp
  show ?thesis
    using find_session_Add [of sp session s v]
      find_session_Remove [of session "SessionStore_Add sp session s" v]
    by (simp add: find_session_def G SessionStore_Add_fields
        SessionStore_Remove_fields Reuse_def Close_def fun_eq_iff)
qed

end
