(* ===== verification/Signed_Latency.thy ===== *)
theory Signed_Latency
imports Messages Rounding
begin

text \<open>
  \<^verbatim>\<open>models/signed_latency.go\<close>: the measurement of a client's latency by a number of
  pings, whose result is signed by the server. The measurement computes with
  \<^verbatim>\<open>float32\<close> and \<^verbatim>\<open>float64\<close>, but every number it stores is an integer, so a float
  is modelled by the integer it denotes and each operation rounds as IEEE 754 does, to the
  nearest value with 24 (53) significant bits, ties to even. The numbers stay far below the
  largest float, and none is between zero and the smallest normal float.

  The clock is a parameter: \<open>reading k\<close> is the \<open>k\<close>-th reading of the clock in a step, in
  nanoseconds. Marshalling and signing are parameters too; they may fail. Proved here: what
  a start, an answered ping and an unknown ping do, that the rounding is exact on 24 bits,
  and that a measurement of \<open>n\<close> pings ends with the \<open>n\<close>-th answer.
\<close>

section \<open>Rounding\<close>

text \<open>The float nearest to the quotient of two positive integers, as \<open>M / 2 ^ k\<close>:
  \<open>k\<close> is chosen such that \<open>M\<close> has \<open>p\<close> bits.\<close>

definition quotient_float :: "nat \<Rightarrow> nat \<Rightarrow> nat \<Rightarrow> nat \<times> int" where
  "quotient_float p a b =
    (let scaled = (\<lambda>k. if 0 \<le> k then (a * 2 ^ nat k, b) else (a, b * 2 ^ nat (- k)));
         k = int p + int (bits b) - int (bits a);
         (x, y) = scaled k;
         k' = (if bits (x div y) \<le> p then k else k - 1);
         (x', y') = scaled k'
     in (nearest x' y', k'))"

text \<open>\<^verbatim>\<open>math.Round\<close>, half away from zero, and the truncation of such a float.\<close>

definition half_away :: "nat \<times> int \<Rightarrow> nat" where
  "half_away = (\<lambda>(M, k). if k \<le> 0 then M * 2 ^ nat (- k) else (2 * M + 2 ^ nat k) div (2 * 2 ^ nat k))"

definition toward_zero :: "nat \<times> int \<Rightarrow> nat" where
  "toward_zero = (\<lambda>(M, k). if k \<le> 0 then M * 2 ^ nat (- k) else M div 2 ^ nat k)"

section \<open>Durations\<close>

text \<open>\<^verbatim>\<open>time.Time{}\<close>, the first of January of the year 1, in nanoseconds since 1970.\<close>

definition zeroTime :: instant where
  "zeroTime = - 62135596800000000000"

text \<open>\<^verbatim>\<open>Sub\<close> saturates at the bounds of a 64-bit duration; \<^verbatim>\<open>Microseconds\<close>
  truncates towards zero.\<close>

definition time_Sub :: "instant \<Rightarrow> instant \<Rightarrow> int" where
  "time_Sub t u = max (- (2 ^ 63)) (min (2 ^ 63 - 1) (t - u))"

definition Microseconds :: "int \<Rightarrow> int" where
  "Microseconds d = (if d < 0 then - ((- d) div 1000) else d div 1000)"

section \<open>The measurement\<close>

record LatencyMetricsData =
  lm_Start :: instant
  lm_End :: instant

record SignedLatency =
  sl_RequestID :: u32
  sl_StartedAt :: instant
  sl_Iteration :: u32
  sl_PingRequests :: "u32 \<rightharpoonup> LatencyMetricsData"
  sl_SessionID :: string
  sl_ClientID :: string
  sl_WalletAddress :: string
  sl_sender :: "conn option"

definition newSignedLatency :: SignedLatency where
  "newSignedLatency =
    \<lparr>sl_RequestID = 0, sl_StartedAt = zeroTime, sl_Iteration = 0, sl_PingRequests = Map.empty,
     sl_SessionID = '''', sl_ClientID = '''', sl_WalletAddress = '''', sl_sender = None\<rparr>"

text \<open>The new state and the messages for the sender.\<close>

definition sendPingRequest ::
  "instant \<Rightarrow> instant \<Rightarrow> SignedLatency \<Rightarrow> SignedLatency \<times> Proto list" where
  "sendPingRequest nowId nowStart s =
    (let pingReqID = word_of_int nowId
     in (s\<lparr>sl_PingRequests := (sl_PingRequests s)
           (pingReqID \<mapsto> \<lparr>lm_Start = nowStart, lm_End = zeroTime\<rparr>)\<rparr>,
         [PingRequestProto pingReqID]))"

definition Start ::
  "(nat \<Rightarrow> instant) \<Rightarrow> conn \<Rightarrow> u32 \<Rightarrow> u32 \<Rightarrow> string \<Rightarrow> string \<Rightarrow> string \<Rightarrow>
    SignedLatency \<times> Proto list" where
  "Start reading sender requestID iteration sessionID clientID walletAddress =
    sendPingRequest (reading 1) (reading 2)
      \<lparr>sl_RequestID = requestID, sl_StartedAt = reading 0, sl_Iteration = iteration,
       sl_PingRequests = Map.empty, sl_SessionID = sessionID, sl_ClientID = clientID,
       sl_WalletAddress = walletAddress, sl_sender = Some sender\<rparr>"

text \<open>Where the messages of a measurement go: it was never started, or started by \<open>c\<close>.\<close>

definition latency_at :: "conn \<Rightarrow> SignedLatency \<Rightarrow> bool" where
  "latency_at c s \<longleftrightarrow> sl_PingRequests s = Map.empty \<or> sl_sender s = Some c"

section \<open>The result\<close>

definition f32 :: "int \<Rightarrow> int" where
  "f32 = round_int 24"

definition latency_of :: "LatencyMetricsData \<Rightarrow> int" where
  "latency_of v = f32 (Microseconds (time_Sub (lm_End v) (lm_Start v)))"

text \<open>One turn of the loop over the pings, on the minimum, the maximum and the sum.\<close>

definition measure_turn :: "int \<Rightarrow> int \<times> int \<times> int \<Rightarrow> int \<times> int \<times> int" where
  "measure_turn latency = (\<lambda>(mn, mx, mean).
     (if latency < mn \<or> mn = 0 then latency else mn,
      if mx < latency then latency else mx,
      f32 (mean + latency)))"

definition mean_of :: "int \<Rightarrow> nat \<Rightarrow> int" where
  "mean_of tot n =
    (let r = int (half_away (quotient_float 53 (nat \<bar>tot\<bar>) n))
     in if tot = 0 then 0 else f32 (if tot < 0 then - r else r))"

text \<open>\<^verbatim>\<open>0.95\<close> as a \<^verbatim>\<open>float32\<close> is \<open>15938355 / 2 ^ 24\<close>.\<close>

definition p95_index :: "nat \<Rightarrow> nat" where
  "p95_index n = (if n = 0 then 0 else toward_zero (quotient_float 24 (n * 15938355) (2 ^ 24)))"

definition p95_of :: "int list \<Rightarrow> int" where
  "p95_of latencies =
    (let index = p95_index (length latencies)
     in if index < length latencies \<and> 0 < index then sort latencies ! (index - 1) else 0)"

definition latency_data :: "u32 order \<Rightarrow> instant \<Rightarrow> SignedLatency \<Rightarrow> LatencyData" where
  "latency_data r now s =
    (let ids = r (dom (sl_PingRequests s));
         latencies = map latency_of (List.map_filter (sl_PingRequests s) ids);
         (mn, mx, tot) = fold measure_turn latencies (0, 0, 0)
     in \<lparr>ld_CreatedAt = now, ld_Min = mn, ld_Max = mx, ld_Mean = mean_of tot (length latencies),
         ld_P95 = p95_of latencies, ld_Last = last latencies,
         ld_IterationCount = of_nat (length latencies), ld_PingRequestIds = ids,
         ld_SessionId = sl_SessionID s, ld_ClientId = sl_ClientID s,
         ld_WalletAddress = sl_WalletAddress s\<rparr>)"

text \<open>\<^verbatim>\<open>OnPing\<close>: an error, or none, with the new state and the messages for the sender.
  The reading 3 is the time of creation of the result.\<close>

definition OnPing ::
  "u32 order \<Rightarrow> (nat \<Rightarrow> instant) \<Rightarrow> (LatencyData \<Rightarrow> bytes option) \<Rightarrow> (bytes \<Rightarrow> string option) \<Rightarrow>
    u32 \<Rightarrow> SignedLatency \<Rightarrow> bool \<times> SignedLatency \<times> Proto list" where
  "OnPing r reading marshal sign pingReqID s =
    (case sl_PingRequests s pingReqID of
       None \<Rightarrow> (True, s, [])
     | Some pingRequest \<Rightarrow>
        (let s1 = s\<lparr>sl_Iteration := sl_Iteration s - 1,
                    sl_PingRequests := (sl_PingRequests s)
                      (pingReqID \<mapsto> \<lparr>lm_Start = lm_Start pingRequest, lm_End = reading 0\<rparr>)\<rparr>
         in if 0 < sl_Iteration s1
            then (let (s2, ms) = sendPingRequest (reading 1) (reading 2) s1 in (False, s2, ms))
            else
              (case marshal (latency_data r (reading 3) s1) of
                 None \<Rightarrow> (True, s1, [])
               | Some data \<Rightarrow>
                   (case sign data of
                      None \<Rightarrow> (True, s1, [])
                    | Some signature \<Rightarrow>
                        (False, s1, [SignedLatencyResponse (sl_RequestID s1) data signature])))))"

section \<open>Who hears of a measurement\<close>

lemma latency_at_new [simp]: "latency_at c newSignedLatency"
  by (simp add: latency_at_def newSignedLatency_def)

lemma latency_at_Start: "latency_at c (fst (Start reading c rid it sid cid wallet))"
  by (simp add: latency_at_def Start_def sendPingRequest_def Let_def)

lemma OnPing_sender:
  assumes "OnPing r reading marshal sign pid s = (failed, s', ms)"
  shows "sl_sender s' = sl_sender s" and "sl_PingRequests s = Map.empty \<Longrightarrow> s' = s \<and> ms = [] \<and> failed"
  using assms
  by (auto simp: OnPing_def sendPingRequest_def Let_def split: option.splits if_splits)

lemma latency_at_OnPing:
  assumes "latency_at c s" and "OnPing r reading marshal sign pid s = (failed, s', ms)"
  shows "latency_at c s'" and "ms \<noteq> [] \<Longrightarrow> sl_sender s' = Some c"
  using assms(1) OnPing_sender [OF assms(2)] by (auto simp: latency_at_def)

section \<open>Rounding\<close>

text \<open>The conversion of an integer to a float is exact below \<open>2 ^ 24\<close> in absolute value, and
  elsewhere off by at most half a unit in the last of 24 places.\<close>

theorem float32_conversion:
  "(\<bar>x\<bar> < 2 ^ 24 \<longrightarrow> f32 x = x) \<and>
    2 * \<bar>f32 x - x\<bar> \<le> 2 ^ (bits (nat \<bar>x\<bar>) - 24)"
proof -
  have gap: "2 * \<bar>u - v\<bar> \<le> d" if "2 * u \<le> 2 * v + d" "2 * v \<le> 2 * u + d" for u v d :: int
    using that by (cases "u \<le> v") simp_all
  have n: "2 * \<bar>int (round_nat 24 n) - int n\<bar> \<le> 2 ^ (bits n - 24)" for n
  proof (cases "bits n \<le> 24")
    case False
    have "2 * (round_nat 24 n) \<le> 2 * n + 2 ^ (bits n - 24)"
      "2 * n \<le> 2 * round_nat 24 n + 2 ^ (bits n - 24)"
      using nearest_error [of "2 ^ (bits n - 24)" n] False by (simp_all add: round_nat_def)
    then have "int (2 * round_nat 24 n) \<le> int (2 * n + 2 ^ (bits n - 24))"
      "int (2 * n) \<le> int (2 * round_nat 24 n + 2 ^ (bits n - 24))"
      by (simp_all only: of_nat_le_iff)
    then show ?thesis by (simp add: gap)
  qed (simp add: round_nat_def)
  show ?thesis
  proof (cases "x < 0")
    case True
    then obtain k where "x = - int k" "0 < k" by (metis neg_int_cases)
    then show ?thesis
      using n [of k] round_nat_exact [of k 24]
      by (simp add: f32_def round_int_def abs_minus_commute [of "int k"])
  next
    case False
    then obtain k where "x = int k" by (metis not_less nonneg_int_cases)
    then show ?thesis
      using n [of k] round_nat_exact [of k 24] by (simp add: f32_def round_int_def)
  qed
qed

lemma float32_conversion_witness: "f32 16777215 = 16777215 \<and> \<bar>(16777215::int)\<bar> < 2 ^ 24"
  using float32_conversion [of 16777215] by simp

section \<open>What an answered ping does\<close>

lemma OnPing_more:
  assumes "sl_PingRequests s i = Some p" and "sl_Iteration s \<noteq> 1"
  shows "OnPing r reading marshal sign i s = (False,
    s\<lparr>sl_Iteration := sl_Iteration s - 1,
      sl_PingRequests := (sl_PingRequests s)(i \<mapsto> \<lparr>lm_Start = lm_Start p, lm_End = reading 0\<rparr>,
        word_of_int (reading 1) \<mapsto> \<lparr>lm_Start = reading 2, lm_End = zeroTime\<rparr>)\<rparr>,
    [PingRequestProto (word_of_int (reading 1))])"
proof -
  have "0 < sl_Iteration s - 1"
    using assms(2) by (metis diff_eq_eq add_0 word_neq_0_conv)
  with assms(1) show ?thesis by (simp add: OnPing_def sendPingRequest_def Let_def)
qed

text \<open>The state after the last answer.\<close>

definition answered :: "u32 \<Rightarrow> LatencyMetricsData \<Rightarrow> (nat \<Rightarrow> instant) \<Rightarrow> SignedLatency \<Rightarrow> SignedLatency" where
  "answered i p reading s = s\<lparr>sl_Iteration := 0,
     sl_PingRequests := (sl_PingRequests s)(i \<mapsto> \<lparr>lm_Start = lm_Start p, lm_End = reading 0\<rparr>)\<rparr>"

lemma OnPing_last:
  assumes "sl_PingRequests s i = Some p" and "sl_Iteration s = 1"
  shows "OnPing r reading marshal sign i s =
    (case Option.bind (marshal (latency_data r (reading 3) (answered i p reading s)))
       (\<lambda>d. map_option (Pair d) (sign d)) of
       None \<Rightarrow> (True, answered i p reading s, [])
     | Some (d, sig) \<Rightarrow> (False, answered i p reading s, [SignedLatencyResponse (sl_RequestID s) d sig]))"
  using assms by (simp add: OnPing_def Let_def answered_def split: option.split)

text \<open>An unknown ping is refused and changes nothing. A known ping is stamped with the time
  of its answer and the counter goes down by one, on 32 bits: as long as it is not zero a new
  ping goes out, and at zero the signed result does, or the error of marshalling or signing.
  In particular an answer after the end of a measurement starts it again.\<close>

theorem answered_ping:
  "OnPing r reading marshal sign i s =
    (case sl_PingRequests s i of
       None \<Rightarrow> (True, s, [])
     | Some p \<Rightarrow>
         if sl_Iteration s \<noteq> 1 then
           (False,
            s\<lparr>sl_Iteration := if sl_Iteration s = 0 then 2 ^ 32 - 1 else sl_Iteration s - 1,
              sl_PingRequests := (sl_PingRequests s)(i \<mapsto> \<lparr>lm_Start = lm_Start p, lm_End = reading 0\<rparr>,
                word_of_int (reading 1) \<mapsto> \<lparr>lm_Start = reading 2, lm_End = zeroTime\<rparr>)\<rparr>,
            [PingRequestProto (word_of_int (reading 1))])
         else
           (case Option.bind (marshal (latency_data r (reading 3) (answered i p reading s)))
              (\<lambda>d. map_option (Pair d) (sign d)) of
              None \<Rightarrow> (True, answered i p reading s, [])
            | Some (d, sig) \<Rightarrow>
                (False, answered i p reading s, [SignedLatencyResponse (sl_RequestID s) d sig])))"
proof (cases "sl_PingRequests s i")
  case (Some p)
  then show ?thesis by (auto simp: OnPing_more OnPing_last)
qed (simp add: OnPing_def)

section \<open>A whole measurement\<close>

lemma length_map_filter_total:
  "(\<And>x. x \<in> set xs \<Longrightarrow> f x \<noteq> None) \<Longrightarrow> length (List.map_filter f xs) = length xs"
  by (induction xs) (simp, fastforce simp: List.map_filter_simps split: option.split)


text \<open>The client answers the latest ping each time; what the server sends in reply.\<close>

fun exchange ::
  "u32 order \<Rightarrow> (LatencyData \<Rightarrow> bytes option) \<Rightarrow> (bytes \<Rightarrow> string option) \<Rightarrow>
    (nat \<Rightarrow> instant) list \<Rightarrow> u32 \<Rightarrow> SignedLatency \<Rightarrow> Proto list \<times> SignedLatency" where
  "exchange r marshal sign [] i s = ([], s)"
| "exchange r marshal sign (reading # rs) i s =
    (let (failed, s1, ms) = OnPing r reading marshal sign i s;
         (ms', s2) = exchange r marshal sign rs (word_of_int (reading 1)) s1
     in (ms @ ms', s2))"

definition ping_ids :: "(nat \<Rightarrow> instant) list \<Rightarrow> u32 list" where
  "ping_ids rs = map (\<lambda>reading. word_of_int (reading 1)) rs"

lemma exchange_running:
  assumes "sl_PingRequests s i \<noteq> None" and "length rs < unat (sl_Iteration s)"
  shows "fst (exchange r marshal sign rs i s) = map PingRequestProto (ping_ids rs) \<and>
    sl_Iteration (snd (exchange r marshal sign rs i s)) = sl_Iteration s - of_nat (length rs) \<and>
    sl_PingRequests (snd (exchange r marshal sign rs i s)) (last (i # ping_ids rs)) \<noteq> None \<and>
    dom (sl_PingRequests (snd (exchange r marshal sign rs i s))) = dom (sl_PingRequests s) \<union> set (ping_ids rs) \<and>
    sl_RequestID (snd (exchange r marshal sign rs i s)) = sl_RequestID s"
  using assms
proof (induction rs arbitrary: i s)
  case Nil
  then show ?case by (simp add: ping_ids_def)
next
  case (Cons reading rs)
  obtain p where p: "sl_PingRequests s i = Some p" using Cons.prems(1) by blast
  define s1 where "s1 = fst (snd (OnPing r reading marshal sign i s))"
  have "sl_Iteration s \<noteq> 1" using Cons.prems(2) by (auto simp: unat_1)
  note O = OnPing_more [OF p this, of r reading marshal sign]
  define s1 where "s1 = fst (snd (OnPing r reading marshal sign i s))"
  have s1: "sl_Iteration s1 = sl_Iteration s - 1" "sl_RequestID s1 = sl_RequestID s"
    "sl_PingRequests s1 (word_of_int (reading 1)) \<noteq> None"
    "dom (sl_PingRequests s1) = insert (word_of_int (reading 1)) (dom (sl_PingRequests s))"
    using p by (auto simp: s1_def O)
  have "unat (sl_Iteration s1) = unat (sl_Iteration s) - 1"
    using Cons.prems(2) by (simp add: s1 unat_minus_one word_neq_0_conv word_less_nat_alt)
  then have "length rs < unat (sl_Iteration s1)" using Cons.prems(2) by simp
  note IH = Cons.IH [OF s1(3) this]
  have "exchange r marshal sign (reading # rs) i s =
      (PingRequestProto (word_of_int (reading 1)) # fst (exchange r marshal sign rs (word_of_int (reading 1)) s1),
       snd (exchange r marshal sign rs (word_of_int (reading 1)) s1))"
    by (simp add: O s1_def Let_def split: prod.split)
  then show ?case
    using IH by (simp add: s1 ping_ids_def)
qed

lemma exchange_Cons:
  "fst (exchange r marshal sign (rd # rs) i s) = snd (snd (OnPing r rd marshal sign i s)) @
    fst (exchange r marshal sign rs (word_of_int (rd 1)) (fst (snd (OnPing r rd marshal sign i s))))"
  "snd (exchange r marshal sign (rd # rs) i s) =
    snd (exchange r marshal sign rs (word_of_int (rd 1)) (fst (snd (OnPing r rd marshal sign i s))))"
  by (simp_all add: Let_def case_prod_beta)

lemma exchange_append:
  "fst (exchange r marshal sign (rs @ [final]) i s) = fst (exchange r marshal sign rs i s) @
    snd (snd (OnPing r final marshal sign (last (i # ping_ids rs)) (snd (exchange r marshal sign rs i s))))"
proof (induction rs arbitrary: i s)
  case (Cons reading rs)
  then show ?case by (simp add: exchange_Cons ping_ids_def del: exchange.simps(2))
qed (simp add: exchange_Cons ping_ids_def del: exchange.simps(2))

text \<open>C33: A measurement of \<open>n\<close> pings that is answered ping by ping ends: the first \<open>n - 1\<close> answers
  are met with the next ping, the last one with the signed result and nothing else, and when
  the clock gave different ids the result counts \<open>n\<close> pings.\<close>

theorem measurement_completes:
  assumes "0 < unat n" and "length rs = unat n - 1" and "range_ok r"
  shows "\<exists>d. snd (Start reading0 c rid n sid cid wallet) @
      fst (exchange r (\<lambda>d. Some (enc d)) (\<lambda>b. Some (sg b)) (rs @ [final]) (word_of_int (reading0 1))
        (fst (Start reading0 c rid n sid cid wallet))) =
      map PingRequestProto (word_of_int (reading0 1) # ping_ids rs) @
        [SignedLatencyResponse rid (enc d) (sg (enc d))] \<and>
    (distinct (word_of_int (reading0 1) # ping_ids rs) \<longrightarrow> ld_IterationCount d = n)"
proof -
  let ?i = "word_of_int (reading0 1) :: u32" and ?s = "fst (Start reading0 c rid n sid cid wallet)"
  let ?m = "\<lambda>d. Some (enc d)" and ?g = "\<lambda>b. Some (sg b)"
  have S: "sl_PingRequests ?s ?i \<noteq> None" "sl_Iteration ?s = n" "sl_RequestID ?s = rid"
    "dom (sl_PingRequests ?s) = {?i}" "snd (Start reading0 c rid n sid cid wallet) = [PingRequestProto ?i]"
    by (simp_all add: Start_def sendPingRequest_def Let_def)
  have "length rs < unat (sl_Iteration ?s)" using assms(1,2) by (simp add: S)
  note E = exchange_running [OF S(1) this, of r ?m ?g]
  let ?s1 = "snd (exchange r ?m ?g rs ?i ?s)" and ?j = "last (?i # ping_ids rs)"
  obtain p where p: "sl_PingRequests ?s1 ?j = Some p" using E by blast
  have "of_nat (length rs) = n - 1" using assms(1,2) by (simp add: of_nat_diff)
  then have "sl_Iteration ?s1 = 1" using E by (simp add: S)
  note O = OnPing_last [OF p this, of r final ?m ?g]
  let ?d = "latency_data r (final 3) (answered ?j p final ?s1)"
  have D: "dom (sl_PingRequests (answered ?j p final ?s1)) = set (?i # ping_ids rs)"
    using E p by (auto simp: answered_def S)
  have "ld_IterationCount ?d = n" if d: "distinct (?i # ping_ids rs)"
  proof -
    have "length (List.map_filter (sl_PingRequests (answered ?j p final ?s1))
        (r (set (?i # ping_ids rs)))) = length (r (set (?i # ping_ids rs)))"
      using D assms(3) by (intro length_map_filter_total) (metis List.finite_set domIff range_ok_set)
    also have "\<dots> = card (set (?i # ping_ids rs))"
      using assms(3) by (metis List.finite_set distinct_card range_ok_distinct range_ok_set)
    also have "\<dots> = length (?i # ping_ids rs)" by (rule distinct_card [OF d])
    also have "\<dots> = unat n" using assms(1,2) by (simp add: ping_ids_def)
    finally show ?thesis unfolding latency_data_def D by (simp add: Let_def split: prod.split)
  qed
  moreover have "fst (exchange r ?m ?g (rs @ [final]) ?i ?s) =
      map PingRequestProto (ping_ids rs) @ [SignedLatencyResponse rid (enc ?d) (sg (enc ?d))]"
    using E unfolding exchange_append O by (simp add: S)
  ultimately show ?thesis by (intro exI [where x = ?d]) (simp add: S)
qed

lemma measurement_completes_witness:
  "\<exists>d :: LatencyData. snd (Start (\<lambda>_. 1) 0 9 3 ''s'' ''c'' ''w'') @
      fst (exchange sorted_list_of_set (\<lambda>d. Some [1]) (\<lambda>b. Some ''sig'') ([\<lambda>_. 2, \<lambda>_. 3] @ [\<lambda>_. 4]) 1
        (fst (Start (\<lambda>_. 1) 0 9 3 ''s'' ''c'' ''w''))) =
      [PingRequestProto 1, PingRequestProto 2, PingRequestProto 3, SignedLatencyResponse 9 [1] ''sig''] \<and>
    ld_IterationCount d = 3"
  using measurement_completes [where n = 3 and rs = "[\<lambda>_. 2, \<lambda>_. 3]" and r = sorted_list_of_set
      and ?reading0.0 = "\<lambda>_. 1" and c = 0 and rid = 9 and sid = "''s''" and cid = "''c''" and wallet = "''w''"
      and enc = "\<lambda>_. [1]" and sg = "\<lambda>_. ''sig''" and final = "\<lambda>_. 4"]
  by (simp add: range_ok_sorted ping_ids_def del: exchange.simps)

section \<open>The statistics\<close>

lemma measure_min:
  "0 < mn \<Longrightarrow> \<forall>x \<in> set l. 0 < x \<Longrightarrow> fst (fold measure_turn l (mn, mx, t)) = Min (insert mn (set l))"
proof (induction l arbitrary: mn mx t)
  case (Cons x l)
  have "Min (insert mn (insert x (set l))) = Min (insert (min mn x) (set l))"
    by (cases "set l = {}") (simp_all add: min.assoc)
  moreover have "(if x < mn \<or> mn = 0 then x else mn) = min mn x" using Cons.prems by auto
  ultimately show ?case using Cons by (simp add: measure_turn_def)
qed simp

lemma measure_min_zero:
  assumes "l \<noteq> []" and "\<forall>x \<in> set l. 0 < x"
  shows "fst (fold measure_turn l (0, mx, t)) = Min (set l)"
proof -
  obtain x k where "l = x # k" using assms(1) by (cases l) auto
  then show ?thesis using assms(2) measure_min [of x k] by (simp add: measure_turn_def)
qed

lemma measure_max: "fst (snd (fold measure_turn l (mn, mx, t))) = Max (insert mx (set l))"
proof (induction l arbitrary: mn mx t)
  case (Cons x l)
  have "Max (insert mx (insert x (set l))) = Max (insert (max mx x) (set l))"
    by (cases "set l = {}") (simp_all add: max.assoc)
  moreover have "(if mx < x then x else mx) = max mx x" by auto
  ultimately show ?case using Cons by (simp add: measure_turn_def)
qed simp

lemma measure_nonneg:
  "0 \<le> mn \<Longrightarrow> \<forall>x \<in> set l. 0 \<le> x \<Longrightarrow> 0 \<le> fst (fold measure_turn l (mn, mx, t))"
  by (induction l arbitrary: mn mx t) (auto simp: measure_turn_def)

text \<open>The largest and, when no latency is zero, the smallest latency of a measurement are
  the maximum and the minimum. A latency of zero microseconds, however, makes the minimum
  forget all that came before it: with zero as the mark of an unset minimum, the result is
  the minimum of the latencies that follow.\<close>

theorem measured_extrema:
  "(l \<noteq> [] \<longrightarrow> (\<forall>x \<in> set l. 0 < x) \<longrightarrow>
      fst (fold measure_turn l (0, 0, 0)) = Min (set l) \<and>
      fst (snd (fold measure_turn l (0, 0, 0))) = Max (set l)) \<and>
    (l \<noteq> [] \<longrightarrow> (\<forall>x \<in> set l. 0 < x) \<longrightarrow> (\<forall>x \<in> set k. 0 \<le> x) \<longrightarrow>
      fst (fold measure_turn (k @ 0 # l) (0, 0, 0)) = Min (set l))"
proof (intro conjI impI)
  assume l: "l \<noteq> []" and pos: "\<forall>x \<in> set l. 0 < x"
  show "fst (fold measure_turn l (0, 0, 0)) = Min (set l)" by (rule measure_min_zero [OF l pos])
  obtain x where "x \<in> set l" "0 < x" using l pos by (cases l) auto
  then have "0 \<le> Max (set l)" by (meson List.finite_set Max_ge less_imp_le order_trans)
  then show "fst (snd (fold measure_turn l (0, 0, 0))) = Max (set l)" using l by (simp add: measure_max)
next
  assume l: "l \<noteq> []" and pos: "\<forall>x \<in> set l. 0 < x" and k: "\<forall>x \<in> set k. 0 \<le> x"
  obtain mn mx t where F: "fold measure_turn k (0, 0, 0) = (mn, mx, t)" by (metis prod.exhaust)
  have "0 \<le> mn" using measure_nonneg [of 0 k 0 0] k F by simp
  then obtain mx' t' where "measure_turn 0 (mn, mx, t) = (0, mx', t')"
    by (auto simp: measure_turn_def)
  then show "fst (fold measure_turn (k @ 0 # l) (0, 0, 0)) = Min (set l)"
    using measure_min_zero [OF l pos] F by simp
qed

lemma measured_extrema_witness: "fst (fold measure_turn ([3] @ 0 # [7, 5]) (0, 0, 0)) = 5"
  using measured_extrema [of "[7, 5]" "[3]"] by simp

text \<open>A ping that was sent after 1970 and not answered counts in the result with the
  latency of the zero time, which is negative and the same for all such pings. This happens
  when the client answers one ping several times.\<close>

theorem unanswered_ping_is_negative:
  assumes "lm_End v = zeroTime" and "0 \<le> lm_Start v"
  shows "latency_of v = - 9223372474941440"
proof -
  have "time_Sub (lm_End v) (lm_Start v) = - (2 ^ 63)"
    using assms by (simp add: time_Sub_def zeroTime_def)
  then show ?thesis
    by (simp add: latency_of_def Microseconds_def f32_def round_int_def round_nat_def bits.simps nearest_def Let_def)
qed

text \<open>The first ping of a measurement of three, answered three times.\<close>

definition thrice :: SignedLatency where
  "thrice = (let rd = (\<lambda>j k. 1000000 * (10 * j + int k));
       s0 = fst (Start (rd 0) 0 9 3 ''s'' ''c'' ''w'');
       answer = (\<lambda>j s. fst (snd (OnPing sorted_list_of_set (rd j) (\<lambda>_. Some []) (\<lambda>_. Some []) 1000000 s)))
     in answer 3 (answer 2 (answer 1 s0)))"

lemma unanswered_ping_is_negative_witness:
  "sl_Iteration thrice = 0 \<and> map_option latency_of (sl_PingRequests thrice 11000000) = Some (- 9223372474941440)"
proof -
  have "sl_Iteration thrice = 0 \<and> sl_PingRequests thrice 11000000 = Some \<lparr>lm_Start = 12000000, lm_End = zeroTime\<rparr>"
    by (simp add: thrice_def Start_def OnPing_def sendPingRequest_def Let_def)
  then show ?thesis
    using unanswered_ping_is_negative [of "\<lparr>lm_Start = 12000000, lm_End = zeroTime\<rparr>"] by simp
qed

end
