(* ===== verification/Vikja_State.thy ===== *)
theory Vikja_State
imports Messages
begin

text \<open>
  \<^verbatim>\<open>modules/vikja/state.go\<close>: the entity actions of a session, by entity and by name.
  The inner maps are created on the first action of an entity. Proved here: the contract of
  a lookup table over pairs of an entity and a name, what a removal leaves, and which
  actions the list of all actions holds.
\<close>

record VikjaState =
  entityActions :: "u32 \<rightharpoonup> (string \<rightharpoonup> EntityAction)"

definition newVikjaState :: VikjaState where
  "newVikjaState = \<lparr>entityActions = Map.empty\<rparr>"

definition SetEntityAction :: "EntityAction \<Rightarrow> VikjaState \<Rightarrow> VikjaState" where
  "SetEntityAction ea s =
    (let eas = (case entityActions s (ea_EntityId ea) of None \<Rightarrow> Map.empty | Some m \<Rightarrow> m)
     in s\<lparr>entityActions := (entityActions s)(ea_EntityId ea \<mapsto> eas(ea_Name ea \<mapsto> ea))\<rparr>)"

definition EntityAction :: "u32 \<Rightarrow> string \<Rightarrow> VikjaState \<Rightarrow> EntityAction option" where
  "EntityAction entityID actionName s =
    (case entityActions s entityID of None \<Rightarrow> None | Some eas \<Rightarrow> eas actionName)"

definition RemoveEntityActions :: "u32 \<Rightarrow> VikjaState \<Rightarrow> VikjaState" where
  "RemoveEntityActions entityID s =
    s\<lparr>entityActions := (entityActions s)(entityID := None)\<rparr>"

definition EntityActions ::
  "u32 order \<Rightarrow> string order \<Rightarrow> VikjaState \<Rightarrow> EntityAction list" where
  "EntityActions r rs s =
    concat (map (\<lambda>i. case entityActions s i of
                       None \<Rightarrow> []
                     | Some eas \<Rightarrow> List.map_filter eas (rs (dom eas)))
      (r (dom (entityActions s))))"

section \<open>Lookups\<close>

interpretation acts: lookup_table
  "\<lambda>s (i, n). EntityAction i n s" SetEntityAction "\<lambda>ea. (ea_EntityId ea, ea_Name ea)"
  by unfold_locales
    (auto simp: EntityAction_def SetEntityAction_def Let_def split: option.splits if_splits)

lemma EntityAction_Remove:
  "EntityAction j n (RemoveEntityActions i s) = (if j = i then None else EntityAction j n s)"
  by (simp add: EntityAction_def RemoveEntityActions_def)

text \<open>Every action is filed under its own entity and name, and the maps are finite.\<close>

definition vikja_ok :: "VikjaState \<Rightarrow> bool" where
  "vikja_ok s \<longleftrightarrow>
    (\<forall>i eas. entityActions s i = Some eas \<longrightarrow> finite (dom eas)) \<and>
    (\<forall>i n ea. EntityAction i n s = Some ea \<longrightarrow>
      ea_EntityId ea = i \<and> ea_Name ea = n \<and> n \<noteq> '''' \<and> ea_Timestamp ea \<noteq> None)"

lemma vikja_ok_new: "vikja_ok newVikjaState"
  by (simp add: vikja_ok_def newVikjaState_def EntityAction_def)

lemma vikja_ok_Set:
  assumes "vikja_ok s" and "ea_Name ea \<noteq> ''''" and "ea_Timestamp ea \<noteq> None"
  shows "vikja_ok (SetEntityAction ea s)"
proof -
  have "finite (dom eas)" if "entityActions (SetEntityAction ea s) i = Some eas" for i eas
    using that assms(1)
    by (auto simp: vikja_ok_def SetEntityAction_def Let_def split: if_splits option.splits)
  moreover have "EntityAction i n (SetEntityAction ea s) =
      (if i = ea_EntityId ea \<and> n = ea_Name ea then Some ea else EntityAction i n s)" for i n
    using acts.get_put [of ea s "(i, n)"] by simp
  ultimately show ?thesis
    using assms unfolding vikja_ok_def by (simp split: if_splits)
qed

lemma vikja_ok_Remove: "vikja_ok s \<Longrightarrow> vikja_ok (RemoveEntityActions i s)"
  unfolding vikja_ok_def
  by (simp add: EntityAction_Remove) (simp add: RemoveEntityActions_def)

definition action_entities :: "VikjaState \<Rightarrow> u32 set" where
  "action_entities s = dom (entityActions s)"

lemma action_entities_ops [simp]:
  "action_entities newVikjaState = {}"
  "action_entities (SetEntityAction ea s) = insert (ea_EntityId ea) (action_entities s)"
  "action_entities (RemoveEntityActions i s) = action_entities s - {i}"
  by (simp_all add: action_entities_def newVikjaState_def SetEntityAction_def
      RemoveEntityActions_def Let_def)

lemma set_EntityActions:
  assumes "range_ok r" and "range_ok rs" and "vikja_ok s"
  shows "set (EntityActions r rs s) = {ea. \<exists>i n. EntityAction i n s = Some ea}"
proof -
  have fin: "finite (dom eas)" if "entityActions s i = Some eas" for i eas
    using assms(3) that by (simp add: vikja_ok_def)
  have inner: "set (case entityActions s i of None \<Rightarrow> []
        | Some eas \<Rightarrow> List.map_filter eas (rs (dom eas))) =
      {ea. \<exists>n. EntityAction i n s = Some ea}" for i
    using assms(2) fin [of i]
    by (cases "entityActions s i") (simp_all add: EntityAction_def set_map_filter_dom ran_def)
  have "set (EntityActions r rs s) =
      (\<Union>i \<in> dom (entityActions s). {ea. \<exists>n. EntityAction i n s = Some ea})"
    using assms(1) by (simp add: EntityActions_def inner)
  also have "\<dots> = {ea. \<exists>i n. EntityAction i n s = Some ea}"
    by (fastforce simp: EntityAction_def split: option.splits)
  finally show ?thesis .
qed

end
