(* ===== verification/Odal_State.thy ===== *)
theory Odal_State
imports Ids Messages
begin

text \<open>
  \<^verbatim>\<open>modules/odal/state.go\<close>: the asset instances of a session, one per entity, with
  the generator of their ids. Proved here: the contract of a keyed table, and that the list
  of all instances holds exactly the stored ones.
\<close>

record OdalState =
  assetInstanceIDs :: SequentialIDGenerator
  assetInstances :: "u32 \<rightharpoonup> AssetInstance"

definition newOdalState :: OdalState where
  "newOdalState = \<lparr>assetInstanceIDs = newGenerator, assetInstances = Map.empty\<rparr>"

definition NewAssetInstanceID :: "u32 order \<Rightarrow> OdalState \<Rightarrow> u32 \<times> OdalState" where
  "NewAssetInstanceID r s =
    (let (i, g) = New r (assetInstanceIDs s) in (i, s\<lparr>assetInstanceIDs := g\<rparr>))"

definition SetAssetInstance :: "AssetInstance \<Rightarrow> OdalState \<Rightarrow> OdalState" where
  "SetAssetInstance ai s =
    s\<lparr>assetInstances := (assetInstances s)(ai_EntityId ai \<mapsto> ai)\<rparr>"

definition RemoveAssetInstance :: "u32 \<Rightarrow> OdalState \<Rightarrow> OdalState" where
  "RemoveAssetInstance entityID s =
    s\<lparr>assetInstances := (assetInstances s)(entityID := None)\<rparr>"

definition AssetInstance :: "u32 \<Rightarrow> OdalState \<Rightarrow> AssetInstance option" where
  "AssetInstance entityID s = assetInstances s entityID"

definition AssetInstances :: "u32 order \<Rightarrow> OdalState \<Rightarrow> AssetInstance list" where
  "AssetInstances r s = List.map_filter (assetInstances s) (r (dom (assetInstances s)))"

interpretation assets: keyed_table
  "\<lambda>s i. AssetInstance i s" SetAssetInstance ai_EntityId RemoveAssetInstance
  by unfold_locales
    (simp_all add: AssetInstance_def SetAssetInstance_def RemoveAssetInstance_def)

definition asset_entities :: "OdalState \<Rightarrow> u32 set" where
  "asset_entities s = dom (assetInstances s)"

lemma asset_entities_ops [simp]:
  "asset_entities newOdalState = {}"
  "asset_entities (SetAssetInstance ai s) = insert (ai_EntityId ai) (asset_entities s)"
  "asset_entities (RemoveAssetInstance i s) = asset_entities s - {i}"
  "asset_entities (snd (NewAssetInstanceID r s)) = asset_entities s"
  by (simp_all add: asset_entities_def newOdalState_def SetAssetInstance_def
      RemoveAssetInstance_def NewAssetInstanceID_def split: prod.splits)

text \<open>Instances are filed under their entity; their ids are distinct and covered.\<close>

definition odal_ok :: "nat \<Rightarrow> OdalState \<Rightarrow> bool" where
  "odal_ok n s \<longleftrightarrow>
    (\<forall>i ai. assetInstances s i = Some ai \<longrightarrow> ai_EntityId ai = i) \<and>
    covers n (assetInstanceIDs s) (ai_Id ` ran (assetInstances s)) \<and>
    (\<forall>i j ai aj. assetInstances s i = Some ai \<longrightarrow> assetInstances s j = Some aj \<longrightarrow>
      ai_Id ai = ai_Id aj \<longrightarrow> i = j)"

lemma odal_ok_new: "odal_ok n newOdalState"
  by (simp add: odal_ok_def newOdalState_def covers_def newGenerator_def)

lemma odal_ok_mono: "odal_ok n s \<Longrightarrow> n \<le> m \<Longrightarrow> odal_ok m s"
  by (auto simp: odal_ok_def intro: covers_mono)

lemma distinct_ids_update:
  assumes "\<And>i j a b. m i = Some a \<Longrightarrow> m j = Some b \<Longrightarrow> f a = f b \<Longrightarrow> i = j"
    and "\<And>i a. m i = Some a \<Longrightarrow> f a \<noteq> f v"
    and "(m(k \<mapsto> v)) i = Some a" and "(m(k \<mapsto> v)) j = Some b" and "f a = f b"
  shows "i = j"
  using assms by (metis fun_upd_apply option.inject)

lemma odal_ok_Set:
  assumes r: "range_ok r" and ok: "odal_ok n s" and n: "n < id_limit"
    and N: "NewAssetInstanceID r s = (i, s1)" and ai: "ai_Id ai = i"
  shows "odal_ok (Suc n) (SetAssetInstance ai s1)"
proof -
  obtain g where g: "New r (assetInstanceIDs s) = (i, g)" and s1: "s1 = s\<lparr>assetInstanceIDs := g\<rparr>"
    using N by (auto simp: NewAssetInstanceID_def split: prod.splits)
  let ?U = "ai_Id ` ran (assetInstances s)"
  let ?M = "(assetInstances s)(ai_EntityId ai \<mapsto> ai)"
  have a: "i \<notin> ?U" "covers (Suc n) g (insert i ?U)"
    using covers_alloc [OF r _ n g] ok by (auto simp: odal_ok_def)
  have S: "assetInstances (SetAssetInstance ai s1) = ?M" "assetInstanceIDs (SetAssetInstance ai s1) = g"
    by (simp_all add: SetAssetInstance_def s1)
  have "ai_Id ` ran ?M \<subseteq> insert i ?U"
    by (auto simp: ai ran_def split: if_splits)
  then have c: "covers (Suc n) g (ai_Id ` ran ?M)"
    by (rule covers_mono [OF a(2)]) simp
  have fresh: "ai_Id x \<noteq> ai_Id ai" if "assetInstances s j = Some x" for j x
    using a(1) that by (auto simp: ran_def ai)
  have inj: "j = k" if "assetInstances s j = Some x" "assetInstances s k = Some y" "ai_Id x = ai_Id y"
    for j k x y
    using ok that unfolding odal_ok_def by blast
  have key: "ai_EntityId x = j" if "?M j = Some x" for j x
    using that ok unfolding odal_ok_def by (metis fun_upd_apply option.inject)
  have inj': "j = k" if "?M j = Some x" "?M k = Some y" "ai_Id x = ai_Id y" for j k x y
    using inj fresh that by (rule distinct_ids_update [where f = ai_Id])
  show ?thesis unfolding odal_ok_def S using key c inj' by blast
qed

lemma odal_ok_Remove:
  assumes "odal_ok n s"
  shows "odal_ok n (RemoveAssetInstance i s)"
proof -
  have sub: "assetInstances (RemoveAssetInstance i s) j = Some x \<Longrightarrow> assetInstances s j = Some x" for j x
    by (simp add: RemoveAssetInstance_def split: if_splits)
  then have "ai_Id ` ran (assetInstances (RemoveAssetInstance i s)) \<subseteq> ai_Id ` ran (assetInstances s)"
    by (auto simp: ran_def)
  moreover have "covers n (assetInstanceIDs s) (ai_Id ` ran (assetInstances s))"
    using assms by (simp add: odal_ok_def)
  ultimately have "covers n (assetInstanceIDs s) (ai_Id ` ran (assetInstances (RemoveAssetInstance i s)))"
    using covers_mono order_refl by blast
  moreover have "assetInstanceIDs (RemoveAssetInstance i s) = assetInstanceIDs s"
    by (simp add: RemoveAssetInstance_def)
  ultimately show ?thesis
    using assms sub unfolding odal_ok_def by (simp only:) blast
qed

lemma set_AssetInstances:
  assumes "range_ok r"
  shows "set (AssetInstances r s) = ran (assetInstances s)"
  using assms by (simp add: AssetInstances_def set_map_filter_dom)

end
