(* ===== verification/Feature_Flags.thy ===== *)
theory Feature_Flags
imports Prelude
begin

text \<open>
  \<^verbatim>\<open>featureflag/featureflag.go\<close> and \<^verbatim>\<open>featureflag/flags.go\<close>: the
  set of flags that switch parts of the relay's answers off. A callback run by
  \<open>IfSet\<close> or \<open>IfNotSet\<close> is a function on the state it changes.
\<close>

type_synonym Flag = string
type_synonym FeatureFlag = "Flag set"

definition FlagDisableSessionState :: Flag where
  "FlagDisableSessionState = ''DISABLE_SESSION_STATE''"

definition FlagDisableParticipantJoinBroadcast :: Flag where
  "FlagDisableParticipantJoinBroadcast = ''DISABLE_PARTICIPANT_JOIN_BROADCAST''"

definition FlagDisableParticipantLeaveBroadcast :: Flag where
  "FlagDisableParticipantLeaveBroadcast = ''DISABLE_PARTICIPANT_LEAVE_BROADCAST''"

definition FlagDisableEntityAddBroadcast :: Flag where
  "FlagDisableEntityAddBroadcast = ''DISABLE_ENTITY_ADD_BROADCAST''"

definition FlagDisableEntityDeleteBroadcast :: Flag where
  "FlagDisableEntityDeleteBroadcast = ''DISABLE_ENTITY_DELETE_BROADCAST''"

definition FlagDisableEntityUpdatePoseBroadcast :: Flag where
  "FlagDisableEntityUpdatePoseBroadcast = ''DISABLE_ENTITY_UPDATE_POSE_BROADCAST''"

definition FlagDisableCustomMessageBroadcast :: Flag where
  "FlagDisableCustomMessageBroadcast = ''DISABLE_CUSTOM_MESSAGE_BROADCAST''"

definition FlagDisableEntityComponentAddBroadcast :: Flag where
  "FlagDisableEntityComponentAddBroadcast = ''DISABLE_ENTITY_COMPONENT_ADD_BROADCAST''"

definition FlagDisableEntityComponentUpdateBroadcast :: Flag where
  "FlagDisableEntityComponentUpdateBroadcast = ''DISABLE_ENTITY_COMPONENT_UPDATE_BROADCAST''"

definition FlagDisableEntityComponentDeleteBroadcast :: Flag where
  "FlagDisableEntityComponentDeleteBroadcast = ''DISABLE_ENTITY_COMPONENT_DELETE_BROADCAST''"

lemmas flag_defs =
  FlagDisableSessionState_def FlagDisableParticipantJoinBroadcast_def
  FlagDisableParticipantLeaveBroadcast_def FlagDisableEntityAddBroadcast_def
  FlagDisableEntityDeleteBroadcast_def FlagDisableEntityUpdatePoseBroadcast_def
  FlagDisableCustomMessageBroadcast_def FlagDisableEntityComponentAddBroadcast_def
  FlagDisableEntityComponentUpdateBroadcast_def FlagDisableEntityComponentDeleteBroadcast_def

text \<open>\<^verbatim>\<open>New\<close>: the loop that enters every listed flag.\<close>

definition newFlags :: "string list \<Rightarrow> FeatureFlag" where
  "newFlags flags = fold insert flags {}"

definition IfSet :: "FeatureFlag \<Rightarrow> Flag \<Rightarrow> ('w \<Rightarrow> 'w) \<Rightarrow> 'w \<Rightarrow> 'w" where
  "IfSet f flag act w = (if flag \<notin> f then w else act w)"

definition IfNotSet :: "FeatureFlag \<Rightarrow> Flag \<Rightarrow> ('w \<Rightarrow> 'w) \<Rightarrow> 'w \<Rightarrow> 'w" where
  "IfNotSet f flag act w = (if flag \<in> f then w else act w)"

lemma newFlags_set: "newFlags flags = set flags"
  by (simp add: newFlags_def union_set_fold [symmetric])

lemma IfSet_IfNotSet: "IfSet f flag act (IfNotSet f flag act w) = act w"
  by (simp add: IfSet_def IfNotSet_def)

lemma IfNotSet_cases:
  "(flag \<notin> f \<Longrightarrow> P (act w)) \<Longrightarrow> (flag \<in> f \<Longrightarrow> P w) \<Longrightarrow> P (IfNotSet f flag act w)"
  by (simp add: IfNotSet_def)

lemma IfNotSet_frame: "(\<And>w. g (act w) = g w) \<Longrightarrow> g (IfNotSet f flag act w) = g w"
  by (simp add: IfNotSet_def)

end
