(* ===== verification/World.thy ===== *)
theory World
imports Session_Inv Session_Store Signed_Latency Vikja_State Odal_State Feature_Flags
begin

text \<open>
  The state of a running server: the heap of sessions, the heap of participants, the store
  of sessions, the handler of each connection, the queue of messages of each connection
  (\<^verbatim>\<open>sendChan\<close>) and the channel of receipts. Heaps are total functions with a
  counter of the addresses in use, since a non-nil Go pointer is always valid.

  What the code takes from outside while it handles one message is the environment of that
  step: the feature flags, whether a message can be encoded, the order in which a map is
  ranged over, the reading of the clock, and a fresh UUID. Each step has its own. So are the
  conversions of the machine, and the grid that an insertion leaves behind which panics
  half-way or never ends.

  A module's three fields (session, participant, state) are written together by
  \<^verbatim>\<open>Init\<close> and by nothing else, so they are one optional pair of addresses here; the
  state object is the entry of the session's table of module states.
\<close>

record Env =
  FeatureFlags :: FeatureFlag
  encodes :: "Proto \<Rightarrow> bool"
  rangeU :: "u32 order"
  rangeS :: "string order"
  clockNow :: instant
  newUUID :: string
  clockReading :: "nat \<Rightarrow> instant"
  marshalLatency :: "LatencyData \<Rightarrow> bytes option"
  signData :: "bytes \<Rightarrow> string option"
  theMachine :: Machine
  rangeQ :: "qptr order"
  leftGrid :: RegularGrid

definition env_ok :: "Env \<Rightarrow> bool" where
  "env_ok e \<longleftrightarrow> range_ok (rangeU e) \<and> range_ok (rangeS e) \<and> range_ok (rangeQ e)"

lemma env_okD [simp]: "env_ok e \<Longrightarrow> range_ok (rangeU e)" "env_ok e \<Longrightarrow> range_ok (rangeS e)"
  "env_ok e \<Longrightarrow> range_ok (rangeQ e)"
  by (simp_all add: env_ok_def)

text \<open>The state of dagaz is its partition, which is never nil: it is set where the state is made.\<close>

datatype ModState = VikjaSt VikjaState | OdalSt OdalState | DagazSt RegularGrid

datatype ModuleKind = VikjaModule | OdalModule | DagazModule

record Module =
  m_kind :: ModuleKind
  m_current :: "(sptr \<times> pptr) option"

record RealtimeHandler =
  h_currentSession :: "sptr option"
  h_currentParticipant :: "pptr option"
  h_stopFrameHandling :: "(sptr \<times> u32) option"
  h_Modules :: "Module list"
  h_clientID :: string
  h_appKey :: string

text \<open>
  The loop of \<^verbatim>\<open>handler.Handle\<close> for one connection. While it runs, it has a
  channel of pending disconnections, of which only the length matters. It may block for ever
  on that channel or in a handler that never returns, die of a panic, or end.
\<close>

datatype loop = NotStarted | Running nat | Blocked | Crashed | Ended

record world =
  w_sess :: "sptr \<Rightarrow> ModState Session"
  w_part :: "pptr \<Rightarrow> Participant"
  w_nextS :: nat
  w_nextP :: nat
  w_nextC :: nat
  w_store :: SessionStore
  w_hand :: "conn \<Rightarrow> RealtimeHandler"
  w_loop :: "conn \<Rightarrow> loop"
  w_out :: queues
  w_receipts :: "ReceiptPayload list"
  w_latency :: "pptr \<Rightarrow> SignedLatency"

section \<open>Elementary changes of the state\<close>

definition upd_sess ::
  "sptr \<Rightarrow> (ModState Session \<Rightarrow> ModState Session) \<Rightarrow> world \<Rightarrow> world" where
  "upd_sess sp f w = w\<lparr>w_sess := (w_sess w)(sp := f (w_sess w sp))\<rparr>"

definition upd_part :: "pptr \<Rightarrow> (Participant \<Rightarrow> Participant) \<Rightarrow> world \<Rightarrow> world" where
  "upd_part pp f w = w\<lparr>w_part := (w_part w)(pp := f (w_part w pp))\<rparr>"

definition upd_hand :: "conn \<Rightarrow> (RealtimeHandler \<Rightarrow> RealtimeHandler) \<Rightarrow> world \<Rightarrow> world" where
  "upd_hand c f w = w\<lparr>w_hand := (w_hand w)(c := f (w_hand w c))\<rparr>"

text \<open>
  \<^verbatim>\<open>responseSender.Send\<close>, that is \<^verbatim>\<open>handler.send\<close>: a message that cannot be encoded
  is logged and dropped, any other enters the queue of the connection.
\<close>

definition respond :: "Env \<Rightarrow> conn \<Rightarrow> Proto \<Rightarrow> world \<Rightarrow> world" where
  "respond e c m w = (if \<not> encodes e m then w else w\<lparr>w_out := enqueue c m (w_out w)\<rparr>)"

definition broadcast :: "Env \<Rightarrow> sptr \<Rightarrow> pptr \<Rightarrow> Proto \<Rightarrow> world \<Rightarrow> world" where
  "broadcast e sp sender m w =
    w\<lparr>w_out := Broadcast (encodes e) (w_part w) (rangeU e) sender m (w_sess w sp) (w_out w)\<rparr>"

definition broadcast_to :: "Env \<Rightarrow> sptr \<Rightarrow> pptr \<Rightarrow> Proto \<Rightarrow> u32 list \<Rightarrow> world \<Rightarrow> world" where
  "broadcast_to e sp sender m ids w =
    w\<lparr>w_out := BroadcastTo (encodes e) (w_part w) sender m ids (w_sess w sp) (w_out w)\<rparr>"

definition reply_error :: "Env \<Rightarrow> conn \<Rightarrow> u32 \<Rightarrow> ErrorCode \<Rightarrow> world \<Rightarrow> world" where
  "reply_error e c rid code = respond e c (ErrorResponse rid code)"

definition upd_latency :: "pptr \<Rightarrow> SignedLatency \<Rightarrow> world \<Rightarrow> world" where
  "upd_latency pp s w = w\<lparr>w_latency := (w_latency w)(pp := s)\<rparr>"

text \<open>The messages of a measurement, sent through the responder it was started with.\<close>

definition send_all :: "Env \<Rightarrow> conn \<Rightarrow> Proto list \<Rightarrow> world \<Rightarrow> world" where
  "send_all e c ms w = fold (respond e c) ms w"

text \<open>Sending touches the queues only.\<close>

definition quiet :: "(world \<Rightarrow> world) \<Rightarrow> bool" where
  "quiet f \<longleftrightarrow> (\<forall>w. \<exists>q. f w = w\<lparr>w_out := q\<rparr>)"

lemma quiet_respond: "quiet (respond e c m)"
  unfolding quiet_def
proof
  fix w :: world
  have "respond e c m w = w\<lparr>w_out := w_out (respond e c m w)\<rparr>"
    by (simp add: respond_def)
  then show "\<exists>q. respond e c m w = w\<lparr>w_out := q\<rparr>" by blast
qed

lemma quiet_broadcast: "quiet (broadcast e sp sender m)"
  by (auto simp: quiet_def broadcast_def)

lemma quiet_broadcast_to: "quiet (broadcast_to e sp sender m ids)"
  by (auto simp: quiet_def broadcast_to_def)

lemma quiet_reply_error: "quiet (reply_error e c rid code)"
  by (simp add: reply_error_def quiet_respond)

lemma quiet_send_all: "quiet (send_all e c ms)"
proof -
  have "\<exists>q. fold (respond e c) ms w = w\<lparr>w_out := q\<rparr>" for w
  proof (induction ms arbitrary: w)
    case Nil
    have "fold (respond e c) [] w = w\<lparr>w_out := w_out w\<rparr>" by simp
    then show ?case by blast
  next
    case (Cons m ms)
    obtain q where "respond e c m w = w\<lparr>w_out := q\<rparr>"
      using quiet_respond unfolding quiet_def by blast
    moreover obtain q' where "fold (respond e c) ms (w\<lparr>w_out := q\<rparr>) = w\<lparr>w_out := q, w_out := q'\<rparr>"
      using Cons by blast
    ultimately show ?case by auto
  qed
  then show ?thesis by (simp add: quiet_def send_all_def)
qed

lemma quiet_IfNotSet:
  assumes "quiet f"
  shows "quiet (IfNotSet fl g f)"
  unfolding quiet_def
proof
  fix w :: world
  have "w = w\<lparr>w_out := w_out w\<rparr>" by simp
  then show "\<exists>q. IfNotSet fl g f w = w\<lparr>w_out := q\<rparr>"
    using assms unfolding quiet_def IfNotSet_def by metis
qed

lemma quiet_frame:
  assumes "quiet f"
  shows "w_sess (f w) = w_sess w" "w_part (f w) = w_part w" "w_nextS (f w) = w_nextS w"
    "w_nextP (f w) = w_nextP w" "w_nextC (f w) = w_nextC w" "w_store (f w) = w_store w"
    "w_hand (f w) = w_hand w" "w_loop (f w) = w_loop w" "w_receipts (f w) = w_receipts w"
    "w_latency (f w) = w_latency w"
proof -
  obtain q where "f w = w\<lparr>w_out := q\<rparr>" using assms unfolding quiet_def by blast
  then show "w_sess (f w) = w_sess w" "w_part (f w) = w_part w" "w_nextS (f w) = w_nextS w"
    "w_nextP (f w) = w_nextP w" "w_nextC (f w) = w_nextC w" "w_store (f w) = w_store w"
    "w_hand (f w) = w_hand w" "w_loop (f w) = w_loop w" "w_receipts (f w) = w_receipts w"
    "w_latency (f w) = w_latency w"
    by simp_all
qed

lemmas respond_frame [simp] = quiet_frame [OF quiet_respond]
lemmas reply_error_frame [simp] = quiet_frame [OF quiet_reply_error]
lemmas broadcast_frame [simp] = quiet_frame [OF quiet_broadcast]
lemmas broadcast_to_frame [simp] = quiet_frame [OF quiet_broadcast_to]
lemmas send_all_frame [simp] = quiet_frame [OF quiet_send_all]

lemma upd_latency_frame [simp]:
  "w_latency (upd_latency pp s w) = (w_latency w)(pp := s)"
  "w_sess (upd_latency pp s w) = w_sess w"
  "w_part (upd_latency pp s w) = w_part w"
  "w_nextS (upd_latency pp s w) = w_nextS w"
  "w_nextP (upd_latency pp s w) = w_nextP w"
  "w_nextC (upd_latency pp s w) = w_nextC w"
  "w_store (upd_latency pp s w) = w_store w"
  "w_hand (upd_latency pp s w) = w_hand w"
  "w_loop (upd_latency pp s w) = w_loop w"
  "w_out (upd_latency pp s w) = w_out w"
  "w_receipts (upd_latency pp s w) = w_receipts w"
  by (simp_all add: upd_latency_def)

lemma upd_sess_frame [simp]:
  "w_sess (upd_sess sp f w) = (w_sess w)(sp := f (w_sess w sp))"
  "w_part (upd_sess sp f w) = w_part w"
  "w_nextS (upd_sess sp f w) = w_nextS w"
  "w_nextP (upd_sess sp f w) = w_nextP w"
  "w_nextC (upd_sess sp f w) = w_nextC w"
  "w_store (upd_sess sp f w) = w_store w"
  "w_hand (upd_sess sp f w) = w_hand w"
  "w_loop (upd_sess sp f w) = w_loop w"
  "w_out (upd_sess sp f w) = w_out w"
  "w_receipts (upd_sess sp f w) = w_receipts w"
  "w_latency (upd_sess sp f w) = w_latency w"
  by (simp_all add: upd_sess_def)

lemma upd_part_frame [simp]:
  "w_part (upd_part pp g w) = (w_part w)(pp := g (w_part w pp))"
  "w_sess (upd_part pp g w) = w_sess w"
  "w_nextS (upd_part pp g w) = w_nextS w"
  "w_nextP (upd_part pp g w) = w_nextP w"
  "w_nextC (upd_part pp g w) = w_nextC w"
  "w_store (upd_part pp g w) = w_store w"
  "w_hand (upd_part pp g w) = w_hand w"
  "w_loop (upd_part pp g w) = w_loop w"
  "w_out (upd_part pp g w) = w_out w"
  "w_receipts (upd_part pp g w) = w_receipts w"
  "w_latency (upd_part pp g w) = w_latency w"
  by (simp_all add: upd_part_def)

lemma upd_hand_frame [simp]:
  "w_hand (upd_hand c h w) = (w_hand w)(c := h (w_hand w c))"
  "w_sess (upd_hand c h w) = w_sess w"
  "w_part (upd_hand c h w) = w_part w"
  "w_nextS (upd_hand c h w) = w_nextS w"
  "w_nextP (upd_hand c h w) = w_nextP w"
  "w_nextC (upd_hand c h w) = w_nextC w"
  "w_store (upd_hand c h w) = w_store w"
  "w_loop (upd_hand c h w) = w_loop w"
  "w_out (upd_hand c h w) = w_out w"
  "w_receipts (upd_hand c h w) = w_receipts w"
  "w_latency (upd_hand c h w) = w_latency w"
  by (simp_all add: upd_hand_def)

section \<open>The contract of a module\<close>

text \<open>
  \<open>touches sp w w'\<close>: from \<open>w\<close> to \<open>w'\<close> only module states of the session \<open>sp\<close> and
  queues of messages changed. This is all a module may do.
\<close>

definition touches :: "sptr \<Rightarrow> world \<Rightarrow> world \<Rightarrow> bool" where
  "touches sp w w' \<longleftrightarrow>
    (\<exists>ms q. w' = w\<lparr>w_sess := (w_sess w)(sp := (w_sess w sp)\<lparr>s_moduleStates := ms\<rparr>), w_out := q\<rparr>)"

lemma touches_refl [simp]: "touches sp w w"
proof -
  have "w = w\<lparr>w_sess := (w_sess w)(sp := (w_sess w sp)\<lparr>s_moduleStates := s_moduleStates (w_sess w sp)\<rparr>),
      w_out := w_out w\<rparr>" by simp
  then show ?thesis unfolding touches_def by blast
qed

lemma touches_trans [trans]: "touches sp w w' \<Longrightarrow> touches sp w' w'' \<Longrightarrow> touches sp w w''"
  unfolding touches_def by (elim exE) (simp, blast)

lemma touches_quiet:
  assumes "quiet f"
  shows "touches sp w (f w)"
proof -
  obtain q where "f w = w\<lparr>w_out := q\<rparr>" using assms unfolding quiet_def by blast
  then have "f w = w\<lparr>w_sess := (w_sess w)(sp := (w_sess w sp)\<lparr>s_moduleStates := s_moduleStates (w_sess w sp)\<rparr>),
      w_out := q\<rparr>" by simp
  then show ?thesis unfolding touches_def by blast
qed

lemma touches_SetModuleState: "touches sp w (upd_sess sp (\<lambda>s. SetModuleState name (g s) s) w)"
proof -
  have "upd_sess sp (\<lambda>s. SetModuleState name (g s) s) w =
      w\<lparr>w_sess := (w_sess w)(sp := (w_sess w sp)\<lparr>s_moduleStates :=
        (s_moduleStates (w_sess w sp))(name \<mapsto> g (w_sess w sp))\<rparr>), w_out := w_out w\<rparr>"
    by (simp add: upd_sess_def SetModuleState_def)
  then show ?thesis unfolding touches_def by blast
qed

lemma touchesD:
  assumes "touches sp w w'"
  shows "w_part w' = w_part w" "w_nextS w' = w_nextS w" "w_nextP w' = w_nextP w"
    "w_nextC w' = w_nextC w" "w_store w' = w_store w" "w_hand w' = w_hand w"
    "w_loop w' = w_loop w" "w_receipts w' = w_receipts w"
    "sp' \<noteq> sp \<Longrightarrow> w_sess w' sp' = w_sess w sp'"
    "w_sess w' sp = (w_sess w sp)\<lparr>s_moduleStates := s_moduleStates (w_sess w' sp)\<rparr>"
    "w_latency w' = w_latency w"
  using assms unfolding touches_def by auto

lemma touches_session:
  assumes "touches sp w w'"
  shows "s_entities (w_sess w' p) = s_entities (w_sess w p)"
    and "s_participants (w_sess w' p) = s_participants (w_sess w p)"
    and "s_frameHandlers (w_sess w' p) = s_frameHandlers (w_sess w p)"
    and "s_entityComponents (w_sess w' p) = s_entityComponents (w_sess w p)"
    and "s_ID (w_sess w' p) = s_ID (w_sess w p)"
    and "s_AppKey (w_sess w' p) = s_AppKey (w_sess w p)"
    and "s_closeOnce (w_sess w' p) = s_closeOnce (w_sess w p)"
    and "sess_ok n H (w_sess w' p) = sess_ok n H (w_sess w p)"
proof -
  obtain ms q where w': "w' = w\<lparr>w_sess := (w_sess w)(sp := (w_sess w sp)\<lparr>s_moduleStates := ms\<rparr>), w_out := q\<rparr>"
    using assms unfolding touches_def by blast
  then show "s_entities (w_sess w' p) = s_entities (w_sess w p)"
    "s_participants (w_sess w' p) = s_participants (w_sess w p)"
    "s_frameHandlers (w_sess w' p) = s_frameHandlers (w_sess w p)"
    "s_entityComponents (w_sess w' p) = s_entityComponents (w_sess w p)"
    "s_ID (w_sess w' p) = s_ID (w_sess w p)"
    "s_AppKey (w_sess w' p) = s_AppKey (w_sess w p)"
    "s_closeOnce (w_sess w' p) = s_closeOnce (w_sess w p)"
    by simp_all
  show "sess_ok n H (w_sess w' p) = sess_ok n H (w_sess w p)"
    by (rule sess_ok_cong; simp add: w')
qed

lemma touches_fold:
  assumes "\<And>x w. touches sp w (f x w)"
  shows "touches sp w (fold f xs w)"
  by (induction xs arbitrary: w) (auto intro: touches_trans assms)

text \<open>
  The interface \<^verbatim>\<open>modules.Module\<close> with what the relay relies on. \<open>keys\<close> are the
  entities that the module's state of a session mentions. A module keeps to its own state:
  it adds keys of existing entities only, it drops the key of a deleted entity when it sees
  the request, and on a disconnection it drops the keys of the entities that go with the
  participant.
\<close>

definition leaving :: "world \<Rightarrow> sptr \<Rightarrow> pptr \<Rightarrow> u32 set" where
  "leaving w sp pp =
    {i \<in> EntityIDs (w_part w pp).
      case EntityByID i (w_sess w sp) of None \<Rightarrow> True | Some en \<Rightarrow> \<not> e_Persist en}"

locale relay_module =
  fixes name :: string
    and keys :: "ModState Session \<Rightarrow> u32 set"
    and Init :: "sptr \<Rightarrow> pptr \<Rightarrow> Module \<Rightarrow> world \<Rightarrow> Module \<times> outcome \<times> world"
    and HandleMsg :: "Env \<Rightarrow> conn \<Rightarrow> Module \<Rightarrow> Msg \<Rightarrow> world \<Rightarrow> outcome \<times> world"
    and HandleDisconnect :: "Env \<Rightarrow> Module \<Rightarrow> world \<Rightarrow> world"
  assumes keys_own: "s_moduleStates s name = s_moduleStates s' name \<Longrightarrow> keys s = keys s'"
    and Init_touches: "touches sp w (snd (snd (Init sp pp m w)))"
    and Init_other: "n \<noteq> name \<Longrightarrow>
      s_moduleStates (w_sess (snd (snd (Init sp pp m w))) sp') n = s_moduleStates (w_sess w sp') n"
    and Init_keys: "keys (w_sess (snd (snd (Init sp pp m w))) sp) \<subseteq> keys (w_sess w sp)"
    and Msg_touches: "m_current m = Some (sp, pp) \<Longrightarrow> touches sp w (snd (HandleMsg e c m msg w))"
    and Msg_other: "n \<noteq> name \<Longrightarrow>
      s_moduleStates (w_sess (snd (HandleMsg e c m msg w)) sp') n = s_moduleStates (w_sess w sp') n"
    and Msg_keys: "m_current m = Some (sp, pp) \<Longrightarrow> keys_ok (w_sess w sp) \<Longrightarrow>
      keys (w_sess (snd (HandleMsg e c m msg w)) sp) \<subseteq>
        keys (w_sess w sp) \<union> dom (s_entities (w_sess w sp))"
    and Msg_delete: "m_current m = Some (sp, pp) \<Longrightarrow> msg = EntityDeleteRequest (Inr req) \<Longrightarrow>
      EntityByID (edel_EntityId req) (w_sess w sp) = None \<Longrightarrow>
      keys (w_sess (snd (HandleMsg e c m msg w)) sp) \<subseteq> keys (w_sess w sp) - {edel_EntityId req}"
    and Disc_touches: "m_current m = Some (sp, pp) \<Longrightarrow> touches sp w (HandleDisconnect e m w)"
    and Disc_other: "n \<noteq> name \<Longrightarrow>
      s_moduleStates (w_sess (HandleDisconnect e m w) sp') n = s_moduleStates (w_sess w sp') n"
    and Disc_keys: "env_ok e \<Longrightarrow> m_current m = Some (sp, pp) \<Longrightarrow>
      keys (w_sess (HandleDisconnect e m w) sp) \<subseteq> keys (w_sess w sp) - leaving w sp pp"
begin

text \<open>A session is tidy when the module's state mentions its entities only.\<close>

definition tidy :: "ModState Session \<Rightarrow> bool" where
  "tidy s \<longleftrightarrow> keys s \<subseteq> dom (s_entities s)"

lemma tidy_Init:
  assumes "tidy (w_sess w sp)"
  shows "tidy (w_sess (snd (snd (Init sp pp m w))) sp)"
  using assms Init_keys [where w = w and sp = sp and pp = pp and m = m]
    touches_session(1) [OF Init_touches [where w = w and sp = sp and pp = pp and m = m], of sp]
  unfolding tidy_def by auto

lemma tidy_Msg:
  assumes "m_current m = Some (sp, pp)" and "keys_ok (w_sess w sp)" and "tidy (w_sess w sp)"
  shows "tidy (w_sess (snd (HandleMsg e c m msg w)) sp)"
  using assms(3) Msg_keys [OF assms(1,2), where e = e and c = c and msg = msg]
    touches_session(1) [OF Msg_touches [OF assms(1), where w = w and e = e and c = c and msg = msg], of sp]
  unfolding tidy_def by auto

text \<open>When the core has deleted the entity, the module tidies up after it.\<close>

lemma tidy_delete:
  assumes "m_current m = Some (sp, pp)" and "msg = EntityDeleteRequest (Inr req)"
    and "EntityByID (edel_EntityId req) (w_sess w sp) = None"
    and "keys (w_sess w sp) \<subseteq> insert (edel_EntityId req) (dom (s_entities (w_sess w sp)))"
  shows "tidy (w_sess (snd (HandleMsg e c m msg w)) sp)"
  using assms(4) Msg_delete [OF assms(1-3), where e = e and c = c]
    touches_session(1) [OF Msg_touches [OF assms(1), where w = w and e = e and c = c and msg = msg], of sp]
  unfolding tidy_def by auto

end

end
