(* ===== verification/Odal.thy ===== *)
theory Odal
imports World
begin

text \<open>
  \<^verbatim>\<open>modules/odal/odal.go\<close>: the module that keeps one asset instance per entity. The
  state of the module in a session is the entry \<^verbatim>\<open>odal\<close> of its module states;
  \<open>odal_in\<close> reads it and \<open>upd_odal\<close> changes it in place. Proved here: that the module
  implements the contract of a module, and which states a message can lead to.
\<close>

section \<open>The module\<close>

definition Odal_Name :: string where
  "Odal_Name = ''odal''"

definition odal_in :: "ModState Session \<Rightarrow> OdalState" where
  "odal_in s = (case ModuleState Odal_Name s of Some (OdalSt st) \<Rightarrow> st | _ \<Rightarrow> newOdalState)"

definition upd_odal :: "sptr \<Rightarrow> (OdalState \<Rightarrow> OdalState) \<Rightarrow> world \<Rightarrow> world" where
  "upd_odal sp f = upd_sess sp (\<lambda>s. SetModuleState Odal_Name (OdalSt (f (odal_in s))) s)"

definition Odal_Init :: "sptr \<Rightarrow> pptr \<Rightarrow> Module \<Rightarrow> world \<Rightarrow> Module \<times> outcome \<times> world" where
  "Odal_Init sp pp m w =
    (let m' = m\<lparr>m_current := Some (sp, pp)\<rparr>
     in case ModuleState Odal_Name (w_sess w sp) of
          None \<Rightarrow>
            (m', Nil_error, upd_sess sp (\<lambda>s. SetModuleState Odal_Name (OdalSt newOdalState) s) w)
        | Some (OdalSt st) \<Rightarrow> (m', Nil_error, w)
        | Some _ \<Rightarrow> (m', Panicked, w))"

definition Odal_handleParticipantJoin ::
  "Env \<Rightarrow> conn \<Rightarrow> Module \<Rightarrow> world \<Rightarrow> outcome \<times> world" where
  "Odal_handleParticipantJoin e c m w =
    (case m_current m of
       None \<Rightarrow> (Panicked, w)
     | Some (sp, pp) \<Rightarrow>
         (Nil_error, respond e c (OdalMessage (OdalState
            (AssetInstances (rangeU e) (odal_in (w_sess w sp))))) w))"

definition Odal_handleEntityDelete ::
  "Module \<Rightarrow> EntityDeleteReq decoded \<Rightarrow> world \<Rightarrow> outcome \<times> world" where
  "Odal_handleEntityDelete m data w =
    (case data of
       Inl err \<Rightarrow> (Failed err, w)
     | Inr req \<Rightarrow>
        (case m_current m of
           None \<Rightarrow> (Panicked, w)
         | Some (sp, pp) \<Rightarrow>
             (Nil_error,
              if EntityByID (edel_EntityId req) (w_sess w sp) = None
              then upd_odal sp (RemoveAssetInstance (edel_EntityId req)) w
              else w)))"

definition Odal_handleAssetInstanceAdd ::
  "Env \<Rightarrow> conn \<Rightarrow> Module \<Rightarrow> AssetReq decoded \<Rightarrow> world \<Rightarrow> outcome \<times> world" where
  "Odal_handleAssetInstanceAdd e c m data w =
    (case data of
       Inl err \<Rightarrow> (Failed err, w)
     | Inr req \<Rightarrow>
        (case m_current m of
           None \<Rightarrow> (Failed ErrSessionNotJoined, w)
         | Some (sp, pp) \<Rightarrow>
            if asset_AssetId req = ''''
            then (Nil_error, reply_error e c (asset_RequestId req) BAD_REQUEST w)
            else case EntityByID (asset_EntityId req) (w_sess w sp) of
              None \<Rightarrow> (Nil_error, reply_error e c (asset_RequestId req) NOT_FOUND w)
            | Some entity \<Rightarrow>
                if e_ParticipantID entity \<noteq> p_ID (w_part w pp)
                then (Nil_error, reply_error e c (asset_RequestId req) UNAUTHORIZED w)
                else
                  (let (i, st) = NewAssetInstanceID (rangeU e) (odal_in (w_sess w sp));
                       ai = \<lparr>ai_Id = i, ai_AssetId = asset_AssetId req,
                             ai_ParticipantId = p_ID (w_part w pp), ai_EntityId = e_ID entity\<rparr>
                   in (Nil_error,
                       broadcast e sp pp
                         (OdalMessage (OdalAssetInstanceAddBroadcast (asset_Timestamp req) ai))
                         (respond e c
                           (OdalMessage (OdalAssetInstanceAddResponse (asset_RequestId req) i))
                           (upd_odal sp (\<lambda>_. SetAssetInstance ai st) w))))))"

definition Odal_HandleMsg ::
  "Env \<Rightarrow> conn \<Rightarrow> Module \<Rightarrow> Msg \<Rightarrow> world \<Rightarrow> outcome \<times> world" where
  "Odal_HandleMsg e c m msg w =
    (case msg of
       ParticipantJoinRequest data \<Rightarrow> Odal_handleParticipantJoin e c m w
     | EntityDeleteRequest data \<Rightarrow> Odal_handleEntityDelete m data w
     | OdalAssetInstanceAddRequest data \<Rightarrow> Odal_handleAssetInstanceAdd e c m data w
     | _ \<Rightarrow> (Failed ErrModuleMsgSkip, w))"

definition Odal_HandleDisconnect :: "Env \<Rightarrow> Module \<Rightarrow> world \<Rightarrow> world" where
  "Odal_HandleDisconnect e m w =
    (case m_current m of
       None \<Rightarrow> w
     | Some (sp, pp) \<Rightarrow>
         fold (\<lambda>i w. if (case EntityByID i (w_sess w sp) of
                           None \<Rightarrow> True | Some en \<Rightarrow> \<not> e_Persist en)
                     then upd_odal sp (RemoveAssetInstance i) w else w)
           (rangeU e (EntityIDs (w_part w pp))) w)"

section \<open>Own state\<close>

lemma odal_in_Set [simp]:
  "odal_in (SetModuleState Odal_Name (OdalSt st) s) = st"
  "n \<noteq> Odal_Name \<Longrightarrow> odal_in (SetModuleState n ms s) = odal_in s"
  by (simp_all add: odal_in_def ModuleState_def SetModuleState_def)

lemma upd_odal_frame [simp]:
  "w_part (upd_odal sp f w) = w_part w"
  "sp' \<noteq> sp \<Longrightarrow> w_sess (upd_odal sp f w) sp' = w_sess w sp'"
  "odal_in (w_sess (upd_odal sp f w) sp) = f (odal_in (w_sess w sp))"
  "s_entities (w_sess (upd_odal sp f w) sp') = s_entities (w_sess w sp')"
  "n \<noteq> Odal_Name \<Longrightarrow>
    s_moduleStates (w_sess (upd_odal sp f w) sp') n = s_moduleStates (w_sess w sp') n"
  "w_out (upd_odal sp f w) = w_out w"
  by (simp_all add: upd_odal_def) (simp_all add: SetModuleState_def)

lemma EntityByID_upd_odal [simp]:
  "EntityByID i (w_sess (upd_odal sp f w) sp') = EntityByID i (w_sess w sp')"
  by (simp add: EntityByID_def)

lemma touches_upd_odal: "touches sp w (upd_odal sp f w)"
  unfolding upd_odal_def by (rule touches_SetModuleState)

lemma touches_odal_sends:
  "touches sp w (broadcast e sp pp m (respond e c m' (upd_odal sp f w)))"
  by (meson touches_trans touches_upd_odal touches_quiet quiet_respond quiet_broadcast)

lemma Odal_disconnect_loop:
  "odal_in (w_sess (fold (\<lambda>i w. if (case EntityByID i (w_sess w sp) of
          None \<Rightarrow> True | Some en \<Rightarrow> \<not> e_Persist en)
        then upd_odal sp (RemoveAssetInstance i) w else w) ids w) sp) =
    fold (\<lambda>i st. if (case EntityByID i (w_sess w sp) of
          None \<Rightarrow> True | Some en \<Rightarrow> \<not> e_Persist en)
        then RemoveAssetInstance i st else st) ids (odal_in (w_sess w sp))"
proof (induction ids arbitrary: w)
  case Nil
  then show ?case by simp
next
  case (Cons i ids)
  then show ?case by (simp del: fun_upd_apply)
qed

text \<open>The loop of \<^verbatim>\<open>HandleDisconnect\<close> drops the assets of the entities that leave.\<close>

lemma asset_entities_loop:
  "asset_entities (fold (\<lambda>i st. if Q i then RemoveAssetInstance i st else st) ids st) =
    asset_entities st - {i \<in> set ids. Q i}"
  using assets.dom_del_loop [of Q ids st] by (simp add: asset_entities_def AssetInstance_def)

lemma Odal_disconnect_keys:
  assumes "env_ok e" and "m_current m = Some (sp, pp)"
  shows "asset_entities (odal_in (w_sess (Odal_HandleDisconnect e m w) sp)) =
    asset_entities (odal_in (w_sess w sp)) - leaving w sp pp"
proof -
  have "finite (EntityIDs (w_part w pp))" by (rule finite)
  with assms show ?thesis
    by (simp add: Odal_HandleDisconnect_def Odal_disconnect_loop asset_entities_loop leaving_def)
qed

section \<open>The contract\<close>

lemma Odal_Init_touches: "touches sp w (snd (snd (Odal_Init sp pp m w)))"
  by (simp add: Odal_Init_def Let_def touches_SetModuleState split: option.split ModState.split)

lemma Odal_Msg_touches:
  "m_current m = Some (sp, pp) \<Longrightarrow> touches sp w (snd (Odal_HandleMsg e c m msg w))"
  by (simp add: Odal_HandleMsg_def Odal_handleParticipantJoin_def Odal_handleEntityDelete_def
      Odal_handleAssetInstanceAdd_def Let_def touches_quiet quiet_respond quiet_reply_error
      touches_upd_odal touches_odal_sends
      split: Msg.split sum.split option.split prod.split)

lemma Odal_Msg_other:
  "n \<noteq> Odal_Name \<Longrightarrow>
    s_moduleStates (w_sess (snd (Odal_HandleMsg e c m msg w)) sp') n = s_moduleStates (w_sess w sp') n"
  by (simp add: Odal_HandleMsg_def Odal_handleParticipantJoin_def Odal_handleEntityDelete_def
      Odal_handleAssetInstanceAdd_def Let_def
      split: Msg.split sum.split option.split prod.split)

text \<open>What a message can make of the state: nothing, a removal, or one new asset of an
  entity of the session.\<close>

lemma Odal_Msg_state:
  assumes "m_current m = Some (sp, pp)"
  shows "odal_in (w_sess (snd (Odal_HandleMsg e c m msg w)) sp) = odal_in (w_sess w sp) \<or>
    (\<exists>req. msg = EntityDeleteRequest (Inr req) \<and> EntityByID (edel_EntityId req) (w_sess w sp) = None \<and>
      odal_in (w_sess (snd (Odal_HandleMsg e c m msg w)) sp) =
        RemoveAssetInstance (edel_EntityId req) (odal_in (w_sess w sp))) \<or>
    (\<exists>j en aid i st. EntityByID j (w_sess w sp) = Some en \<and>
      NewAssetInstanceID (rangeU e) (odal_in (w_sess w sp)) = (i, st) \<and>
      odal_in (w_sess (snd (Odal_HandleMsg e c m msg w)) sp) =
        SetAssetInstance \<lparr>ai_Id = i, ai_AssetId = aid, ai_ParticipantId = p_ID (w_part w pp),
          ai_EntityId = e_ID en\<rparr> st)"
proof (cases "\<exists>data. msg = OdalAssetInstanceAddRequest data")
  case False
  then show ?thesis
    using assms
    by (auto simp: Odal_HandleMsg_def Odal_handleParticipantJoin_def Odal_handleEntityDelete_def
        split: Msg.split sum.split)
next
  case True
  then obtain data where msg: "msg = OdalAssetInstanceAddRequest data" by blast
  obtain i st where N: "NewAssetInstanceID (rangeU e) (odal_in (w_sess w sp)) = (i, st)"
    by (metis prod.exhaust)
  show ?thesis
    using assms N
    by (auto simp: msg Odal_HandleMsg_def Odal_handleAssetInstanceAdd_def Let_def
        split: sum.split option.split)
qed

lemma Odal_Disc_other:
  assumes "n \<noteq> Odal_Name"
  shows "s_moduleStates (w_sess (Odal_HandleDisconnect e m w) sp') n = s_moduleStates (w_sess w sp') n"
proof (cases "m_current m")
  case (Some a)
  obtain sp pp where a: "a = (sp, pp)" by (cases a)
  show ?thesis
    unfolding Odal_HandleDisconnect_def Some a option.case prod.case
    by (rule fold_frame [where g = "\<lambda>w. s_moduleStates (w_sess w sp') n"]) (simp add: assms)
qed (simp add: Odal_HandleDisconnect_def)

lemma Odal_Disc_touches:
  assumes "m_current m = Some (sp, pp)"
  shows "touches sp w (Odal_HandleDisconnect e m w)"
  unfolding Odal_HandleDisconnect_def assms option.case prod.case
  by (rule touches_fold) (simp add: touches_upd_odal)

text \<open>The new asset is filed under the id that the entity carries, so the contract asks
  for entities filed under their own ids.\<close>

interpretation odal: relay_module Odal_Name "\<lambda>s. asset_entities (odal_in s)"
  Odal_Init Odal_HandleMsg Odal_HandleDisconnect
proof (unfold_locales, goal_cases)
  case (1 s s')
  then show ?case by (simp add: odal_in_def ModuleState_def)
next
  case (3 n sp pp m w sp')
  then show ?case
    by (simp add: Odal_Init_def Let_def SetModuleState_def split: option.split ModState.split)
next
  case (4 w sp pp m)
  then show ?case
    by (simp add: Odal_Init_def Let_def split: option.split ModState.split)
next
  case (7 m sp pp w e c msg)
  have "e_ID en = j" if "EntityByID j (w_sess w sp) = Some en" for j en
    using that keys_okD [OF 7(2)] by (simp add: EntityByID_def)
  moreover have "asset_entities st = asset_entities (odal_in (w_sess w sp))"
    if "NewAssetInstanceID (rangeU e) (odal_in (w_sess w sp)) = (i, st)" for i st
    using that by (metis asset_entities_ops(4) snd_conv)
  ultimately show ?case
    using Odal_Msg_state [OF 7(1), of e c msg w] by (auto simp: EntityByID_def)
next
  case (8 m sp pp msg req w e c)
  then show ?case
    by (simp add: Odal_HandleMsg_def Odal_handleEntityDelete_def)
next
  case (11 e m sp pp w)
  then show ?case by (simp add: Odal_disconnect_keys)
qed (simp_all add: Odal_Init_touches Odal_Msg_touches Odal_Msg_other Odal_Disc_other Odal_Disc_touches)

end
