(* ===== verification/Dagaz.thy ===== *)
theory Dagaz
imports World
begin

text \<open>
  \<^verbatim>\<open>modules/dagaz/dagaz.go\<close> and \<^verbatim>\<open>modules/dagaz/state.go\<close>: the module that keeps the
  ground planes of a session in a grid. The state of the module in a session is the entry
  \<^verbatim>\<open>dagaz\<close> of its module states; \<open>grid_in\<close> reads it and \<open>set_grid\<close> replaces it. The grid of an
  insertion that panics half-way, or never ends, is any grid: it comes from the environment.
  Proved here: that the module implements the contract of a module.
\<close>

section \<open>The module\<close>

definition Dagaz_Name :: string where
  "Dagaz_Name = ''dagaz''"

definition grid_in :: "ModState Session \<Rightarrow> RegularGrid" where
  "grid_in s = (case ModuleState Dagaz_Name s of Some (DagazSt g) \<Rightarrow> g | _ \<Rightarrow> fresh_grid)"

definition set_grid :: "sptr \<Rightarrow> RegularGrid \<Rightarrow> world \<Rightarrow> world" where
  "set_grid sp g = upd_sess sp (SetModuleState Dagaz_Name (DagazSt g))"

text \<open>The partition is made anew by every participant that joins.\<close>

definition Dagaz_Init :: "sptr \<Rightarrow> pptr \<Rightarrow> Module \<Rightarrow> world \<Rightarrow> Module \<times> outcome \<times> world" where
  "Dagaz_Init sp pp m w =
    (let m' = m\<lparr>m_current := Some (sp, pp)\<rparr>
     in case ModuleState Dagaz_Name (w_sess w sp) of
          None \<Rightarrow> (m', Nil_error, set_grid sp fresh_grid w)
        | Some (DagazSt g) \<Rightarrow> (m', Nil_error, set_grid sp fresh_grid w)
        | Some _ \<Rightarrow> (m', Panicked, w))"

fun insert_samples :: "Env \<Rightarrow> ProtoQuad list \<Rightarrow> RegularGrid \<Rightarrow> outcome \<times> RegularGrid" where
  "insert_samples e [] g = (Nil_error, g)"
| "insert_samples e (newQuad # samples) g =
    (case NewQuadFromProtobuf newQuad of
       None \<Rightarrow> (Panicked, g)
     | Some quad \<Rightarrow>
        (case InsertQuad (theMachine e) quad g of
           None \<Rightarrow> (Endless, leftGrid e)
         | Some Crash \<Rightarrow> (Panicked, leftGrid e)
         | Some (Done g') \<Rightarrow> insert_samples e samples g'))"

definition HandleDagazQuadSample ::
  "Env \<Rightarrow> Module \<Rightarrow> QuadSampleMsg decoded \<Rightarrow> world \<Rightarrow> outcome \<times> world" where
  "HandleDagazQuadSample e m data w =
    (case data of
       Inl err \<Rightarrow> (Failed err, w)
     | Inr newQuadSample \<Rightarrow>
        (case m_current m of
           None \<Rightarrow> (Failed ErrSessionNotJoined, w)
         | Some (sp, pp) \<Rightarrow>
            (let (out, g) = insert_samples e (qs_Samples newQuadSample) (grid_in (w_sess w sp))
             in (out, set_grid sp g w))))"

definition HandleDagazGetGroundPlane ::
  "Env \<Rightarrow> conn \<Rightarrow> Module \<Rightarrow> GroundPlaneReq decoded \<Rightarrow> world \<Rightarrow> outcome \<times> world" where
  "HandleDagazGetGroundPlane e c m data w =
    (case data of
       Inl err \<Rightarrow> (Failed err, w)
     | Inr req \<Rightarrow>
        (case m_current m of
           None \<Rightarrow> (Failed ErrSessionNotJoined, w)
         | Some (sp, pp) \<Rightarrow>
            (case Option.bind (gp_Ray req) NewRayFromProtobuf of
               None \<Rightarrow> (Panicked, w)
             | Some ray \<Rightarrow>
                (let g = grid_in (w_sess w sp)
                 in case Grid_IntersectQuad (theMachine e) g ray of
                      None \<Rightarrow> (Endless, w)
                    | Some Crash \<Rightarrow> (Panicked, w)
                    | Some (Done (quadHit, t)) \<Rightarrow>
                        (Nil_error,
                         respond e c (DagazAnswer (DagazGetGroundPlaneResponse (gp_RequestId req)
                           (Quad_ToProtobuf (case quadHit of None \<Rightarrow> zeroQuad | Some p \<Rightarrow> g_quads g p)))) w)))))"

definition HandleDagazGetRegion ::
  "Env \<Rightarrow> conn \<Rightarrow> Module \<Rightarrow> RegionReq decoded \<Rightarrow> world \<Rightarrow> outcome \<times> world" where
  "HandleDagazGetRegion e c m data w =
    (case data of
       Inl err \<Rightarrow> (Failed err, w)
     | Inr req \<Rightarrow>
        (case m_current m of
           None \<Rightarrow> (Failed ErrSessionNotJoined, w)
         | Some (sp, pp) \<Rightarrow>
            (case (NewVector3fFromProtobuf (reg_Min req), NewVector3fFromProtobuf (reg_Max req)) of
               (Some min0, Some max0) \<Rightarrow>
                (let g = grid_in (w_sess w sp)
                 in case GetRegion (theMachine e) (rangeQ e) min0 max0 g of
                      Crash \<Rightarrow> (Panicked, w)
                    | Done regionQuads \<Rightarrow>
                        (Nil_error,
                         respond e c (DagazAnswer (DagazGetRegionResponse (reg_RequestId req)
                           (map (\<lambda>p. Quad_ToProtobuf (g_quads g p)) regionQuads))) w))
             | _ \<Rightarrow> (Panicked, w))))"

definition HandleDagazGetDebugInfo ::
  "Env \<Rightarrow> conn \<Rightarrow> Module \<Rightarrow> DebugInfoReq decoded \<Rightarrow> world \<Rightarrow> outcome \<times> world" where
  "HandleDagazGetDebugInfo e c m data w =
    (case data of
       Inl err \<Rightarrow> (Failed err, w)
     | Inr req \<Rightarrow>
        (case m_current m of
           None \<Rightarrow> (Failed ErrSessionNotJoined, w)
         | Some (sp, pp) \<Rightarrow>
            (case GetDebugInfo (grid_in (w_sess w sp)) of
               Crash \<Rightarrow> (Panicked, w)
             | Done info \<Rightarrow>
                (Nil_error,
                 respond e c (DagazAnswer (DagazGetDebugInfoResponse (dbg_RequestId req)
                   \<lparr>gi_GridResolution = di_Resolution info, gi_GridRowCount = di_Row_count info,
                    gi_GridColCount = di_Col_count info, gi_GridPlaneCount = di_Plane_count info,
                    gi_GridMergeCount = di_Merge_count info,
                    gi_GridMinPoint = Vector3f_ToProtobuf (di_Min_point info),
                    gi_GridMaxPoint = Vector3f_ToProtobuf (di_Max_point info),
                    gi_Occupancy = di_Occupancy info\<rparr>)) w))))"

text \<open>A message of another kind is not an error here, not even a skipped one.\<close>

definition Dagaz_HandleMsg ::
  "Env \<Rightarrow> conn \<Rightarrow> Module \<Rightarrow> Msg \<Rightarrow> world \<Rightarrow> outcome \<times> world" where
  "Dagaz_HandleMsg e c m msg w =
    (case msg of
       DagazMessage (DagazQuadSample data) \<Rightarrow> HandleDagazQuadSample e m data w
     | DagazMessage (DagazGetGroundPlaneRequest data) \<Rightarrow> HandleDagazGetGroundPlane e c m data w
     | DagazMessage (DagazGetRegionRequest data) \<Rightarrow> HandleDagazGetRegion e c m data w
     | DagazMessage (DagazGetDebugInfoRequest data) \<Rightarrow> HandleDagazGetDebugInfo e c m data w
     | _ \<Rightarrow> (Nil_error, w))"

definition Dagaz_HandleDisconnect :: "Env \<Rightarrow> Module \<Rightarrow> world \<Rightarrow> world" where
  "Dagaz_HandleDisconnect e m w = w"

section \<open>Own state\<close>

lemma grid_in_Set [simp]:
  "grid_in (SetModuleState Dagaz_Name (DagazSt g) s) = g"
  "n \<noteq> Dagaz_Name \<Longrightarrow> grid_in (SetModuleState n ms s) = grid_in s"
  by (simp_all add: grid_in_def ModuleState_def SetModuleState_def)

lemma set_grid_frame [simp]:
  "w_part (set_grid sp g w) = w_part w"
  "sp' \<noteq> sp \<Longrightarrow> w_sess (set_grid sp g w) sp' = w_sess w sp'"
  "grid_in (w_sess (set_grid sp g w) sp) = g"
  "s_entities (w_sess (set_grid sp g w) sp') = s_entities (w_sess w sp')"
  "n \<noteq> Dagaz_Name \<Longrightarrow>
    s_moduleStates (w_sess (set_grid sp g w) sp') n = s_moduleStates (w_sess w sp') n"
  "w_out (set_grid sp g w) = w_out w"
  by (simp_all add: set_grid_def) (simp_all add: SetModuleState_def)

lemma touches_set_grid: "touches sp w (set_grid sp g w)"
  unfolding set_grid_def by (rule touches_SetModuleState)

section \<open>The contract\<close>

text \<open>A message replaces the grid, or is answered, or changes nothing.\<close>

definition small_step :: "Env \<Rightarrow> conn \<Rightarrow> sptr \<Rightarrow> world \<Rightarrow> world \<Rightarrow> bool" where
  "small_step e c sp w w' \<longleftrightarrow>
    (\<exists>g. w' = set_grid sp g w) \<or> (\<exists>a. w' = respond e c (DagazAnswer a) w) \<or> w' = w"

lemma small_stepI [intro]:
  "small_step e c sp w (set_grid sp g w)" "small_step e c sp w (respond e c (DagazAnswer a) w)" "small_step e c sp w w"
  by (auto simp: small_step_def)

lemma QuadSample_step:
  assumes m: "m_current m = Some (sp, pp)"
  shows "small_step e c sp w (snd (HandleDagazQuadSample e m data w))"
  by (auto simp: HandleDagazQuadSample_def m split: sum.split prod.split)

lemma GroundPlane_step:
  assumes m: "m_current m = Some (sp, pp)"
  shows "small_step e c sp w (snd (HandleDagazGetGroundPlane e c m data w))"
  by (auto simp: HandleDagazGetGroundPlane_def m Let_def split: sum.split option.split result.split)

lemma Region_step:
  assumes m: "m_current m = Some (sp, pp)"
  shows "small_step e c sp w (snd (HandleDagazGetRegion e c m data w))"
  by (auto simp: HandleDagazGetRegion_def m Let_def split: sum.split option.split result.split)

lemma DebugInfo_step:
  assumes m: "m_current m = Some (sp, pp)"
  shows "small_step e c sp w (snd (HandleDagazGetDebugInfo e c m data w))"
  by (auto simp: HandleDagazGetDebugInfo_def m split: sum.split result.split)

lemma Dagaz_Msg_step:
  assumes m: "m_current m = Some (sp, pp)"
  shows "small_step e c sp w (snd (Dagaz_HandleMsg e c m msg w))"
  by (simp add: Dagaz_HandleMsg_def QuadSample_step [OF m] GroundPlane_step [OF m]
      Region_step [OF m] DebugInfo_step [OF m] small_stepI
      split: Msg.split DagazRequest.split)

lemma Dagaz_Msg_not_joined: "m_current m = None \<Longrightarrow> snd (Dagaz_HandleMsg e c m msg w) = w"
  by (simp add: Dagaz_HandleMsg_def HandleDagazQuadSample_def HandleDagazGetGroundPlane_def
      HandleDagazGetRegion_def HandleDagazGetDebugInfo_def split: Msg.split DagazRequest.split sum.split)

lemma Dagaz_Init_touches: "touches sp w (snd (snd (Dagaz_Init sp pp m w)))"
  by (simp add: Dagaz_Init_def Let_def touches_set_grid split: option.split ModState.split)

lemma Dagaz_Msg_touches:
  assumes "m_current m = Some (sp, pp)"
  shows "touches sp w (snd (Dagaz_HandleMsg e c m msg w))"
  using Dagaz_Msg_step [OF assms, of e c w msg] touches_set_grid touches_quiet [OF quiet_respond] touches_refl
  unfolding small_step_def by metis

lemma Dagaz_Msg_other:
  assumes "n \<noteq> Dagaz_Name"
  shows "s_moduleStates (w_sess (snd (Dagaz_HandleMsg e c m msg w)) sp') n = s_moduleStates (w_sess w sp') n"
proof (cases "m_current m")
  case (Some a)
  then obtain sp pp where "m_current m = Some (sp, pp)" by (cases a) simp
  from Dagaz_Msg_step [OF this, of e c w msg] assms show ?thesis by (auto simp: small_step_def)
qed (simp add: Dagaz_Msg_not_joined)

text \<open>Planes mention no entities.\<close>

interpretation dagaz: relay_module Dagaz_Name "\<lambda>s. {}" Dagaz_Init Dagaz_HandleMsg Dagaz_HandleDisconnect
proof (unfold_locales, goal_cases)
  case (3 n sp pp m w sp')
  then show ?case by (simp add: Dagaz_Init_def Let_def split: option.split ModState.split)
qed (simp_all add: Dagaz_Init_touches Dagaz_Msg_touches Dagaz_Msg_other Dagaz_HandleDisconnect_def touches_refl)

end
