(* ===== verification/Module_Calls.thy ===== *)
theory Module_Calls
imports Vikja Odal Dagaz
begin

text \<open>
  \<^verbatim>\<open>modules/module.go\<close>: the interface of a module as a call by the kind of the
  module, the loop of \<^verbatim>\<open>HandleParticipantJoin\<close> that initialises the modules of a
  connection, and the loop of \<^verbatim>\<open>leaveSession\<close> that disconnects them. Proved here:
  what these loops leave alone, and that they keep the state of each module tidy.
\<close>

section \<open>Calls through the interface\<close>

definition mod_Name :: "Module \<Rightarrow> string" where
  "mod_Name m = (case m_kind m of VikjaModule \<Rightarrow> Vikja_Name | OdalModule \<Rightarrow> Odal_Name | DagazModule \<Rightarrow> Dagaz_Name)"

definition mod_Init :: "sptr \<Rightarrow> pptr \<Rightarrow> Module \<Rightarrow> world \<Rightarrow> Module \<times> outcome \<times> world" where
  "mod_Init sp pp m w =
    (case m_kind m of
       VikjaModule \<Rightarrow> Vikja_Init sp pp m w
     | OdalModule \<Rightarrow> Odal_Init sp pp m w
     | DagazModule \<Rightarrow> Dagaz_Init sp pp m w)"

definition mod_HandleMsg :: "Env \<Rightarrow> conn \<Rightarrow> Module \<Rightarrow> Msg \<Rightarrow> world \<Rightarrow> outcome \<times> world" where
  "mod_HandleMsg e c m msg w =
    (case m_kind m of
       VikjaModule \<Rightarrow> Vikja_HandleMsg e c m msg w
     | OdalModule \<Rightarrow> Odal_HandleMsg e c m msg w
     | DagazModule \<Rightarrow> Dagaz_HandleMsg e c m msg w)"

definition mod_HandleDisconnect :: "Env \<Rightarrow> Module \<Rightarrow> world \<Rightarrow> world" where
  "mod_HandleDisconnect e m w =
    (case m_kind m of
       VikjaModule \<Rightarrow> Vikja_HandleDisconnect e m w
     | OdalModule \<Rightarrow> Odal_HandleDisconnect e m w
     | DagazModule \<Rightarrow> Dagaz_HandleDisconnect e m w)"

text \<open>The modules are initialised in order; one that panics ends the loop.\<close>

fun InitModules ::
  "sptr \<Rightarrow> pptr \<Rightarrow> Module list \<Rightarrow> world \<Rightarrow> Module list \<times> outcome \<times> world" where
  "InitModules sp pp [] w = ([], Nil_error, w)"
| "InitModules sp pp (m # ms) w =
    (let (m', out, w1) = mod_Init sp pp m w in
     if out = Nil_error then
       (let (ms', out', w2) = InitModules sp pp ms w1 in (m' # ms', out', w2))
     else (m' # ms, out, w1))"

section \<open>All modules at once\<close>

lemma names_differ [simp]: "Vikja_Name \<noteq> Odal_Name" "Odal_Name \<noteq> Vikja_Name"
  "Dagaz_Name \<noteq> Vikja_Name" "Vikja_Name \<noteq> Dagaz_Name" "Dagaz_Name \<noteq> Odal_Name" "Odal_Name \<noteq> Dagaz_Name"
  by (simp_all add: Vikja_Name_def Odal_Name_def Dagaz_Name_def)

lemma mod_Init_touches: "touches sp w (snd (snd (mod_Init sp pp m w)))"
  by (simp add: mod_Init_def vikja.Init_touches odal.Init_touches dagaz.Init_touches split: ModuleKind.split)

lemma mod_Msg_touches:
  "m_current m = Some (sp, pp) \<Longrightarrow> touches sp w (snd (mod_HandleMsg e c m msg w))"
  by (simp add: mod_HandleMsg_def vikja.Msg_touches odal.Msg_touches dagaz.Msg_touches split: ModuleKind.split)

lemma mod_Disc_touches:
  "m_current m = Some (sp, pp) \<Longrightarrow> touches sp w (mod_HandleDisconnect e m w)"
  by (simp add: mod_HandleDisconnect_def vikja.Disc_touches odal.Disc_touches dagaz.Disc_touches split: ModuleKind.split)

lemma InitModules_touches: "touches sp w (snd (snd (InitModules sp pp ms w)))"
proof (induction ms arbitrary: w)
  case Nil
  then show ?case by simp
next
  case (Cons m ms)
  obtain m' out w1 where I: "mod_Init sp pp m w = (m', out, w1)" by (metis prod.exhaust)
  obtain ms' out' w2 where R: "InitModules sp pp ms w1 = (ms', out', w2)" by (metis prod.exhaust)
  have "touches sp w w1" using mod_Init_touches [of sp w pp m] by (simp add: I)
  moreover have "touches sp w1 w2" using Cons [of w1] by (simp add: R)
  ultimately show ?case by (auto simp: I R intro: touches_trans)
qed

text \<open>The state of each module is of its own type, so no initialisation panics.\<close>

definition typed :: "ModState Session \<Rightarrow> bool" where
  "typed s \<longleftrightarrow>
    (\<forall>st. s_moduleStates s Vikja_Name = Some st \<longrightarrow> (\<exists>v. st = VikjaSt v)) \<and>
    (\<forall>st. s_moduleStates s Odal_Name = Some st \<longrightarrow> (\<exists>od. st = OdalSt od)) \<and>
    (\<forall>st. s_moduleStates s Dagaz_Name = Some st \<longrightarrow> (\<exists>g. st = DagazSt g))"

lemma typed_new: "typed (NewSession i uuid)"
  by (simp add: typed_def NewSession_def)

lemma typed_cong: "s_moduleStates s' = s_moduleStates s \<Longrightarrow> typed s' = typed s"
  by (simp add: typed_def)

lemma typed_SetModuleState:
  assumes "typed s"
  shows "typed (SetModuleState Vikja_Name (VikjaSt v) s)" and "typed (SetModuleState Odal_Name (OdalSt od) s)"
    and "typed (SetModuleState Dagaz_Name (DagazSt g) s)"
  using assms by (simp_all add: typed_def SetModuleState_def)

lemma typed_upd [simp]:
  assumes "typed (w_sess w p)"
  shows "typed (w_sess (upd_vikja sp f w) p)" and "typed (w_sess (upd_odal sp g w) p)"
    and "typed (w_sess (set_grid sp gr w) p)"
  using assms by (auto simp: upd_vikja_def upd_odal_def set_grid_def typed_SetModuleState)

lemma typed_Init:
  assumes "typed (w_sess w sp)"
  shows "fst (snd (mod_Init sp pp m w)) = Nil_error"
    and "typed (w_sess (snd (snd (mod_Init sp pp m w))) sp)"
    and "fst (mod_Init sp pp m w) = m\<lparr>m_current := Some (sp, pp)\<rparr>"
  using assms
  by (auto simp: mod_Init_def Vikja_Init_def Odal_Init_def Dagaz_Init_def Let_def ModuleState_def typed_SetModuleState
      split: ModuleKind.split option.split ModState.split)
    (auto simp: typed_def)

lemma InitModules_ok:
  assumes "typed (w_sess w sp)"
  shows "fst (InitModules sp pp ms w) = map (\<lambda>m. m\<lparr>m_current := Some (sp, pp)\<rparr>) ms"
    and "fst (snd (InitModules sp pp ms w)) = Nil_error"
    and "typed (w_sess (snd (snd (InitModules sp pp ms w))) sp)"
proof -
  have "fst (InitModules sp pp ms w) = map (\<lambda>m. m\<lparr>m_current := Some (sp, pp)\<rparr>) ms \<and>
    fst (snd (InitModules sp pp ms w)) = Nil_error \<and>
    typed (w_sess (snd (snd (InitModules sp pp ms w))) sp)"
    using assms
  proof (induction ms arbitrary: w)
    case Nil
    then show ?case by simp
  next
    case (Cons m ms)
    obtain m' out w1 where I: "mod_Init sp pp m w = (m', out, w1)" by (metis prod.exhaust)
    have "out = Nil_error" "typed (w_sess w1 sp)" "m' = m\<lparr>m_current := Some (sp, pp)\<rparr>"
      using typed_Init [OF Cons.prems, of pp m] by (simp_all add: I)
    with Cons.IH [of w1] show ?case by (auto simp: I split: prod.split)
  qed
  then show "fst (InitModules sp pp ms w) = map (\<lambda>m. m\<lparr>m_current := Some (sp, pp)\<rparr>) ms"
    "fst (snd (InitModules sp pp ms w)) = Nil_error"
    "typed (w_sess (snd (snd (InitModules sp pp ms w))) sp)" by simp_all
qed

end
