(* ===== verification/Realtime.thy ===== *)
theory Realtime
imports Module_Calls
begin

text \<open>
  \<^verbatim>\<open>websocket/realtime.go\<close>, the handler of one connection: joining and leaving a
  session, the entities, the custom messages, the entity components, the receipts and the
  call of a module. A handler takes the environment of the step, the connection, and what
  \<^verbatim>\<open>msg.DataTo\<close> made of the message; it returns an outcome and the new state.
\<close>

section \<open>Shared beginnings\<close>

text \<open>Every handler first decodes its request and returns the error of a failed decoding.\<close>

definition DataTo ::
  "'a decoded \<Rightarrow> ('a \<Rightarrow> world \<Rightarrow> outcome \<times> world) \<Rightarrow> world \<Rightarrow> outcome \<times> world" where
  "DataTo data k w = (case data of Inl err \<Rightarrow> (Failed err, w) | Inr req \<Rightarrow> k req w)"

text \<open>The current session and participant, unless one of them is nil.\<close>

definition joined :: "world \<Rightarrow> conn \<Rightarrow> (sptr \<times> pptr) option" where
  "joined w c =
    (case h_currentSession (w_hand w c) of
       None \<Rightarrow> None
     | Some sp \<Rightarrow>
         (case h_currentParticipant (w_hand w c) of None \<Rightarrow> None | Some pp \<Rightarrow> Some (sp, pp)))"

definition with_joined ::
  "conn \<Rightarrow> (sptr \<Rightarrow> pptr \<Rightarrow> world \<Rightarrow> outcome \<times> world) \<Rightarrow> world \<Rightarrow> outcome \<times> world" where
  "with_joined c k w =
    (case joined w c of
       None \<Rightarrow> (Failed ErrSessionNotJoined, w)
     | Some (sp, pp) \<Rightarrow> k sp pp w)"

text \<open>The handlers that need the session only.\<close>

definition with_session ::
  "conn \<Rightarrow> (sptr \<Rightarrow> world \<Rightarrow> outcome \<times> world) \<Rightarrow> world \<Rightarrow> outcome \<times> world" where
  "with_session c k w =
    (case h_currentSession (w_hand w c) of
       None \<Rightarrow> (Failed ErrSessionNotJoined, w)
     | Some sp \<Rightarrow> k sp w)"

definition upd_ecs :: "sptr \<Rightarrow> (EntityComponentStore \<Rightarrow> EntityComponentStore) \<Rightarrow> world \<Rightarrow> world" where
  "upd_ecs sp f = upd_sess sp (\<lambda>s. s\<lparr>s_entityComponents := f (s_entityComponents s)\<rparr>)"

definition ecs_at :: "world \<Rightarrow> sptr \<Rightarrow> EntityComponentStore" where
  "ecs_at w sp = s_entityComponents (w_sess w sp)"

section \<open>Connecting and pinging\<close>

text \<open>The client id and the app key are read from the HTTP request of the connection.\<close>

definition HandleConnect :: "string \<Rightarrow> string \<Rightarrow> RealtimeHandler \<Rightarrow> RealtimeHandler" where
  "HandleConnect clientID appKey h = h\<lparr>h_clientID := clientID, h_appKey := appKey\<rparr>"

definition HandlePing :: "Env \<Rightarrow> conn \<Rightarrow> PingReq decoded \<Rightarrow> world \<Rightarrow> outcome \<times> world" where
  "HandlePing e c data =
    DataTo data (\<lambda>req w. (Nil_error, respond e c (PingResponse (ping_RequestId req)) w))"

definition SendSyncClock :: "Env \<Rightarrow> conn \<Rightarrow> world \<Rightarrow> outcome \<times> world" where
  "SendSyncClock e c w = (Nil_error, respond e c SyncClock w)"

section \<open>Signed latency\<close>

text \<open>The measurement belongs to the participant. A measurement without a sender would be a
  nil pointer.\<close>

definition HandlePingResponse :: "Env \<Rightarrow> conn \<Rightarrow> PongReq decoded \<Rightarrow> world \<Rightarrow> outcome \<times> world" where
  "HandlePingResponse e c data =
    DataTo data (\<lambda>req w.
      case h_currentParticipant (w_hand w c) of
        None \<Rightarrow> (Nil_error, reply_error e c (pong_RequestId req) UNAUTHORIZED w)
      | Some pp \<Rightarrow>
         (let (failed, s, ms) = OnPing (rangeU e) (clockReading e) (marshalLatency e) (signData e)
                (pong_RequestId req) (w_latency w pp);
              w1 = upd_latency pp s w
          in if ms = [] then
               (Nil_error,
                if failed then reply_error e c (pong_RequestId req) INTERNAL_SERVER_ERROR w1 else w1)
             else
               (case sl_sender s of
                  None \<Rightarrow> (Panicked, w1)
                | Some d \<Rightarrow> (Nil_error, send_all e d ms w1))))"

definition HandleSignedLatency :: "Env \<Rightarrow> conn \<Rightarrow> LatencyReq decoded \<Rightarrow> world \<Rightarrow> outcome \<times> world" where
  "HandleSignedLatency e c data =
    DataTo data (\<lambda>req w.
      case h_currentParticipant (w_hand w c) of
        None \<Rightarrow> (Nil_error, reply_error e c (lat_RequestId req) UNAUTHORIZED w)
      | Some pp \<Rightarrow>
         if lat_IterationCount req < 3 \<or> 50 < lat_IterationCount req
         then (Nil_error, reply_error e c (lat_RequestId req) BAD_REQUEST w)
         else if lat_WalletAddress req = ''''
         then (Nil_error, reply_error e c (lat_RequestId req) BAD_REQUEST w)
         else
           (case h_currentSession (w_hand w c) of
              None \<Rightarrow> (Panicked, w)
            | Some sp \<Rightarrow>
               (let (s, ms) = Start (clockReading e) c (lat_RequestId req) (lat_IterationCount req)
                      (s_UUID (w_sess w sp)) (h_clientID (w_hand w c)) (lat_WalletAddress req)
                in (Nil_error, send_all e c ms (upd_latency pp s w)))))"

section \<open>Leaving a session\<close>

text \<open>One turn of the loop over the entities of the participant.\<close>

definition leave_entity :: "Env \<Rightarrow> sptr \<Rightarrow> pptr \<Rightarrow> u32 \<Rightarrow> world \<Rightarrow> world" where
  "leave_entity e sp pp i w =
    (case EntityByID i (w_sess w sp) of
       None \<Rightarrow> w
     | Some en \<Rightarrow>
         if e_Persist en then w
         else
           IfNotSet (FeatureFlags e) FlagDisableEntityDeleteBroadcast
             (broadcast e sp pp
               (EntityMessage (EntityDeleteBroadcast (Some (clockNow e)) (e_ID en))))
             (upd_sess sp (RemoveEntity en)
               (upd_ecs sp (DeleteByEntityID (e_ID en)) w)))"

definition leaveSession :: "Env \<Rightarrow> conn \<Rightarrow> world \<Rightarrow> world" where
  "leaveSession e c w =
    (case joined w c of
       None \<Rightarrow> w
     | Some (sp, pp) \<Rightarrow>
        (let w1 = fold (mod_HandleDisconnect e) (h_Modules (w_hand w c)) w;
             pid = p_ID (w_part w1 pp);
             w2 = upd_ecs sp (UnsubscribeByParticipant pid) w1;
             w3 = fold (leave_entity e sp pp) (rangeU e (EntityIDs (w_part w2 pp))) w2;
             w4 = (case h_stopFrameHandling (w_hand w3 c) of
                     None \<Rightarrow> w3
                   | Some (fsp, fid) \<Rightarrow> upd_sess fsp (CancelFrame fid) w3);
             w5 = upd_sess sp (RemoveParticipant (w_part w4) pp) w4;
             w6 = IfNotSet (FeatureFlags e) FlagDisableParticipantLeaveBroadcast
                    (broadcast e sp pp (ParticipantLeaveBroadcast (Some (clockNow e)) pid)) w5;
             w7 = (if ParticipantCount (w_sess w6 sp) = 0 then
                     (let (st, s) = SessionStore_Remove (w_sess w6 sp) (w_store w6) in
                      w6\<lparr>w_store := st, w_sess := (w_sess w6)(sp := Close s)\<rparr>)
                   else w6)
         in upd_hand c (\<lambda>h. h\<lparr>h_currentParticipant := None, h_currentSession := None\<rparr>) w7))"

definition HandleDisconnect :: "Env \<Rightarrow> conn \<Rightarrow> world \<Rightarrow> world" where
  "HandleDisconnect e c w =
    (if h_currentParticipant (w_hand w c) \<noteq> None then leaveSession e c w else w)"

section \<open>Joining a session\<close>

definition create_session :: "Env \<Rightarrow> conn \<Rightarrow> world \<Rightarrow> sptr \<times> world" where
  "create_session e c w =
    (let (i, st) = NewID (rangeU e) (w_store w);
         sp = w_nextS w;
         s = (NewSession i (newUUID e))\<lparr>s_AppKey := h_appKey (w_hand w c)\<rparr>
     in (sp, w\<lparr>w_store := SessionStore_Add sp s st, w_nextS := Suc sp,
               w_sess := (w_sess w)(sp := StartDispatchFrames s)\<rparr>))"

definition session_state :: "Env \<Rightarrow> sptr \<Rightarrow> world \<Rightarrow> Proto" where
  "session_state e sp w =
    SessionState
      (ParticipantsToProtobuf (map (w_part w) (GetParticipants (rangeU e) (w_sess w sp))))
      (EntitiesToProtobuf (Entities (rangeU e) (w_sess w sp)))
      (ListAll (rangeU e) (ecs_at w sp))"

text \<open>The new participant enters the session, and with it its frame handler.\<close>

definition enter_session :: "Env \<Rightarrow> conn \<Rightarrow> sptr \<Rightarrow> world \<Rightarrow> pptr \<times> world" where
  "enter_session e c sp w =
    (let (pid, s1) = NewParticipantID (rangeU e) (w_sess w sp);
         pp = w_nextP w;
         H = (w_part w)(pp := \<lparr>p_ID = pid, p_Responder = c, p_entityIDs = {}\<rparr>);
         (fid, s2) = HandleFrame (rangeU e) c (AddParticipant H pp s1);
         w1 = w\<lparr>w_part := H, w_nextP := Suc pp, w_sess := (w_sess w)(sp := s2),
                w_latency := (w_latency w)(pp := newSignedLatency)\<rparr>
     in (pp, upd_hand c (\<lambda>h. h\<lparr>h_stopFrameHandling := Some (sp, fid)\<rparr>) w1))"

definition join_session :: "Env \<Rightarrow> conn \<Rightarrow> JoinReq \<Rightarrow> sptr \<Rightarrow> world \<Rightarrow> outcome \<times> world" where
  "join_session e c req sp w =
    (let (pp, w1) = enter_session e c sp w;
         s = w_sess w1 sp;
         pid = p_ID (w_part w1 pp);
         w2 = respond e c (ParticipantJoinResponse (join_RequestId req)
                (GlobalSessionID (w_store w1) (s_ID s)) (s_UUID s) pid) w1;
         w3 = upd_hand c
                (\<lambda>h. h\<lparr>h_currentSession := Some sp, h_currentParticipant := Some pp\<rparr>) w2;
         w4 = IfNotSet (FeatureFlags e) FlagDisableSessionState
                (\<lambda>w. respond e c (session_state e sp w) w) w3;
         w5 = IfNotSet (FeatureFlags e) FlagDisableParticipantJoinBroadcast
                (broadcast e sp pp (ParticipantJoinBroadcast (join_Timestamp req) pid)) w4;
         (ms, out, w6) = InitModules sp pp (h_Modules (w_hand w5 c)) w5
     in (out, upd_hand c (\<lambda>h. h\<lparr>h_Modules := ms\<rparr>) w6))"

definition HandleParticipantJoin :: "Env \<Rightarrow> conn \<Rightarrow> JoinReq decoded \<Rightarrow> world \<Rightarrow> outcome \<times> world" where
  "HandleParticipantJoin e c data =
    DataTo data (\<lambda>req w.
      if (case h_currentSession (w_hand w c) of
            None \<Rightarrow> False
          | Some sp \<Rightarrow> GlobalSessionID (w_store w) (s_ID (w_sess w sp)) = join_SessionId req)
      then (Nil_error, reply_error e c (join_RequestId req) SESSION_ALREADY_JOINED w)
      else
        (let w1 = (if h_currentParticipant (w_hand w c) \<noteq> None then leaveSession e c w else w);
             (found, st) = GetByGlobalID (join_SessionId req) (w_store w1);
             w2 = w1\<lparr>w_store := st\<rparr>
         in case found of
              Some sp \<Rightarrow> join_session e c req sp w2
            | None \<Rightarrow>
                if join_SessionId req \<noteq> ''''
                then (Nil_error, reply_error e c (join_RequestId req) NOT_FOUND w2)
                else (let (sp, w3) = create_session e c w2 in join_session e c req sp w3)))"

section \<open>Entities\<close>

definition HandleEntityAdd ::
  "Env \<Rightarrow> conn \<Rightarrow> EntityAddReq decoded \<Rightarrow> world \<Rightarrow> outcome \<times> world" where
  "HandleEntityAdd e c data =
    DataTo data (\<lambda>req. with_joined c (\<lambda>sp pp w.
      let (i, s1) = NewEntityID (rangeU e) (w_sess w sp);
          en0 = \<lparr>e_ID = i, e_ParticipantID = p_ID (w_part w pp), e_Persist = eadd_Persist req,
                 e_Flag = eadd_Flag req, e_pose = zeroPose\<rparr>;
          en = (case eadd_Pose req of None \<Rightarrow> en0 | Some p \<Rightarrow> SetPose (Pose_of_request p) en0);
          w1 = upd_sess sp (\<lambda>_. AddEntity en s1) w;
          w2 = upd_part pp (Participant_AddEntity en) w1;
          w3 = respond e c (EntityMessage (EntityAddResponse (eadd_RequestId req) (e_ID en))) w2
      in (Nil_error,
          IfNotSet (FeatureFlags e) FlagDisableEntityAddBroadcast
            (broadcast e sp pp
              (EntityMessage (EntityAddBroadcast (eadd_Timestamp req) (Entity_ToProtobuf en)))) w3)))"

definition HandleEntityDelete ::
  "Env \<Rightarrow> conn \<Rightarrow> EntityDeleteReq decoded \<Rightarrow> world \<Rightarrow> outcome \<times> world" where
  "HandleEntityDelete e c data =
    DataTo data (\<lambda>req. with_joined c (\<lambda>sp pp w.
      case EntityByID (edel_EntityId req) (w_sess w sp) of
        None \<Rightarrow> (Nil_error, reply_error e c (edel_RequestId req) NOT_FOUND w)
      | Some en \<Rightarrow>
          if e_ParticipantID en \<noteq> p_ID (w_part w pp)
          then (Nil_error, reply_error e c (edel_RequestId req) UNAUTHORIZED w)
          else
            (let w1 = upd_sess sp (RemoveEntity en) (upd_ecs sp (DeleteByEntityID (e_ID en)) w);
                 w2 = upd_part pp (Participant_RemoveEntity en) w1;
                 w3 = respond e c (EntityMessage (EntityDeleteResponse (edel_RequestId req))) w2
             in (Nil_error,
                 IfNotSet (FeatureFlags e) FlagDisableEntityDeleteBroadcast
                   (broadcast e sp pp
                     (EntityMessage (EntityDeleteBroadcast (edel_Timestamp req) (e_ID en)))) w3))))"

text \<open>The pose is read through a pointer that is not checked: a message without a pose
  panics once the entity is known to belong to the sender.\<close>

definition HandleEntityUpdatePose ::
  "Env \<Rightarrow> conn \<Rightarrow> UpdatePoseMsg decoded \<Rightarrow> world \<Rightarrow> outcome \<times> world" where
  "HandleEntityUpdatePose e c data =
    DataTo data (\<lambda>update. with_joined c (\<lambda>sp pp w.
      case EntityByID (upose_EntityId update) (w_sess w sp) of
        None \<Rightarrow> (Nil_error, w)
      | Some en \<Rightarrow>
          if e_ParticipantID en \<noteq> p_ID (w_part w pp) then (Nil_error, w)
          else
            (case upose_Pose update of
               None \<Rightarrow> (Panicked, w)
             | Some p \<Rightarrow>
                (let en1 = SetPose (Pose_of_request p) en;
                     w1 = upd_sess sp
                            (UpdateEntity (upose_EntityId update) (SetPose (Pose_of_request p))) w
                 in (Nil_error,
                     IfNotSet (FeatureFlags e) FlagDisableEntityUpdatePoseBroadcast
                       (broadcast e sp pp
                         (EntityMessage (EntityUpdatePoseBroadcast (upose_Timestamp update)
                           (e_ID en1) (Pose_ToProtobuf (getPose en1))))) w1)))))"

section \<open>Custom messages and receipts\<close>

definition customMessageMaxSize :: nat where
  "customMessageMaxSize = 10240"

definition HandleCustomMessage ::
  "Env \<Rightarrow> conn \<Rightarrow> CustomMsg decoded \<Rightarrow> world \<Rightarrow> outcome \<times> world" where
  "HandleCustomMessage e c data =
    DataTo data (\<lambda>req. with_joined c (\<lambda>sp pp w.
      if customMessageMaxSize < length (custom_Body req)
      then (Nil_error, reply_error e c 0 TOO_LARGE w)
      else
        (let m = CustomMessageBroadcast (custom_Timestamp req) (p_ID (w_part w pp)) (custom_Body req)
         in (Nil_error,
             IfNotSet (FeatureFlags e) FlagDisableCustomMessageBroadcast
               (if custom_ParticipantIds req \<noteq> []
                then broadcast_to e sp pp m (custom_ParticipantIds req)
                else broadcast e sp pp m) w))))"

text \<open>The channel of receipts is made in \<^verbatim>\<open>cmd/main.go\<close>.\<close>

definition receiptChanSize :: nat where
  "receiptChanSize = 128"

definition HandleReceipt ::
  "Env \<Rightarrow> conn \<Rightarrow> ReceiptReq decoded \<Rightarrow> world \<Rightarrow> outcome \<times> world" where
  "HandleReceipt e c data =
    DataTo data (\<lambda>req w.
      if rec_Receipt req = '''' \<or> rec_Hash req = [] \<or> rec_Signature req = []
      then (Failed ErrZeroLengthReceipt, reply_error e c (rec_RequestId req) BAD_REQUEST w)
      else if length (w_receipts w) < receiptChanSize
      then (Nil_error, respond e c (ReceiptResponse (rec_RequestId req))
             (w\<lparr>w_receipts := w_receipts w @ [\<lparr>rp_Receipt = rec_Receipt req,
                rp_Hash = rec_Hash req, rp_Signature = rec_Signature req\<rparr>]\<rparr>))
      else (Failed ErrReceiptChanFull, reply_error e c (rec_RequestId req) SERVER_TOO_BUSY w))"

section \<open>Entity components\<close>

definition HandleEntityComponentTypeAdd ::
  "Env \<Rightarrow> conn \<Rightarrow> TypeNameReq decoded \<Rightarrow> world \<Rightarrow> outcome \<times> world" where
  "HandleEntityComponentTypeAdd e c data =
    DataTo data (\<lambda>req w.
      if tname_Name req = ''''
      then (Nil_error, reply_error e c (tname_RequestId req) BAD_REQUEST w)
      else with_session c (\<lambda>sp w.
        let (i, ecs) = AddType (rangeU e) (tname_Name req) (ecs_at w sp)
        in (Nil_error,
            respond e c (ComponentAnswer (ComponentTypeAddResponse (tname_RequestId req) i))
              (upd_ecs sp (\<lambda>_. ecs) w))) w)"

definition HandleEntityComponentGetName ::
  "Env \<Rightarrow> conn \<Rightarrow> TypeIdReq decoded \<Rightarrow> world \<Rightarrow> outcome \<times> world" where
  "HandleEntityComponentGetName e c data =
    DataTo data (\<lambda>req w.
      if tid_TypeId req = 0
      then (Nil_error, reply_error e c (tid_RequestId req) BAD_REQUEST w)
      else with_session c (\<lambda>sp w.
        (Nil_error,
         case GetTypeName (tid_TypeId req) (ecs_at w sp) of
           Inl _ \<Rightarrow> reply_error e c (tid_RequestId req) NOT_FOUND w
         | Inr name \<Rightarrow>
             respond e c
               (ComponentAnswer (ComponentTypeGetNameResponse (tid_RequestId req) name)) w)) w)"

definition HandleEntityComponentGetID ::
  "Env \<Rightarrow> conn \<Rightarrow> TypeNameReq decoded \<Rightarrow> world \<Rightarrow> outcome \<times> world" where
  "HandleEntityComponentGetID e c data =
    DataTo data (\<lambda>req w.
      if tname_Name req = ''''
      then (Nil_error, reply_error e c (tname_RequestId req) BAD_REQUEST w)
      else with_session c (\<lambda>sp w.
        (Nil_error,
         case GetTypeID (tname_Name req) (ecs_at w sp) of
           Inl _ \<Rightarrow> reply_error e c (tname_RequestId req) NOT_FOUND w
         | Inr i \<Rightarrow>
             respond e c
               (ComponentAnswer (ComponentTypeGetIdResponse (tname_RequestId req) i)) w)) w)"

definition HandleEntityComponentAdd ::
  "Env \<Rightarrow> conn \<Rightarrow> ComponentReq decoded \<Rightarrow> world \<Rightarrow> outcome \<times> world" where
  "HandleEntityComponentAdd e c data =
    DataTo data (\<lambda>req w.
      if comp_TypeId req = 0 \<or> comp_EntityId req = 0
      then (Nil_error, reply_error e c (comp_RequestId req) BAD_REQUEST w)
      else with_joined c (\<lambda>sp pp w.
        case EntityByID (comp_EntityId req) (w_sess w sp) of
          None \<Rightarrow> (Nil_error, reply_error e c (comp_RequestId req) NOT_FOUND w)
        | Some en \<Rightarrow>
           (let ec = \<lparr>ec_TypeId = comp_TypeId req, ec_EntityId = e_ID en, ec_Data = comp_Data req\<rparr>;
                (err, ecs) = ECAdd ec (ecs_at w sp);
                w1 = upd_ecs sp (\<lambda>_. ecs) w
            in case err of
                 Some er \<Rightarrow>
                   (Nil_error, reply_error e c (comp_RequestId req)
                      (if er = TypeAlreadyAdded then CONFLICT else NOT_FOUND) w1)
               | None \<Rightarrow>
                  (let w2 = respond e c
                         (ComponentAnswer (ComponentAddResponse (comp_RequestId req))) w1
                   in (Nil_error,
                       IfNotSet (FeatureFlags e) FlagDisableEntityComponentAddBroadcast
                         (\<lambda>w. Notify (rangeU e) (ec_TypeId ec)
                           (\<lambda>_. broadcast e sp pp
                             (ComponentAnswer (ComponentAddBroadcast (comp_Timestamp req) ec)))
                           (ecs_at w sp) w) w2)))) w)"

definition HandleEntityComponentDelete ::
  "Env \<Rightarrow> conn \<Rightarrow> ComponentReq decoded \<Rightarrow> world \<Rightarrow> outcome \<times> world" where
  "HandleEntityComponentDelete e c data =
    DataTo data (\<lambda>req w.
      if comp_TypeId req = 0 \<or> comp_EntityId req = 0
      then (Nil_error, reply_error e c (comp_RequestId req) BAD_REQUEST w)
      else with_joined c (\<lambda>sp pp w.
        case EntityByID (comp_EntityId req) (w_sess w sp) of
          None \<Rightarrow> (Nil_error, reply_error e c (comp_RequestId req) NOT_FOUND w)
        | Some en \<Rightarrow>
           (let (deleted, ecs) = ECDelete (comp_TypeId req) (e_ID en) (ecs_at w sp);
                w1 = upd_ecs sp (\<lambda>_. ecs) w
            in if \<not> deleted
               then (Nil_error, reply_error e c (comp_RequestId req) NOT_FOUND w1)
               else
                 (let w2 = IfNotSet (FeatureFlags e) FlagDisableEntityComponentDeleteBroadcast
                        (\<lambda>w. Notify (rangeU e) (comp_TypeId req)
                          (\<lambda>_. broadcast e sp pp
                            (ComponentAnswer (ComponentDeleteBroadcast (comp_Timestamp req)
                              \<lparr>ec_TypeId = comp_TypeId req, ec_EntityId = e_ID en, ec_Data = []\<rparr>)))
                          (ecs_at w sp) w) w1
                  in (Nil_error, respond e c
                        (ComponentAnswer (ComponentDeleteResponse (comp_RequestId req))) w2)))) w)"

text \<open>The error of \<^verbatim>\<open>Update\<close> is dropped: the broadcast goes out in any case.\<close>

definition HandleEntityComponentUpdate ::
  "Env \<Rightarrow> conn \<Rightarrow> ComponentReq decoded \<Rightarrow> world \<Rightarrow> outcome \<times> world" where
  "HandleEntityComponentUpdate e c data =
    DataTo data (\<lambda>req w.
      if comp_TypeId req = 0 \<or> comp_EntityId req = 0 then (Nil_error, w)
      else with_joined c (\<lambda>sp pp w.
        case EntityByID (comp_EntityId req) (w_sess w sp) of
          None \<Rightarrow> (Nil_error, w)
        | Some en \<Rightarrow>
           (let ec = \<lparr>ec_TypeId = comp_TypeId req, ec_EntityId = e_ID en, ec_Data = comp_Data req\<rparr>;
                w1 = upd_ecs sp (\<lambda>s. snd (ECUpdate ec s)) w
            in (Nil_error,
                IfNotSet (FeatureFlags e) FlagDisableEntityComponentUpdateBroadcast
                  (\<lambda>w. Notify (rangeU e) (ec_TypeId ec)
                    (\<lambda>ids. broadcast_to e sp pp
                      (ComponentAnswer (ComponentUpdateBroadcast (comp_Timestamp req) ec)) ids)
                    (ecs_at w sp) w) w1))) w)"

definition HandleEntityComponentList ::
  "Env \<Rightarrow> conn \<Rightarrow> TypeIdReq decoded \<Rightarrow> world \<Rightarrow> outcome \<times> world" where
  "HandleEntityComponentList e c data =
    DataTo data (\<lambda>req w.
      if tid_TypeId req = 0
      then (Nil_error, reply_error e c (tid_RequestId req) BAD_REQUEST w)
      else with_session c (\<lambda>sp w.
        (Nil_error, respond e c (ComponentAnswer (ComponentListResponse (tid_RequestId req)
           (ECList (rangeU e) (tid_TypeId req) (ecs_at w sp)))) w)) w)"

definition HandleEntityComponentSubscribe ::
  "Env \<Rightarrow> conn \<Rightarrow> TypeIdReq decoded \<Rightarrow> world \<Rightarrow> outcome \<times> world" where
  "HandleEntityComponentSubscribe e c data =
    DataTo data (\<lambda>req w.
      if tid_TypeId req = 0
      then (Nil_error, reply_error e c (tid_RequestId req) BAD_REQUEST w)
      else with_joined c (\<lambda>sp pp w.
        let (err, ecs) = Subscribe (tid_TypeId req) (p_ID (w_part w pp)) (ecs_at w sp);
            w1 = upd_ecs sp (\<lambda>_. ecs) w
        in (Nil_error,
            case err of
              Some _ \<Rightarrow> reply_error e c (tid_RequestId req) NOT_FOUND w1
            | None \<Rightarrow>
                respond e c (ComponentAnswer (ComponentSubscribeResponse (tid_RequestId req))) w1)) w)"

definition HandleEntityComponentUnsubscribe ::
  "Env \<Rightarrow> conn \<Rightarrow> TypeIdReq decoded \<Rightarrow> world \<Rightarrow> outcome \<times> world" where
  "HandleEntityComponentUnsubscribe e c data =
    DataTo data (\<lambda>req w.
      if tid_TypeId req = 0
      then (Nil_error, reply_error e c (tid_RequestId req) BAD_REQUEST w)
      else with_joined c (\<lambda>sp pp w.
        (Nil_error,
         respond e c (ComponentAnswer (ComponentUnsubscribeResponse (tid_RequestId req)))
           (upd_ecs sp (Unsubscribe (tid_TypeId req) (p_ID (w_part w pp))) w))) w)"

section \<open>Modules\<close>

text \<open>\<^verbatim>\<open>errors.IsType(err, ErrTypeMsgSkip)\<close> is the test for a skipped message.\<close>

definition HandleWithModule ::
  "Env \<Rightarrow> conn \<Rightarrow> Module \<Rightarrow> Msg \<Rightarrow> world \<Rightarrow> outcome \<times> world" where
  "HandleWithModule e c m msg w =
    (if joined w c = None then (Nil_error, w)
     else
       case mod_HandleMsg e c m msg w of
         (Failed err, w') \<Rightarrow>
           if err = ErrModuleMsgSkip then (Nil_error, w')
           else (Failed (ErrModule (mod_Name m) err), w')
       | (out, w') \<Rightarrow> (out, w'))"

end
