(* ===== verification/Dispatch.thy ===== *)
theory Dispatch
imports Realtime
begin

text \<open>
  \<^verbatim>\<open>websocket/handler.go\<close>: the dispatch of a message to its handler and to the
  modules, and the loop of a connection as a step relation. A step is one turn of the
  \<^verbatim>\<open>select\<close> of one connection, or a connection being accepted, or the receipt
  handler taking a receipt. Which case is taken, and in which order the connections move, is
  open. The loop puts the errors of its handlers into a channel of size eight that it reads
  itself, and its two goroutines put theirs there too.
\<close>

section \<open>One message\<close>

fun run_modules :: "Env \<Rightarrow> conn \<Rightarrow> Module list \<Rightarrow> Msg \<Rightarrow> world \<Rightarrow> outcome \<times> world" where
  "run_modules e c [] msg w = (Nil_error, w)"
| "run_modules e c (m # ms) msg w =
    (case HandleWithModule e c m msg w of
       (Nil_error, w1) \<Rightarrow> run_modules e c ms msg w1
     | (out, w1) \<Rightarrow> (out, w1))"

definition handle_component ::
  "Env \<Rightarrow> conn \<Rightarrow> ComponentRequest \<Rightarrow> world \<Rightarrow> outcome \<times> world" where
  "handle_component e c msg =
    (case msg of
       ComponentTypeAddRequest data \<Rightarrow> HandleEntityComponentTypeAdd e c data
     | ComponentTypeGetNameRequest data \<Rightarrow> HandleEntityComponentGetName e c data
     | ComponentTypeGetIdRequest data \<Rightarrow> HandleEntityComponentGetID e c data
     | ComponentAddRequest data \<Rightarrow> HandleEntityComponentAdd e c data
     | ComponentDeleteRequest data \<Rightarrow> HandleEntityComponentDelete e c data
     | ComponentListRequest data \<Rightarrow> HandleEntityComponentList e c data
     | ComponentUpdate data \<Rightarrow> HandleEntityComponentUpdate e c data
     | ComponentSubscribeRequest data \<Rightarrow> HandleEntityComponentSubscribe e c data
     | ComponentUnsubscribeRequest data \<Rightarrow> HandleEntityComponentUnsubscribe e c data)"

definition handle_core :: "Env \<Rightarrow> conn \<Rightarrow> Msg \<Rightarrow> world \<Rightarrow> outcome \<times> world" where
  "handle_core e c msg =
    (case msg of
       PingRequest data \<Rightarrow> HandlePing e c data
     | PingResponseMsg data \<Rightarrow> HandlePingResponse e c data
     | SignedLatencyRequest data \<Rightarrow> HandleSignedLatency e c data
     | ParticipantJoinRequest data \<Rightarrow> HandleParticipantJoin e c data
     | EntityAddRequest data \<Rightarrow> HandleEntityAdd e c data
     | EntityDeleteRequest data \<Rightarrow> HandleEntityDelete e c data
     | EntityUpdatePose data \<Rightarrow> HandleEntityUpdatePose e c data
     | CustomMessage data \<Rightarrow> HandleCustomMessage e c data
     | ComponentMessage cm \<Rightarrow> handle_component e c cm
     | ReceiptRequest data \<Rightarrow> HandleReceipt e c data
     | _ \<Rightarrow> (\<lambda>w. (Nil_error, w)))"

definition handleMessage :: "Env \<Rightarrow> conn \<Rightarrow> Msg \<Rightarrow> world \<Rightarrow> outcome \<times> world" where
  "handleMessage e c msg w =
    (case handle_core e c msg w of
       (Nil_error, w1) \<Rightarrow>
         if joined w1 c = None then (Nil_error, w1)
         else run_modules e c (h_Modules (w_hand w1 c)) msg w1
     | (out, w1) \<Rightarrow> (out, w1))"

section \<open>The loop of a connection\<close>

definition disconnectChanSize :: nat where
  "disconnectChanSize = 8"

definition set_loop :: "conn \<Rightarrow> loop \<Rightarrow> world \<Rightarrow> world" where
  "set_loop c l w = w\<lparr>w_loop := (w_loop w)(c := l)\<rparr>"

text \<open>\<^verbatim>\<open>h.disconnect\<close> called by the loop itself: the channel is read by nobody
  else, so a full one blocks the loop for ever.\<close>

definition disconnect :: "conn \<Rightarrow> world \<Rightarrow> world" where
  "disconnect c w =
    (case w_loop w c of
       Running k \<Rightarrow>
         if k < disconnectChanSize then set_loop c (Running (Suc k)) w else set_loop c Blocked w
     | _ \<Rightarrow> w)"

definition handled :: "conn \<Rightarrow> outcome \<times> world \<Rightarrow> world" where
  "handled c r =
    (case r of
       (Nil_error, w) \<Rightarrow> w
     | (Failed err, w) \<Rightarrow> disconnect c w
     | (Panicked, w) \<Rightarrow> set_loop c Crashed w
     | (Endless, w) \<Rightarrow> set_loop c Blocked w)"

text \<open>\<^verbatim>\<open>handler.handleDisconnect\<close>, after which the context is cancelled and the
  loop ends.\<close>

definition handleDisconnect :: "Env \<Rightarrow> conn \<Rightarrow> world \<Rightarrow> world" where
  "handleDisconnect e c w = set_loop c Ended (HandleDisconnect e c w)"

text \<open>The modules that \<^verbatim>\<open>cmd/main.go\<close> gives to each connection.\<close>

definition newHandler :: RealtimeHandler where
  "newHandler =
    \<lparr>h_currentSession = None, h_currentParticipant = None, h_stopFrameHandling = None,
     h_Modules = [\<lparr>m_kind = VikjaModule, m_current = None\<rparr>, \<lparr>m_kind = OdalModule, m_current = None\<rparr>,
       \<lparr>m_kind = DagazModule, m_current = None\<rparr>],
     h_clientID = '''', h_appKey = ''''\<rparr>"

definition accept_conn :: "string \<Rightarrow> string \<Rightarrow> world \<Rightarrow> world" where
  "accept_conn clientID appKey w =
    (let c = w_nextC w
     in set_loop c (Running 0)
          (upd_hand c (\<lambda>_. HandleConnect clientID appKey newHandler) (w\<lparr>w_nextC := Suc c\<rparr>)))"

datatype event =
    Connect string string
  | Message conn Msg
  | SyncClockTick conn
  | IdleTimeout conn
  | GoroutineError conn
  | TakeDisconnect conn
  | ContextDone conn
  | TakeReceipt

definition is_running :: "world \<Rightarrow> conn \<Rightarrow> bool" where
  "is_running w c = (case w_loop w c of Running k \<Rightarrow> True | _ \<Rightarrow> False)"

text \<open>
  An event of a connection whose loop is not running changes nothing. A goroutine whose
  error finds the channel full waits, so its event is not enabled then. When the context is
  done, the head of the loop ends it without handling the disconnection; a turn of the
  \<^verbatim>\<open>select\<close> that finds the context done first reports that to the
  channel, like the idle timer.
\<close>

definition exec :: "Env \<Rightarrow> event \<Rightarrow> world \<Rightarrow> world" where
  "exec e ev w =
    (case ev of
       Connect clientID appKey \<Rightarrow> accept_conn clientID appKey w
     | Message c msg \<Rightarrow> if is_running w c then handled c (handleMessage e c msg w) else w
     | SyncClockTick c \<Rightarrow> if is_running w c then handled c (SendSyncClock e c w) else w
     | IdleTimeout c \<Rightarrow> disconnect c w
     | GoroutineError c \<Rightarrow>
         (case w_loop w c of
            Running k \<Rightarrow>
              if k < disconnectChanSize then set_loop c (Running (Suc k)) w else w
          | _ \<Rightarrow> w)
     | TakeDisconnect c \<Rightarrow>
         (case w_loop w c of
            Running (Suc k) \<Rightarrow> handleDisconnect e c w
          | _ \<Rightarrow> w)
     | ContextDone c \<Rightarrow>
         (case w_loop w c of
            Running k \<Rightarrow> set_loop c Ended w
          | _ \<Rightarrow> w)
     | TakeReceipt \<Rightarrow> w\<lparr>w_receipts := tl (w_receipts w)\<rparr>)"

text \<open>The server at its start, and the states it can reach in \<open>n\<close> events.\<close>

definition init_world :: "string option \<Rightarrow> world" where
  "init_world d =
    \<lparr>w_sess = (\<lambda>_. NewSession 0 ''''), w_part = (\<lambda>_. \<lparr>p_ID = 0, p_Responder = 0, p_entityIDs = {}\<rparr>),
     w_nextS = 0, w_nextP = 0, w_nextC = 0, w_store = newSessionStore d,
     w_hand = (\<lambda>_. newHandler), w_loop = (\<lambda>_. NotStarted), w_out = (\<lambda>_. []), w_receipts = [],
     w_latency = (\<lambda>_. newSignedLatency)\<rparr>"

inductive reach :: "string option \<Rightarrow> nat \<Rightarrow> world \<Rightarrow> bool" for d where
  reach_init: "reach d 0 (init_world d)"
| reach_step: "reach d n w \<Longrightarrow> env_ok e \<Longrightarrow> reach d (Suc n) (exec e ev w)"

text \<open>The same, run on a list of events.\<close>

fun run :: "(Env \<times> event) list \<Rightarrow> world \<Rightarrow> world" where
  "run [] w = w"
| "run ((e, ev) # es) w = run es (exec e ev w)"

lemma reach_run:
  assumes "reach d n w" and "\<forall>(e, ev) \<in> set es. env_ok e"
  shows "reach d (n + length es) (run es w)"
  using assms
proof (induction es arbitrary: n w)
  case Nil
  then show ?case by simp
next
  case (Cons x es)
  obtain e ev where x: "x = (e, ev)" by (cases x)
  have "reach d (Suc n) (exec e ev w)"
    using Cons.prems x by (auto intro: reach_step)
  from Cons.IH [OF this] Cons.prems show ?case by (simp add: x)
qed

end
