(* ===== verification/Http.thy ===== *)
theory Http
imports Dispatch
begin

text \<open>
  \<^verbatim>\<open>http/auth.go\<close>, \<^verbatim>\<open>http/cors.go\<close>, \<^verbatim>\<open>http/handler.go\<close>, the path formatter of
  \<^verbatim>\<open>http/http.go\<close>, \<^verbatim>\<open>smoketest/smoketest.go\<close>, and what they use of
  \<^verbatim>\<open>net/http\<close>: requests, response writers and the multiplexer. Handlers work on the state of
  the program and the response. The verification of a token, the decoding of a smoke test and
  the test itself belong to libraries and are parameters.
\<close>

section \<open>Requests and responses\<close>

text \<open>What the code reads of a request: the method, the path, the headers, of which \<open>Get\<close>
  answers the empty string when one is missing, and the body, which may fail to arrive.\<close>

record Request =
  rq_Method :: string
  rq_Path :: string
  rq_Header :: "string \<Rightarrow> string"
  rq_Body :: "string option"

text \<open>A response writer of \<^verbatim>\<open>net/http\<close>: the first status counts, headers that are set after it are
  not sent, and a body that is written without a status has the status 200.\<close>

record ResponseWriter =
  rw_status :: "nat option"
  rw_header :: "string \<rightharpoonup> string"
  rw_body :: string

definition emptyResponse :: ResponseWriter where
  "emptyResponse = \<lparr>rw_status = None, rw_header = Map.empty, rw_body = ''''\<rparr>"

definition WriteHeader :: "nat \<Rightarrow> ResponseWriter \<Rightarrow> ResponseWriter" where
  "WriteHeader code rw = (if rw_status rw = None then rw\<lparr>rw_status := Some code\<rparr> else rw)"

definition SetHeader :: "string \<Rightarrow> string \<Rightarrow> ResponseWriter \<Rightarrow> ResponseWriter" where
  "SetHeader k v rw = (if rw_status rw = None then rw\<lparr>rw_header := (rw_header rw)(k \<mapsto> v)\<rparr> else rw)"

definition WriteBody :: "string \<Rightarrow> ResponseWriter \<Rightarrow> ResponseWriter" where
  "WriteBody b rw = (let rw1 = WriteHeader 200 rw in rw1\<lparr>rw_body := rw_body rw1 @ b\<rparr>)"

definition StatusOK :: nat where "StatusOK = 200"
definition StatusMovedPermanently :: nat where "StatusMovedPermanently = 301"
definition StatusBadRequest :: nat where "StatusBadRequest = 400"
definition StatusUnauthorized :: nat where "StatusUnauthorized = 401"
definition StatusNotFound :: nat where "StatusNotFound = 404"
definition StatusMethodNotAllowed :: nat where "StatusMethodNotAllowed = 405"
definition StatusServiceUnavailable :: nat where "StatusServiceUnavailable = 503"

lemmas status_defs = StatusOK_def StatusMovedPermanently_def StatusBadRequest_def StatusUnauthorized_def
  StatusNotFound_def StatusMethodNotAllowed_def StatusServiceUnavailable_def

text \<open>A handler also works on the state of the program.\<close>

type_synonym 's Handler = "Request \<Rightarrow> 's \<times> ResponseWriter \<Rightarrow> 's \<times> ResponseWriter"

section \<open>The state behind the handlers\<close>

record SmokeTestRequest =
  sm_Endpoint :: string
  sm_Token :: string
  sm_Timeout :: int
  sm_MaxSessionIDLength :: int

datatype Warning =
    AuthRefused string string
  | SmokeTestFailed string
  | SendResultFailed string string string

text \<open>\<open>st_smoketests\<close> are the smoke tests whose goroutines run, \<open>st_results\<close> the results that
  were handed to \<^verbatim>\<open>SendResult\<close>.\<close>

record Site =
  st_world :: world
  st_warnings :: "Warning list"
  st_smoketests :: "SmokeTestRequest list"
  st_results :: "string list"

definition warn :: "Warning \<Rightarrow> Site \<Rightarrow> Site" where
  "warn x s = s\<lparr>st_warnings := st_warnings s @ [x]\<rparr>"

text \<open>What the libraries contribute while one request is served: the token of a user in a request and
  its verification by the discovery service (\<open>None\<close> when it is good), the name of the
  header with the client id, the app key in a token, whether the server is registered, the
  decoding of a smoke test and the library's error responses.\<close>

record HttpEnv =
  GetUserToken :: "Request \<Rightarrow> string"
  VerifyUserAuth :: "string \<Rightarrow> string option"
  HeaderPosemeshClientID :: string
  GetAppKey :: "string \<Rightarrow> string"
  IsRegistered :: bool
  unmarshalSmokeTest :: "string \<Rightarrow> SmokeTestRequest option"
  InternalServerError :: "ResponseWriter \<Rightarrow> ResponseWriter"
  BadRequest :: "ResponseWriter \<Rightarrow> ResponseWriter"

section \<open>The helpers of the package http\<close>

definition HandleWithCORS :: "'s Handler \<Rightarrow> 's Handler" where
  "HandleWithCORS h r = (\<lambda>(s, rw).
    let rw1 = SetHeader ''Access-Control-Allow-Headers'' ''Accept, Content-Type, Content-Length, Accept-Encoding''
          (SetHeader ''Access-Control-Allow-Methods'' ''POST, GET, OPTIONS''
            (SetHeader ''Access-Control-Allow-Origin'' ''*'' rw))
    in if rq_Method r = ''OPTIONS'' then (s, WriteHeader StatusOK rw1) else h r (s, rw1))"

definition VerifyAuthToken :: "HttpEnv \<Rightarrow> Request \<Rightarrow> Site \<Rightarrow> string option \<times> Site" where
  "VerifyAuthToken v r s =
    (case VerifyUserAuth v (GetUserToken v r) of
       Some err \<Rightarrow> (Some err, warn (AuthRefused (rq_Header r (HeaderPosemeshClientID v)) err) s)
     | None \<Rightarrow> (None, s))"

definition VerifyAuthTokenHandler :: "HttpEnv \<Rightarrow> Site Handler \<Rightarrow> Site Handler" where
  "VerifyAuthTokenHandler v next r = (\<lambda>(s, rw).
    case VerifyUserAuth v (GetUserToken v r) of
      Some err \<Rightarrow>
        (warn (AuthRefused (rq_Header r (HeaderPosemeshClientID v)) err) s, WriteHeader StatusUnauthorized rw)
    | None \<Rightarrow> next r (s, rw))"

definition HandleHealthCheck :: "'s Handler" where
  "HandleHealthCheck r = (\<lambda>(s, rw). (s, WriteHeader StatusOK rw))"

definition HandleReadyCheck :: "bool \<Rightarrow> 's Handler" where
  "HandleReadyCheck readinessCheck r = (\<lambda>(s, rw).
    if \<not> readinessCheck then (s, WriteHeader StatusServiceUnavailable rw)
    else (s, WriteHeader StatusOK rw))"

definition HandleVersion :: "string \<Rightarrow> 's Handler" where
  "HandleVersion version r = (\<lambda>(s, rw). (s, WriteBody version (WriteHeader StatusOK rw)))"

definition MetricsPathFormatter :: "nat \<Rightarrow> string \<Rightarrow> string" where
  "MetricsPathFormatter statusCode path =
    (if statusCode = StatusMovedPermanently \<or> statusCode = StatusBadRequest \<or>
        statusCode = StatusNotFound \<or> statusCode = StatusMethodNotAllowed
     then '''' else path)"

section \<open>Smoke tests\<close>

record Options =
  op_Endpoint :: string
  op_UserAgent :: string

definition HandleSmokeTest :: "HttpEnv \<Rightarrow> Site Handler" where
  "HandleSmokeTest v r = (\<lambda>(s, rw).
    case rq_Body r of
      None \<Rightarrow> (s, InternalServerError v rw)
    | Some b \<Rightarrow>
        (case unmarshalSmokeTest v b of
           None \<Rightarrow> (s, BadRequest v rw)
         | Some req \<Rightarrow>
             (s\<lparr>st_smoketests := st_smoketests s @ [req]\<rparr>, WriteHeader StatusOK rw)))"

text \<open>The goroutine of a smoke test. The library runs the test, which yields a result and
  possibly an error, and sends the result in any case.\<close>

definition smoke_test_run ::
  "Options \<Rightarrow> (string \<Rightarrow> SmokeTestRequest \<Rightarrow> string \<times> string option) \<Rightarrow> (string \<Rightarrow> string option) \<Rightarrow>
    SmokeTestRequest \<Rightarrow> Site \<Rightarrow> Site" where
  "smoke_test_run opts RunSmokeTest SendResult req s =
    (let (res, err) = RunSmokeTest (op_Endpoint opts) req;
         s1 = (case err of None \<Rightarrow> s | Some x \<Rightarrow> warn (SmokeTestFailed x) s);
         s2 = s1\<lparr>st_results := st_results s1 @ [res]\<rparr>
     in case SendResult res of
          None \<Rightarrow> s2
        | Some x \<Rightarrow> warn (SendResultFailed (op_Endpoint opts) (sm_Endpoint req) x) s2)"

definition smoke_test_step ::
  "Options \<Rightarrow> (string \<Rightarrow> SmokeTestRequest \<Rightarrow> string \<times> string option) \<Rightarrow> (string \<Rightarrow> string option) \<Rightarrow>
    nat \<Rightarrow> Site \<Rightarrow> Site" where
  "smoke_test_step opts RunSmokeTest SendResult i s =
    (if i < length (st_smoketests s)
     then smoke_test_run opts RunSmokeTest SendResult (st_smoketests s ! i)
            (s\<lparr>st_smoketests := take i (st_smoketests s) @ drop (Suc i) (st_smoketests s)\<rparr>)
     else s)"

section \<open>The multiplexer\<close>

text \<open>\<^verbatim>\<open>http.ServeMux\<close>: a pattern that ends in a slash matches every path that it is a prefix of,
  another one matches itself only, and the longest match wins. The paths are clean.\<close>

definition matches :: "string \<Rightarrow> string \<Rightarrow> bool" where
  "matches p path \<longleftrightarrow> path = p \<or> (p \<noteq> '''' \<and> last p = CHR ''/'' \<and> take (length p) path = p)"

fun best_match :: "(string \<times> 'h) list \<Rightarrow> string \<Rightarrow> (string \<times> 'h) option" where
  "best_match [] path = None"
| "best_match ((p, h) # rs) path =
    (if \<not> matches p path then best_match rs path
     else (case best_match rs path of
             None \<Rightarrow> Some (p, h)
           | Some (q, g) \<Rightarrow> if length p < length q then Some (q, g) else Some (p, h)))"

definition ServeMux :: "(string \<times> 's Handler) list \<Rightarrow> 's Handler" where
  "ServeMux rs r = (\<lambda>(s, rw).
    case best_match rs (rq_Path r) of
      None \<Rightarrow> (s, WriteBody ''404 page not found'' (WriteHeader StatusNotFound rw))
    | Some (p, h) \<Rightarrow> h r (s, rw))"

section \<open>What the helpers do\<close>

text \<open>The multiplexer picks the longest of the patterns that match.\<close>

lemma best_match_None: "best_match rs path = None \<longleftrightarrow> (\<forall>(p, h) \<in> set rs. \<not> matches p path)"
  by (induction rs path rule: best_match.induct) (auto split: option.splits)

lemma best_match_Some:
  assumes "best_match rs path = Some (p, h)"
  shows "(p, h) \<in> set rs \<and> matches p path \<and> (\<forall>(q, g) \<in> set rs. matches q path \<longrightarrow> length q \<le> length p)"
  using assms
proof (induction rs arbitrary: p h)
  case (Cons a rs)
  obtain q g where a: "a = (q, g)" by fastforce
  show ?case
  proof (cases "matches q path")
    case False
    then show ?thesis using Cons.IH [of p h] Cons.prems by (simp add: a)
  next
    case m: True
    show ?thesis
    proof (cases "best_match rs path")
      case None
      then have "p = q" "h = g" using Cons.prems m by (simp_all add: a)
      moreover have "\<forall>(p, h) \<in> set rs. \<not> matches p path" using None by (simp only: best_match_None)
      ultimately show ?thesis using m by (auto simp: a)
    next
      case (Some b)
      obtain q' g' where b: "b = (q', g')" by fastforce
      have "(q', g') \<in> set rs" "matches q' path" "\<forall>(q, g) \<in> set rs. matches q path \<longrightarrow> length q \<le> length q'"
        using Cons.IH [of q' g'] Some by (simp_all add: b)
      then show ?thesis
        using Cons.prems m Some by (fastforce simp: a b split: if_splits)
    qed
  qed
qed simp

lemma matches_length: "matches p path \<Longrightarrow> length p \<le> length path"
  unfolding matches_def by (elim disjE conjE) (simp, drule arg_cong [where f = length], simp)

text \<open>A preflight request is answered by the CORS wrapper alone.\<close>

lemma cors_preflight:
  assumes "rq_Method r = ''OPTIONS''"
  shows "fst (HandleWithCORS h r (s, emptyResponse)) = s"
    and "rw_status (snd (HandleWithCORS h r (s, emptyResponse))) = Some 200"
  using assms by (simp_all add: HandleWithCORS_def WriteHeader_def SetHeader_def emptyResponse_def status_defs)

lemma cors_passes:
  assumes "rq_Method r \<noteq> ''OPTIONS''"
  shows "\<exists>rw. HandleWithCORS h r (s, emptyResponse) = h r (s, rw) \<and> rw_status rw = None \<and>
    rw_header rw ''Access-Control-Allow-Origin'' = Some ''*''"
  using assms
  by (simp add: HandleWithCORS_def SetHeader_def emptyResponse_def Let_def) (rule exI, rule conjI, rule refl, simp)

text \<open>The statuses whose paths the metrics leave out.\<close>

lemma formatter_keeps: "path \<noteq> '''' \<Longrightarrow> (MetricsPathFormatter c path = path) = (c \<notin> {301, 400, 404, 405})"
  by (auto simp: MetricsPathFormatter_def status_defs)

text \<open>Each smoke test that is taken has its result sent, even after an error.\<close>

lemma smoke_test_step_results:
  assumes "i < length (st_smoketests s)"
  shows "st_results (smoke_test_step opts R S i s) =
      st_results s @ [fst (R (op_Endpoint opts) (st_smoketests s ! i))]"
    and "length (st_smoketests (smoke_test_step opts R S i s)) = length (st_smoketests s) - 1"
    and "st_world (smoke_test_step opts R S i s) = st_world s"
  using assms
  by (auto simp: smoke_test_step_def smoke_test_run_def warn_def Let_def split: prod.splits option.splits)

end
