(* ===== verification/Effects.thy ===== *)
theory Effects
imports Dispatch
begin

text \<open>
  What the handlers do to the state, handler by handler, as far as the invariant needs it.
  \<open>local_step sp pp\<close> is the effect of every handler that neither joins nor leaves: it
  changes the session \<open>sp\<close> and the participant \<open>pp\<close> in place and keeps the
  membership of all sessions. The effect of leaving and of entering a session is given in
  closed form over the operations of a session.
\<close>

section \<open>Local steps\<close>

definition same_members :: "'m Session \<Rightarrow> 'm Session \<Rightarrow> bool" where
  "same_members s s' \<longleftrightarrow>
    s_participants s' = s_participants s \<and> s_frameHandlers s' = s_frameHandlers s \<and>
    s_ID s' = s_ID s \<and> s_AppKey s' = s_AppKey s \<and> s_closeOnce s' = s_closeOnce s"

definition local_step :: "sptr \<Rightarrow> pptr \<Rightarrow> world \<Rightarrow> world \<Rightarrow> bool" where
  "local_step sp pp w w' \<longleftrightarrow>
    (\<forall>q. q \<noteq> sp \<longrightarrow> w_sess w' q = w_sess w q) \<and>
    same_members (w_sess w sp) (w_sess w' sp) \<and>
    (\<forall>q. q \<noteq> pp \<longrightarrow> w_part w' q = w_part w q) \<and>
    p_ID (w_part w' pp) = p_ID (w_part w pp) \<and>
    p_Responder (w_part w' pp) = p_Responder (w_part w pp) \<and>
    w_nextS w' = w_nextS w \<and> w_nextP w' = w_nextP w \<and> w_nextC w' = w_nextC w \<and>
    w_store w' = w_store w \<and> w_hand w' = w_hand w \<and> w_loop w' = w_loop w \<and>
    w_receipts w' = w_receipts w \<and>
    (\<forall>q. q \<noteq> pp \<longrightarrow> w_latency w' q = w_latency w q) \<and>
    (latency_at (p_Responder (w_part w pp)) (w_latency w pp) \<longrightarrow>
      latency_at (p_Responder (w_part w pp)) (w_latency w' pp))"

lemma local_step_refl [simp]: "local_step sp pp w w"
  by (simp add: local_step_def same_members_def)

lemma local_step_trans [trans]:
  "local_step sp pp w w' \<Longrightarrow> local_step sp pp w' w'' \<Longrightarrow> local_step sp pp w w''"
  unfolding local_step_def same_members_def by simp

lemma local_step_quiet:
  assumes "quiet f" and "local_step sp pp w w'"
  shows "local_step sp pp w (f w')"
  using assms(2) by (simp add: local_step_def quiet_frame [OF assms(1)])

lemma local_step_touches:
  assumes "touches sp w w'"
  shows "local_step sp pp w w'"
  using touchesD [OF assms] touches_session [OF assms]
  by (simp add: local_step_def same_members_def)

lemma local_step_upd_sess:
  assumes "same_members (w_sess w sp) (f (w_sess w sp))"
  shows "local_step sp pp w (upd_sess sp f w)"
  using assms by (simp add: local_step_def)

lemma local_step_upd_ecs: "local_step sp pp w (upd_ecs sp f w)"
  unfolding upd_ecs_def by (rule local_step_upd_sess) (simp add: same_members_def)

lemma local_step_upd_part:
  assumes "p_ID (f (w_part w pp)) = p_ID (w_part w pp)"
    and "p_Responder (f (w_part w pp)) = p_Responder (w_part w pp)"
  shows "local_step sp pp w (upd_part pp f w)"
  using assms by (simp add: local_step_def same_members_def)

lemma local_step_upd_latency:
  assumes "latency_at (p_Responder (w_part w pp)) s"
  shows "local_step sp pp w (upd_latency pp s w)"
  using assms by (simp add: local_step_def same_members_def)

lemma local_stepD:
  assumes "local_step sp pp w w'"
  shows "q \<noteq> sp \<Longrightarrow> w_sess w' q = w_sess w q"
    and "s_participants (w_sess w' q) = s_participants (w_sess w q)"
    and "s_frameHandlers (w_sess w' q) = s_frameHandlers (w_sess w q)"
    and "s_ID (w_sess w' q) = s_ID (w_sess w q)"
    and "s_AppKey (w_sess w' q) = s_AppKey (w_sess w q)"
    and "s_closeOnce (w_sess w' q) = s_closeOnce (w_sess w q)"
    and "r \<noteq> pp \<Longrightarrow> w_part w' r = w_part w r"
    and "p_ID (w_part w' r) = p_ID (w_part w r)"
    and "p_Responder (w_part w' r) = p_Responder (w_part w r)"
    and "w_nextS w' = w_nextS w" "w_nextP w' = w_nextP w" "w_nextC w' = w_nextC w"
    and "w_store w' = w_store w" "w_hand w' = w_hand w" "w_loop w' = w_loop w"
    and "w_receipts w' = w_receipts w"
    and "r \<noteq> pp \<Longrightarrow> w_latency w' r = w_latency w r"
    and "latency_at (p_Responder (w_part w r)) (w_latency w r) \<Longrightarrow>
      latency_at (p_Responder (w_part w r)) (w_latency w' r)"
proof -
  note L = assms [unfolded local_step_def same_members_def]
  show "w_sess w' q = w_sess w q" if "q \<noteq> sp" using L that by blast
  show "w_part w' r = w_part w r" if "r \<noteq> pp" using L that by blast
  show "s_participants (w_sess w' q) = s_participants (w_sess w q)"
    "s_frameHandlers (w_sess w' q) = s_frameHandlers (w_sess w q)"
    "s_ID (w_sess w' q) = s_ID (w_sess w q)"
    "s_AppKey (w_sess w' q) = s_AppKey (w_sess w q)"
    "s_closeOnce (w_sess w' q) = s_closeOnce (w_sess w q)"
    using L by (metis, metis, metis, metis, metis)
  show "p_ID (w_part w' r) = p_ID (w_part w r)"
    "p_Responder (w_part w' r) = p_Responder (w_part w r)"
    using L by (metis, metis)
  show "w_nextS w' = w_nextS w" "w_nextP w' = w_nextP w" "w_nextC w' = w_nextC w"
    "w_store w' = w_store w" "w_hand w' = w_hand w" "w_loop w' = w_loop w"
    "w_receipts w' = w_receipts w"
    using L by simp_all
  show "w_latency w' r = w_latency w r" if "r \<noteq> pp" using L that by blast
  show "latency_at (p_Responder (w_part w r)) (w_latency w' r)"
    if "latency_at (p_Responder (w_part w r)) (w_latency w r)"
    using L that by metis
qed

lemma joined_hand: "w_hand w' = w_hand w \<Longrightarrow> joined w' = joined w"
  by (simp add: fun_eq_iff joined_def split: option.split)

lemma joined_at: "w_hand w' c = w_hand w c \<Longrightarrow> joined w' c = joined w c"
  by (simp only: joined_def)

lemma joined_local: "local_step sp pp w w' \<Longrightarrow> joined w' = joined w"
  by (rule joined_hand) (rule local_stepD)

section \<open>Sending and notifying\<close>

lemma quiet_Notify:
  assumes "\<And>ids. quiet (h ids)"
  shows "quiet (\<lambda>w. Notify r t h (s w) w)"
  unfolding quiet_def
proof
  fix w :: world
  have "\<exists>q. w = w\<lparr>w_out := q\<rparr>"
    by (rule exI [where x = "w_out w"]) simp
  then show "\<exists>q. Notify r t h (s w) w = w\<lparr>w_out := q\<rparr>"
    using assms unfolding quiet_def Notify_def by (simp split: option.split)
qed

lemma quiet_comp_respond: "quiet (\<lambda>w. respond e c (m w) w)"
  using quiet_respond unfolding quiet_def by blast

lemma quiet_if: "quiet f \<Longrightarrow> quiet g \<Longrightarrow> quiet (if b then f else g)"
  by simp

lemmas quiet_sends = quiet_respond quiet_reply_error quiet_broadcast quiet_broadcast_to
  quiet_IfNotSet quiet_Notify quiet_comp_respond quiet_if

text \<open>Every send that a handler makes under a feature flag.\<close>

lemmas flagged_frame [simp] =
  quiet_frame [OF quiet_IfNotSet [OF quiet_broadcast]]
  quiet_frame [OF quiet_IfNotSet [OF quiet_comp_respond]]

end
