(* ===== verification/Session_Ok.thy ===== *)
theory Session_Ok
imports Effects
begin

text \<open>
  The invariant of a session with the states of its modules, \<open>session_ok\<close>, and that
  every handler which neither joins nor leaves is a local step that keeps it. The module
  states are well formed, and tidy: they mention entities of the session only. A handler
  for the deletion of an entity leaves them untidy by that one entity, and the modules,
  which run after it on the same message, tidy up.
\<close>

section \<open>The invariant of a session\<close>

definition mods_ok :: "nat \<Rightarrow> ModState Session \<Rightarrow> bool" where
  "mods_ok n s \<longleftrightarrow> typed s \<and> vikja_ok (vikja_in s) \<and> odal_ok n (odal_in s)"

definition session_ok :: "nat \<Rightarrow> (pptr \<Rightarrow> Participant) \<Rightarrow> ModState Session \<Rightarrow> bool" where
  "session_ok n H s \<longleftrightarrow> sess_ok n H s \<and> mods_ok n s \<and> vikja.tidy s \<and> odal.tidy s"

text \<open>The module states mention, besides entities of the session, those in \<open>X\<close> only.\<close>

definition tidy_but :: "u32 set \<Rightarrow> ModState Session \<Rightarrow> bool" where
  "tidy_but X s \<longleftrightarrow>
    action_entities (vikja_in s) \<subseteq> X \<union> dom (s_entities s) \<and>
    asset_entities (odal_in s) \<subseteq> X \<union> dom (s_entities s)"

lemma tidy_but_none: "tidy_but {} s \<longleftrightarrow> vikja.tidy s \<and> odal.tidy s"
  by (simp add: tidy_but_def vikja.tidy_def odal.tidy_def)

lemma session_okD:
  assumes "session_ok n H s"
  shows "sess_ok n H s" "mods_ok n s" "vikja.tidy s" "odal.tidy s"
  using assms by (simp_all add: session_ok_def)

lemma mods_ok_mono: "mods_ok n s \<Longrightarrow> n \<le> m \<Longrightarrow> mods_ok m s"
  by (auto simp: mods_ok_def intro: odal_ok_mono)

lemma session_ok_mono: "session_ok n H s \<Longrightarrow> n \<le> m \<Longrightarrow> session_ok m H s"
  by (auto simp: session_ok_def intro: sess_ok_mono mods_ok_mono)

lemma modstates_cong:
  assumes "s_moduleStates s' = s_moduleStates s"
  shows "vikja_in s' = vikja_in s" "odal_in s' = odal_in s" "mods_ok n s' = mods_ok n s"
  using assms by (simp_all add: vikja_in_def odal_in_def ModuleState_def mods_ok_def typed_def)

lemma session_ok_core:
  assumes "session_ok n H s" and "n \<le> m" and "sess_ok m H' s'"
    and "s_moduleStates s' = s_moduleStates s" and "dom (s_entities s) \<subseteq> dom (s_entities s')"
  shows "session_ok m H' s'"
  using assms modstates_cong [OF assms(4)] mods_ok_mono [of n s m]
  by (simp add: session_ok_def vikja.tidy_def odal.tidy_def) (meson subset_trans)

lemma session_ok_heap:
  assumes "session_ok n H s" and "\<And>pid p. s_participants s pid = Some p \<Longrightarrow> H' p = H p"
  shows "session_ok n H' s"
  using assms sess_ok_heap [of n H s H'] by (auto simp: session_ok_def)

lemma session_ok_new: "session_ok n H ((NewSession i uuid)\<lparr>s_AppKey := k\<rparr>)"
proof -
  let ?s = "(NewSession i uuid :: ModState Session)\<lparr>s_AppKey := k\<rparr>"
  have "vikja_in ?s = newVikjaState" "odal_in ?s = newOdalState"
    by (simp_all add: vikja_in_def odal_in_def ModuleState_def NewSession_def)
  moreover have "typed ?s" by (simp add: typed_def NewSession_def)
  ultimately show ?thesis
    by (simp add: session_ok_def mods_ok_def sess_ok_new vikja_ok_new odal_ok_new
        vikja.tidy_def odal.tidy_def)
qed

lemma session_ok_Start [simp]: "session_ok n H (StartDispatchFrames s) = session_ok n H s"
proof -
  have "s_moduleStates (StartDispatchFrames s) = s_moduleStates s"
    "s_entities (StartDispatchFrames s) = s_entities s"
    by (simp_all add: StartDispatchFrames_def)
  then show ?thesis
    using modstates_cong [of "StartDispatchFrames s" s]
    by (simp add: session_ok_def vikja.tidy_def odal.tidy_def)
qed

section \<open>Modules\<close>

lemma EntityByID_dom: "EntityByID i s = None \<longleftrightarrow> i \<notin> dom (s_entities s)"
  by (simp add: EntityByID_def domIff)

lemma Vikja_Msg_typed:
  assumes "typed (w_sess w p)"
  shows "typed (w_sess (snd (Vikja_HandleMsg e c m msg w)) p)"
  using assms
  by (simp add: Vikja_HandleMsg_def Vikja_handleParticipantJoin_def Vikja_handleEntityDelete_def
      Vikja_handleSetEntityAction_def Let_def split: Msg.split sum.split option.split)

lemma Odal_Msg_typed:
  assumes "typed (w_sess w p)"
  shows "typed (w_sess (snd (Odal_HandleMsg e c m msg w)) p)"
  using assms
  by (simp add: Odal_HandleMsg_def Odal_handleParticipantJoin_def Odal_handleEntityDelete_def
      Odal_handleAssetInstanceAdd_def Let_def split: Msg.split sum.split option.split prod.split)

lemma Vikja_Msg_mods_ok:
  assumes m: "m_current m = Some (sp, pp)" and ok: "mods_ok n (w_sess w sp)"
  shows "mods_ok n (w_sess (snd (Vikja_HandleMsg e c m msg w)) sp)"
proof -
  let ?s = "w_sess (snd (Vikja_HandleMsg e c m msg w)) sp"
  have "odal_in ?s = odal_in (w_sess w sp)"
    by (simp add: odal_in_def ModuleState_def Vikja_Msg_other)
  moreover have "vikja_ok (vikja_in ?s)"
    using Vikja_Msg_state [OF m, of e c msg w] ok unfolding mods_ok_def
    by (metis vikja_ok_Set vikja_ok_Remove)
  ultimately show ?thesis
    using ok Vikja_Msg_typed [of w sp e c m msg] by (simp add: mods_ok_def)
qed

lemma Odal_Msg_mods_ok:
  assumes m: "m_current m = Some (sp, pp)" and ok: "mods_ok n (w_sess w sp)"
    and e: "env_ok e" and n: "n < id_limit"
  shows "mods_ok (Suc n) (w_sess (snd (Odal_HandleMsg e c m msg w)) sp)"
proof -
  let ?s = "w_sess (snd (Odal_HandleMsg e c m msg w)) sp"
  have "vikja_in ?s = vikja_in (w_sess w sp)"
    by (simp add: vikja_in_def ModuleState_def Odal_Msg_other)
  moreover have okn: "odal_ok n (odal_in (w_sess w sp))" using ok by (simp add: mods_ok_def)
  moreover have ok1: "odal_ok (Suc n) (odal_in (w_sess w sp))" using okn by (rule odal_ok_mono) simp
  moreover have "odal_ok (Suc n) (odal_in ?s)"
    using Odal_Msg_state [OF m, of e c msg w]
  proof (elim disjE exE conjE)
    fix j en aid i st
    assume N: "NewAssetInstanceID (rangeU e) (odal_in (w_sess w sp)) = (i, st)"
      and S: "odal_in ?s = SetAssetInstance \<lparr>ai_Id = i, ai_AssetId = aid,
        ai_ParticipantId = p_ID (w_part w pp), ai_EntityId = e_ID en\<rparr> st"
    show ?thesis unfolding S
      by (rule odal_ok_Set [OF env_okD(1) [OF e] okn n N]) simp
  qed (simp_all add: ok1 odal_ok_Remove)
  ultimately show ?thesis
    using ok Odal_Msg_typed [of w sp e c m msg] by (simp add: mods_ok_def)
qed

text \<open>Only the request to add an asset draws an id.\<close>

lemma Odal_Msg_mods_ok_same:
  assumes m: "m_current m = Some (sp, pp)" and ok: "mods_ok n (w_sess w sp)"
    and msg: "\<And>data. msg \<noteq> OdalAssetInstanceAddRequest data"
  shows "mods_ok n (w_sess (snd (Odal_HandleMsg e c m msg w)) sp)"
proof -
  let ?s = "w_sess (snd (Odal_HandleMsg e c m msg w)) sp"
  have "vikja_in ?s = vikja_in (w_sess w sp)"
    by (simp add: vikja_in_def ModuleState_def Odal_Msg_other)
  moreover have "odal_ok n (odal_in ?s)"
    using ok m msg
    by (auto simp: mods_ok_def Odal_HandleMsg_def Odal_handleParticipantJoin_def
        Odal_handleEntityDelete_def odal_ok_Remove split: Msg.split sum.split)
  ultimately show ?thesis
    using ok Odal_Msg_typed [of w sp e c m msg] by (simp add: mods_ok_def)
qed

text \<open>The entity that a message deletes, once it is gone from the session.\<close>

definition deleting :: "Msg \<Rightarrow> ModState Session \<Rightarrow> u32 set" where
  "deleting msg s =
    (case msg of
       EntityDeleteRequest (Inr req) \<Rightarrow>
         if EntityByID (edel_EntityId req) s = None then {edel_EntityId req} else {}
     | _ \<Rightarrow> {})"

lemma deleting_cases:
  obtains "deleting msg s = {}"
  | req where "msg = EntityDeleteRequest (Inr req)" "EntityByID (edel_EntityId req) s = None"
      "deleting msg s = {edel_EntityId req}"
  by (cases "deleting msg s = {}") (auto simp: deleting_def split: Msg.splits sum.splits if_splits)

lemma Vikja_Msg_tidy:
  assumes m: "m_current m = Some (sp, pp)" and k: "keys_ok (w_sess w sp)"
    and t: "action_entities (vikja_in (w_sess w sp)) \<subseteq>
      deleting msg (w_sess w sp) \<union> dom (s_entities (w_sess w sp))"
  shows "vikja.tidy (w_sess (snd (Vikja_HandleMsg e c m msg w)) sp)"
proof (cases rule: deleting_cases [of msg "w_sess w sp"])
  case 1
  with t show ?thesis by (intro vikja.tidy_Msg [OF m k]) (simp add: vikja.tidy_def)
next
  case (2 req)
  with t show ?thesis by (intro vikja.tidy_delete [OF m 2(1,2)]) simp
qed

lemma Odal_Msg_tidy:
  assumes m: "m_current m = Some (sp, pp)" and k: "keys_ok (w_sess w sp)"
    and t: "asset_entities (odal_in (w_sess w sp)) \<subseteq>
      deleting msg (w_sess w sp) \<union> dom (s_entities (w_sess w sp))"
  shows "odal.tidy (w_sess (snd (Odal_HandleMsg e c m msg w)) sp)"
proof (cases rule: deleting_cases [of msg "w_sess w sp"])
  case 1
  with t show ?thesis by (intro odal.tidy_Msg [OF m k]) (simp add: odal.tidy_def)
next
  case (2 req)
  with t show ?thesis by (intro odal.tidy_delete [OF m 2(1,2)]) simp
qed

text \<open>On a message that deletes an entity, the first module does not fail, so that the
  second one runs too.\<close>

lemma Vikja_delete_succeeds:
  assumes "m_current m = Some (sp, pp)" and "deleting msg (w_sess w sp) \<noteq> {}"
  shows "fst (Vikja_HandleMsg e c m msg w) = Nil_error"
  using assms
  by (cases rule: deleting_cases [of msg "w_sess w sp"])
    (auto simp: Vikja_HandleMsg_def Vikja_handleEntityDelete_def)

section \<open>The modules of a connection\<close>

text \<open>The modules of a handler, in the order in which they run, with their session.\<close>

definition modules_at :: "sptr \<Rightarrow> pptr \<Rightarrow> Module list \<Rightarrow> bool" where
  "modules_at sp pp ms \<longleftrightarrow>
    map m_kind ms = [VikjaModule, OdalModule, DagazModule] \<and> (\<forall>m \<in> set ms. m_current m = Some (sp, pp))"

lemma modules_atE:
  assumes "modules_at sp pp ms"
  obtains v od dz where "ms = [v, od, dz]" "m_kind v = VikjaModule" "m_kind od = OdalModule" "m_kind dz = DagazModule"
    "m_current v = Some (sp, pp)" "m_current od = Some (sp, pp)" "m_current dz = Some (sp, pp)"
  using assms by (auto simp: modules_at_def)

lemma HandleWithModule_world:
  assumes "joined w c \<noteq> None"
  shows "snd (HandleWithModule e c m msg w) = snd (mod_HandleMsg e c m msg w)"
    and "fst (mod_HandleMsg e c m msg w) = Nil_error \<Longrightarrow>
      fst (HandleWithModule e c m msg w) = Nil_error"
  using assms
  by (auto simp: HandleWithModule_def split: prod.split outcome.split)

lemma run_modules_two:
  "run_modules e c [v, od] msg w =
    (case HandleWithModule e c v msg w of
       (Nil_error, w1) \<Rightarrow> HandleWithModule e c od msg w1
     | (out, w1) \<Rightarrow> (out, w1))"
  by (auto split: prod.split outcome.split)

lemma run_two_ok:
  assumes m: "ms = [v, od]" "m_kind v = VikjaModule" "m_kind od = OdalModule"
    and v: "m_current v = Some (sp, pp)" and od: "m_current od = Some (sp, pp)" and j: "joined w c \<noteq> None"
    and s: "sess_ok n H (w_sess w sp)" and o: "mods_ok k (w_sess w sp)" and k: "k \<le> n"
    and O: "\<And>m w'. m_current m = Some (sp, pp) \<Longrightarrow> mods_ok k (w_sess w' sp) \<Longrightarrow>
      mods_ok n (w_sess (snd (Odal_HandleMsg e c m msg w')) sp)"
    and t: "tidy_but (deleting msg (w_sess w sp)) (w_sess w sp)"
  shows "touches sp w (snd (run_modules e c ms msg w))"
    and "session_ok n H (w_sess (snd (run_modules e c ms msg w)) sp)"
proof -
  obtain out w1 where W: "HandleWithModule e c v msg w = (out, w1)" by fastforce
  have w1: "w1 = snd (Vikja_HandleMsg e c v msg w)"
    using HandleWithModule_world(1) [OF j, of e v msg] by (simp add: W mod_HandleMsg_def m)
  have T1: "touches sp w w1"
    using vikja.Msg_touches [OF v] by (simp add: w1)
  have ks: "keys_ok (w_sess w sp)" using s by (rule sess_ok_keys)
  have O1: "mods_ok k (w_sess w1 sp)" unfolding w1 by (rule Vikja_Msg_mods_ok [OF v o])
  have V1: "vikja.tidy (w_sess w1 sp)"
    unfolding w1 using t by (intro Vikja_Msg_tidy [OF v ks]) (simp add: tidy_but_def)
  have same: "odal_in (w_sess w1 sp) = odal_in (w_sess w sp)"
    by (simp add: w1 odal_in_def ModuleState_def Vikja_Msg_other)
  have D1: "deleting msg (w_sess w1 sp) = deleting msg (w_sess w sp)"
    by (simp add: deleting_def EntityByID_def touches_session(1) [OF T1] split: Msg.split sum.split)
  have A1: "asset_entities (odal_in (w_sess w1 sp)) \<subseteq>
      deleting msg (w_sess w1 sp) \<union> dom (s_entities (w_sess w1 sp))"
    using t by (simp add: tidy_but_def same D1 touches_session(1) [OF T1])
  have S1: "sess_ok n H (w_sess w1 sp)"
    using s touches_session(8) [OF T1] by simp
  consider (stop) "out \<noteq> Nil_error" "run_modules e c ms msg w = (out, w1)"
    | (go) "run_modules e c ms msg w = HandleWithModule e c od msg w1"
    by (cases out) (simp_all add: m(1) run_modules_two W del: run_modules.simps)
  then have "touches sp w (snd (run_modules e c ms msg w)) \<and>
    session_ok n H (w_sess (snd (run_modules e c ms msg w)) sp)"
  proof cases
    case stop
    then have "fst (Vikja_HandleMsg e c v msg w) \<noteq> Nil_error"
      using HandleWithModule_world(2) [OF j, of e v msg] by (auto simp: W mod_HandleMsg_def m)
    then have "deleting msg (w_sess w sp) = {}"
      using Vikja_delete_succeeds [OF v] by blast
    then have "odal.tidy (w_sess w1 sp)"
      using A1 by (simp add: D1 odal.tidy_def)
    then show ?thesis
      using stop(2) T1 S1 V1 mods_ok_mono [OF O1 k] by (simp add: session_ok_def)
  next
    case go
    have j1: "joined w1 c \<noteq> None"
      using j joined_local [OF local_step_touches [OF T1]] by simp
    let ?w2 = "snd (Odal_HandleMsg e c od msg w1)"
    have R: "snd (run_modules e c ms msg w) = ?w2"
      using HandleWithModule_world(1) [OF j1, of e od msg] by (simp add: go mod_HandleMsg_def m(3))
    have T2: "touches sp w1 ?w2" by (rule odal.Msg_touches [OF od])
    have k1: "keys_ok (w_sess w1 sp)" using S1 by (rule sess_ok_keys)
    have "odal.tidy (w_sess ?w2 sp)" by (rule Odal_Msg_tidy [OF od k1 A1])
    moreover have "vikja_in (w_sess ?w2 sp) = vikja_in (w_sess w1 sp)"
      by (simp add: vikja_in_def ModuleState_def Odal_Msg_other)
    then have "vikja.tidy (w_sess ?w2 sp)"
      using V1 by (simp add: vikja.tidy_def touches_session(1) [OF T2])
    moreover have "mods_ok n (w_sess ?w2 sp)" by (rule O [OF od O1])
    moreover have "sess_ok n H (w_sess ?w2 sp)" using S1 touches_session(8) [OF T2] by simp
    ultimately show ?thesis
      using touches_trans [OF T1 T2] by (simp add: R session_ok_def)
  qed
  then show "touches sp w (snd (run_modules e c ms msg w))"
    "session_ok n H (w_sess (snd (run_modules e c ms msg w)) sp)" by simp_all
qed

text \<open>The third module keeps to its own state, which nothing else depends on.\<close>

lemma Dagaz_Msg_ok:
  assumes m: "m_current m = Some (sp, pp)" and ok: "session_ok n H (w_sess w sp)"
  shows "session_ok n H (w_sess (snd (Dagaz_HandleMsg e c m msg w)) sp)"
proof -
  let ?w' = "snd (Dagaz_HandleMsg e c m msg w)"
  note T = Dagaz_Msg_touches [OF m, of w e c msg]
  have "typed (w_sess ?w' sp)"
    using Dagaz_Msg_step [OF m, of e c w msg] ok
    by (auto simp: small_step_def session_ok_def mods_ok_def respond_def)
  moreover have "vikja_in (w_sess ?w' sp) = vikja_in (w_sess w sp)" "odal_in (w_sess ?w' sp) = odal_in (w_sess w sp)"
    by (simp_all add: vikja_in_def odal_in_def ModuleState_def Dagaz_Msg_other)
  ultimately show ?thesis
    using ok touches_session(1,8) [OF T]
    by (simp add: session_ok_def mods_ok_def vikja.tidy_def odal.tidy_def)
qed

lemma run_modules_last:
  "run_modules e c [v, od, dz] msg w =
    (case run_modules e c [v, od] msg w of
       (Nil_error, w1) \<Rightarrow> HandleWithModule e c dz msg w1
     | (out, w1) \<Rightarrow> (out, w1))"
  by (auto split: prod.split outcome.split)

lemma run_modules_ok:
  assumes ms: "modules_at sp pp ms" and j: "joined w c \<noteq> None"
    and s: "sess_ok n H (w_sess w sp)" and o: "mods_ok k (w_sess w sp)" and k: "k \<le> n"
    and O: "\<And>m w'. m_current m = Some (sp, pp) \<Longrightarrow> mods_ok k (w_sess w' sp) \<Longrightarrow>
      mods_ok n (w_sess (snd (Odal_HandleMsg e c m msg w')) sp)"
    and t: "tidy_but (deleting msg (w_sess w sp)) (w_sess w sp)"
  shows "touches sp w (snd (run_modules e c ms msg w))"
    and "session_ok n H (w_sess (snd (run_modules e c ms msg w)) sp)"
proof -
  obtain v od dz where m: "ms = [v, od, dz]" "m_kind v = VikjaModule" "m_kind od = OdalModule" "m_kind dz = DagazModule"
    and c: "m_current v = Some (sp, pp)" "m_current od = Some (sp, pp)" "m_current dz = Some (sp, pp)"
    using ms by (rule modules_atE)
  let ?w1 = "snd (run_modules e c [v, od] msg w)"
  have 1: "touches sp w ?w1" "session_ok n H (w_sess ?w1 sp)"
    by (rule run_two_ok [OF refl m(2,3) c(1,2) j s o k O t]; assumption)+
  have "joined ?w1 c \<noteq> None" using j joined_local [OF local_step_touches [OF 1(1)]] by simp
  note R = HandleWithModule_world(1) [OF this, of e dz msg]
  have D: "snd (run_modules e c ms msg w) \<in> {?w1, snd (Dagaz_HandleMsg e c dz msg ?w1)}"
    using R by (auto simp: m run_modules_last mod_HandleMsg_def simp del: run_modules.simps split: prod.split outcome.split)
  then show "touches sp w (snd (run_modules e c ms msg w))"
    using 1(1) touches_trans [OF 1(1) Dagaz_Msg_touches [OF c(3)]] by auto
  show "session_ok n H (w_sess (snd (run_modules e c ms msg w)) sp)"
    using D 1(2) Dagaz_Msg_ok [OF c(3) 1(2)] by auto
qed

end
