(* ===== verification/Local_Steps.thy ===== *)
theory Local_Steps
imports Session_Ok
begin

text \<open>
  Every handler other than joining, leaving and receipts is a core step: a local step of the
  sender's session and participant that keeps the invariant of the session and leaves the
  module states alone, dropping at most the entity that the message deletes. Without a
  session a handler only answers.
\<close>

section \<open>Core steps\<close>

definition core_step :: "nat \<Rightarrow> Msg \<Rightarrow> sptr \<Rightarrow> pptr \<Rightarrow> world \<Rightarrow> world \<Rightarrow> bool" where
  "core_step n msg sp pp w w' \<longleftrightarrow>
    local_step sp pp w w' \<and> sess_ok (Suc n) (w_part w') (w_sess w' sp) \<and>
    s_moduleStates (w_sess w' sp) = s_moduleStates (w_sess w sp) \<and>
    dom (s_entities (w_sess w sp)) \<subseteq>
      deleting msg (w_sess w' sp) \<union> dom (s_entities (w_sess w' sp))"

lemma core_step_refl:
  assumes "sess_ok n (w_part w) (w_sess w sp)"
  shows "core_step n msg sp pp w w"
  using assms by (auto simp: core_step_def intro: sess_ok_mono)

lemma core_step_quiet:
  assumes "quiet f" and "core_step n msg sp pp w w'"
  shows "core_step n msg sp pp w (f w')"
  using assms(2) local_step_quiet [OF assms(1)]
  by (simp add: core_step_def quiet_frame [OF assms(1)])

lemmas core_step_sends = core_step_quiet [OF quiet_respond] core_step_quiet [OF quiet_reply_error]
  core_step_quiet [OF quiet_broadcast] core_step_quiet [OF quiet_broadcast_to]
  core_step_quiet [OF quiet_IfNotSet] core_step_quiet [OF quiet_if] quiet_sends

lemma core_step_ecs:
  assumes ok: "sess_ok n (w_part w) (w_sess w sp)"
    and x: "ecs_ok (Suc n) (dom (s_entities (w_sess w sp))) (dom (s_participants (w_sess w sp)))
      (f (ecs_at w sp))"
  shows "core_step n msg sp pp w (upd_ecs sp f w)"
proof -
  have "sess_ok (Suc n) (w_part w) ((w_sess w sp)\<lparr>s_entityComponents := f (ecs_at w sp)\<rparr>)"
    using x by (intro sess_ok_ecs [OF ok]) simp_all
  then show ?thesis
    using local_step_upd_ecs [of sp pp w f] by (auto simp: core_step_def upd_ecs_def ecs_at_def)
qed

text \<open>What the invariant of the state gives to the handlers of a connection.\<close>

definition member :: "nat \<Rightarrow> world \<Rightarrow> conn \<Rightarrow> sptr \<Rightarrow> pptr \<Rightarrow> bool" where
  "member n w c sp pp \<longleftrightarrow>
    joined w c = Some (sp, pp) \<and> h_currentSession (w_hand w c) = Some sp \<and>
    sess_ok n (w_part w) (w_sess w sp) \<and>
    s_participants (w_sess w sp) (p_ID (w_part w pp)) = Some pp \<and>
    p_Responder (w_part w pp) = c \<and> latency_at c (w_latency w pp)"

lemma memberD:
  assumes "member n w c sp pp"
  shows "joined w c = Some (sp, pp)" "h_currentSession (w_hand w c) = Some sp"
    "sess_ok n (w_part w) (w_sess w sp)"
    "s_participants (w_sess w sp) (p_ID (w_part w pp)) = Some pp"
    "core_step n msg sp pp w w"
    "ecs_ok n (dom (s_entities (w_sess w sp))) (dom (s_participants (w_sess w sp))) (ecs_at w sp)"
    "ecs_ok (Suc n) (dom (s_entities (w_sess w sp))) (dom (s_participants (w_sess w sp))) (ecs_at w sp)"
    "p_Responder (w_part w pp) = c" "latency_at c (w_latency w pp)"
    "h_currentParticipant (w_hand w c) = Some pp"
proof -
  show "h_currentParticipant (w_hand w c) = Some pp"
    using assms by (auto simp: member_def joined_def split: option.splits)
  show "p_Responder (w_part w pp) = c" "latency_at c (w_latency w pp)"
    using assms by (simp_all add: member_def)
  show "joined w c = Some (sp, pp)" "h_currentSession (w_hand w c) = Some sp"
    and s: "sess_ok n (w_part w) (w_sess w sp)"
    and "s_participants (w_sess w sp) (p_ID (w_part w pp)) = Some pp"
    using assms by (simp_all add: member_def)
  show "core_step n msg sp pp w w" using s by (rule core_step_refl)
  show x: "ecs_ok n (dom (s_entities (w_sess w sp))) (dom (s_participants (w_sess w sp))) (ecs_at w sp)"
    using sess_okD(4) [OF s] by (simp add: ecs_at_def)
  then show "ecs_ok (Suc n) (dom (s_entities (w_sess w sp))) (dom (s_participants (w_sess w sp))) (ecs_at w sp)"
    by (rule ecs_ok_mono) simp_all
qed

lemma member_entity:
  assumes "member n w c sp pp" and "EntityByID i (w_sess w sp) = Some en"
  shows "e_ID en = i" and "i \<in> dom (s_entities (w_sess w sp))"
  using sess_okD(6) [OF memberD(3) [OF assms(1)]] assms(2) by (auto simp: EntityByID_def)

lemma DataTo_core:
  assumes "member n w c sp pp"
    and "\<And>req. data = Inr req \<Longrightarrow> core_step n msg sp pp w (snd (k req w))"
  shows "core_step n msg sp pp w (snd (DataTo data k w))"
  using assms memberD(5) [OF assms(1)] by (auto simp: DataTo_def split: sum.split)

section \<open>The handlers\<close>

lemma HandlePing_core:
  assumes "member n w c sp pp"
  shows "core_step n msg sp pp w (snd (HandlePing e c data w))"
  unfolding HandlePing_def
  by (rule DataTo_core [OF assms]) (simp add: core_step_sends memberD(5) [OF assms])

lemma core_step_latency:
  assumes m: "member n w c sp pp" and "latency_at c s"
  shows "core_step n msg sp pp w (upd_latency pp s w)"
  using memberD(5) [OF m, of msg] local_step_upd_latency [of w pp s sp] assms(2) memberD(8) [OF m]
  by (simp add: core_step_def)

lemma HandlePingResponse_core:
  assumes m: "member n w c sp pp"
  shows "core_step n msg sp pp w (snd (HandlePingResponse e c data w))"
  unfolding HandlePingResponse_def
proof (rule DataTo_core [OF m], goal_cases)
  case (1 req)
  obtain failed s ms where O: "OnPing (rangeU e) (clockReading e) (marshalLatency e) (signData e)
      (pong_RequestId req) (w_latency w pp) = (failed, s, ms)" by (metis prod.exhaust)
  have "core_step n msg sp pp w (upd_latency pp s w)"
    by (rule core_step_latency [OF m latency_at_OnPing(1) [OF memberD(9) [OF m] O]])
  then show ?case
    by (simp add: memberD(10) [OF m] O Let_def core_step_sends core_step_quiet [OF quiet_send_all] split: option.split)
qed

lemma HandleSignedLatency_core:
  assumes m: "member n w c sp pp"
  shows "core_step n msg sp pp w (snd (HandleSignedLatency e c data w))"
  unfolding HandleSignedLatency_def
proof (rule DataTo_core [OF m], goal_cases)
  case (1 req)
  show ?case
    using core_step_latency [OF m latency_at_Start]
    by (simp add: memberD(2,5,10) [OF m] core_step_sends core_step_quiet [OF quiet_send_all] split: prod.split)
      (metis fst_conv core_step_quiet [OF quiet_send_all])
qed

lemma HandleEntityAdd_core:
  assumes m: "member n w c sp pp" and e: "env_ok e" and n: "n < id_limit"
  shows "core_step n msg sp pp w (snd (HandleEntityAdd e c data w))"
  unfolding HandleEntityAdd_def
proof (rule DataTo_core [OF m], goal_cases)
  case (1 req)
  obtain i s1 where N: "NewEntityID (rangeU e) (w_sess w sp) = (i, s1)" by fastforce
  define en where "en = (case eadd_Pose req of
      None \<Rightarrow> \<lparr>e_ID = i, e_ParticipantID = p_ID (w_part w pp), e_Persist = eadd_Persist req,
        e_Flag = eadd_Flag req, e_pose = zeroPose\<rparr>
    | Some p \<Rightarrow> SetPose (Pose_of_request p)
        \<lparr>e_ID = i, e_ParticipantID = p_ID (w_part w pp), e_Persist = eadd_Persist req,
        e_Flag = eadd_Flag req, e_pose = zeroPose\<rparr>)"
  have en: "e_ID en = i" "e_ParticipantID en = p_ID (w_part w pp)"
    by (simp_all add: en_def split: option.split)
  let ?w = "upd_part pp (Participant_AddEntity en) (upd_sess sp (\<lambda>_. AddEntity en s1) w)"
  have s1: "\<exists>g. s1 = (w_sess w sp)\<lparr>s_entityIDs := g\<rparr>"
    using N by (auto simp: NewEntityID_def split: prod.splits)
  then have "same_members (w_sess w sp) (AddEntity en s1)"
    by (auto simp: same_members_def AddEntity_def)
  then have "local_step sp pp w ?w"
    using local_step_upd_part local_step_upd_sess local_step_trans by (metis Participant_entity_frame(1,2))
  moreover have "sess_ok (Suc n) (w_part ?w) (w_sess ?w sp)"
    using sess_ok_AddEntity(2) [OF _ n memberD(3,4) [OF m] N en] e by simp
  moreover have "s_moduleStates (w_sess ?w sp) = s_moduleStates (w_sess w sp)"
    "dom (s_entities (w_sess w sp)) \<subseteq> dom (s_entities (w_sess ?w sp))"
    using s1 by (auto simp: AddEntity_def)
  ultimately have "core_step n msg sp pp w ?w" by (auto simp: core_step_def)
  then show ?case
    by (simp add: with_joined_def memberD(1) [OF m] N Let_def en_def [symmetric]
        core_step_sends)
qed

text \<open>Deleting an entity: afterwards it is the entity that the message deletes.\<close>

lemma HandleEntityDelete_core:
  assumes m: "member n w c sp pp"
  shows "core_step n (EntityDeleteRequest data) sp pp w (snd (HandleEntityDelete e c data w))"
  unfolding HandleEntityDelete_def
proof (rule DataTo_core [OF m], goal_cases)
  case (1 req)
  show ?case
  proof (cases "\<exists>en. EntityByID (edel_EntityId req) (w_sess w sp) = Some en \<and>
      e_ParticipantID en = p_ID (w_part w pp)")
    case False
    then show ?thesis
      by (auto simp: with_joined_def memberD(1,5) [OF m] core_step_sends split: option.split)
  next
    case True
    then obtain en where en: "EntityByID (edel_EntityId req) (w_sess w sp) = Some en"
      "e_ParticipantID en = p_ID (w_part w pp)" by blast
    have i: "e_ID en = edel_EntityId req" using member_entity(1) [OF m en(1)] .
    let ?w1 = "upd_sess sp (RemoveEntity en) (upd_ecs sp (DeleteByEntityID (e_ID en)) w)"
    let ?w = "upd_part pp (Participant_RemoveEntity en) ?w1"
    have S: "w_sess ?w sp = RemoveEntity en ((w_sess w sp)\<lparr>s_entityComponents :=
        DeleteByEntityID (e_ID en) (s_entityComponents (w_sess w sp))\<rparr>)"
      by (simp add: upd_ecs_def)
    have "local_step sp pp w ?w1"
      by (rule local_step_trans [OF local_step_upd_ecs local_step_upd_sess])
        (simp add: same_members_def RemoveEntity_def)
    then have "local_step sp pp w ?w"
      by (rule local_step_trans) (rule local_step_upd_part; simp)
    moreover have "sess_ok n (w_part ?w) (w_sess ?w sp)"
      using sess_ok_DeleteEntity [OF memberD(3,4) [OF m], of "edel_EntityId req" en] en S
      by (simp add: EntityByID_def upd_ecs_def)
    then have "sess_ok (Suc n) (w_part ?w) (w_sess ?w sp)" by (rule sess_ok_mono) simp
    moreover have "s_moduleStates (w_sess ?w sp) = s_moduleStates (w_sess w sp)"
      unfolding S by (simp add: RemoveEntity_def)
    moreover have "dom (s_entities (w_sess w sp)) \<subseteq>
        deleting (EntityDeleteRequest (Inr req)) (w_sess ?w sp) \<union> dom (s_entities (w_sess ?w sp))"
      unfolding S by (auto simp: RemoveEntity_def deleting_def EntityByID_def i)
    ultimately have "core_step n (EntityDeleteRequest data) sp pp w ?w"
      using 1 by (auto simp: core_step_def)
    then show ?thesis
      by (simp add: with_joined_def memberD(1) [OF m] en Let_def core_step_sends)
  qed
qed

lemma HandleEntityUpdatePose_core:
  assumes m: "member n w c sp pp"
  shows "core_step n msg sp pp w (snd (HandleEntityUpdatePose e c data w))"
  unfolding HandleEntityUpdatePose_def
proof (rule DataTo_core [OF m], goal_cases)
  case (1 req)
  have "core_step n msg sp pp w (upd_sess sp (UpdateEntity i (SetPose v)) w)" for i v
  proof -
    let ?w = "upd_sess sp (UpdateEntity i (SetPose v)) w"
    have "local_step sp pp w ?w"
      by (rule local_step_upd_sess) (simp add: same_members_def UpdateEntity_def)
    moreover have "sess_ok (Suc n) (w_part ?w) (w_sess ?w sp)"
      using sess_ok_mono [OF sess_ok_UpdatePose [OF memberD(3) [OF m]], of "Suc n"] by simp
    ultimately show ?thesis
      by (auto simp: core_step_def UpdateEntity_def)
  qed
  then show ?case
    using memberD(5) [OF m, of msg]
    by (auto simp: with_joined_def memberD(1) [OF m] Let_def core_step_sends
        split: option.split)
qed

lemma HandleCustomMessage_core:
  assumes m: "member n w c sp pp"
  shows "core_step n msg sp pp w (snd (HandleCustomMessage e c data w))"
  unfolding HandleCustomMessage_def
  by (rule DataTo_core [OF m])
    (simp add: with_joined_def memberD(1,5) [OF m] Let_def core_step_sends)

section \<open>The handlers of entity components\<close>

lemmas member_answers = with_joined_def with_session_def Let_def core_step_sends

lemma HandleEntityComponentTypeAdd_core:
  assumes m: "member n w c sp pp" and e: "env_ok e" and n: "n < id_limit"
  shows "core_step n msg sp pp w (snd (HandleEntityComponentTypeAdd e c data w))"
  unfolding HandleEntityComponentTypeAdd_def
proof (rule DataTo_core [OF m], goal_cases)
  case (1 req)
  have "core_step n msg sp pp w (upd_ecs sp (\<lambda>_. ecs) w)"
    if "AddType (rangeU e) name (ecs_at w sp) = (i, ecs)" for name i ecs
    using ecs_ok_AddType [OF env_okD(1) [OF e] memberD(6) [OF m] n, of name] that
    by (intro core_step_ecs [OF memberD(3) [OF m]]) simp
  then show ?case
    by (auto simp: member_answers memberD(2,5) [OF m] split: prod.split)
qed

lemma HandleEntityComponentGet_core:
  assumes m: "member n w c sp pp"
  shows "core_step n msg sp pp w (snd (HandleEntityComponentGetName e c id_data w))"
    and "core_step n msg sp pp w (snd (HandleEntityComponentGetID e c name_data w))"
    and "core_step n msg sp pp w (snd (HandleEntityComponentList e c id_data w))"
  unfolding HandleEntityComponentGetName_def HandleEntityComponentGetID_def
    HandleEntityComponentList_def
  by (rule DataTo_core [OF m];
      simp add: member_answers memberD(2,5) [OF m] split: sum.split)+

lemma HandleEntityComponentAdd_core:
  assumes m: "member n w c sp pp"
  shows "core_step n msg sp pp w (snd (HandleEntityComponentAdd e c data w))"
  unfolding HandleEntityComponentAdd_def
proof (rule DataTo_core [OF m], goal_cases)
  case (1 req)
  have "core_step n msg sp pp w (upd_ecs sp (\<lambda>_. ecs) w)"
    if "ECAdd ec (ecs_at w sp) = (err, ecs)" "EntityByID i (w_sess w sp) = Some en"
      "ec_EntityId ec = e_ID en" for i en ec err ecs
    using that member_entity [OF m that(2)] ecs_ok_ECAdd [OF memberD(7) [OF m], of ec]
    by (intro core_step_ecs [OF memberD(3) [OF m]]) simp
  then show ?case
    by (auto simp: member_answers memberD(1,5) [OF m] split: prod.split option.split)
qed

lemma HandleEntityComponentDelete_core:
  assumes m: "member n w c sp pp"
  shows "core_step n msg sp pp w (snd (HandleEntityComponentDelete e c data w))"
  unfolding HandleEntityComponentDelete_def
proof (rule DataTo_core [OF m], goal_cases)
  case (1 req)
  have "core_step n msg sp pp w (upd_ecs sp (\<lambda>_. ecs) w)"
    if "ECDelete t i (ecs_at w sp) = (b, ecs)" for t i b ecs
    using ecs_ok_ECDelete [OF memberD(7) [OF m], of t i] that
    by (intro core_step_ecs [OF memberD(3) [OF m]]) simp
  then show ?case
    by (auto simp: member_answers memberD(1,5) [OF m] split: prod.split option.split)
qed

lemma HandleEntityComponentUpdate_core:
  assumes m: "member n w c sp pp"
  shows "core_step n msg sp pp w (snd (HandleEntityComponentUpdate e c data w))"
  unfolding HandleEntityComponentUpdate_def
proof (rule DataTo_core [OF m], goal_cases)
  case (1 req)
  have "core_step n msg sp pp w (upd_ecs sp (\<lambda>s. snd (ECUpdate ec s)) w)" for ec
    by (intro core_step_ecs [OF memberD(3) [OF m]] ecs_ok_ECUpdate [OF memberD(7) [OF m]])
  then show ?case
    by (auto simp: member_answers memberD(1,5) [OF m] split: option.split)
qed

lemma HandleEntityComponentSubscribe_core:
  assumes m: "member n w c sp pp"
  shows "core_step n msg sp pp w (snd (HandleEntityComponentSubscribe e c data w))"
    and "core_step n msg sp pp w (snd (HandleEntityComponentUnsubscribe e c data w))"
proof -
  have P: "p_ID (w_part w pp) \<in> dom (s_participants (w_sess w sp))"
    using memberD(4) [OF m] by blast
  have "core_step n msg sp pp w (upd_ecs sp (\<lambda>_. ecs) w)"
    if "Subscribe t (p_ID (w_part w pp)) (ecs_at w sp) = (err, ecs)" for t err ecs
    using ecs_ok_Subscribe [OF memberD(7) [OF m] P, of t] that
    by (intro core_step_ecs [OF memberD(3) [OF m]]) simp
  then show "core_step n msg sp pp w (snd (HandleEntityComponentSubscribe e c data w))"
    unfolding HandleEntityComponentSubscribe_def
    by (intro DataTo_core [OF m])
      (auto simp: member_answers memberD(1,5) [OF m] split: prod.split option.split)
  have "core_step n msg sp pp w (upd_ecs sp (Unsubscribe t (p_ID (w_part w pp))) w)" for t
    by (intro core_step_ecs [OF memberD(3) [OF m]] ecs_ok_Unsubscribe [OF memberD(7) [OF m]])
  then show "core_step n msg sp pp w (snd (HandleEntityComponentUnsubscribe e c data w))"
    unfolding HandleEntityComponentUnsubscribe_def
    by (intro DataTo_core [OF m]) (auto simp: member_answers memberD(1,5) [OF m])
qed

lemma handle_component_core:
  assumes "member n w c sp pp" and "env_ok e" and "n < id_limit"
  shows "core_step n msg sp pp w (snd (handle_component e c cm w))"
  using assms
  by (cases cm)
    (simp_all add: handle_component_def HandleEntityComponentTypeAdd_core
      HandleEntityComponentGet_core HandleEntityComponentAdd_core HandleEntityComponentDelete_core
      HandleEntityComponentUpdate_core HandleEntityComponentSubscribe_core)

section \<open>All messages\<close>

text \<open>Joining, and the receipts, which belong to no session, are treated apart.\<close>

definition plain :: "Msg \<Rightarrow> bool" where
  "plain msg = (case msg of
     ParticipantJoinRequest data \<Rightarrow> False | ReceiptRequest data \<Rightarrow> False | _ \<Rightarrow> True)"

lemma handle_core_step:
  assumes "member n w c sp pp" and "env_ok e" and "n < id_limit" and "plain msg"
  shows "core_step n msg sp pp w (snd (handle_core e c msg w))"
  using assms
  by (cases msg)
    (simp_all add: handle_core_def plain_def HandlePing_core HandlePingResponse_core
      HandleSignedLatency_core HandleEntityAdd_core
      HandleEntityDelete_core HandleEntityUpdatePose_core HandleCustomMessage_core
      handle_component_core memberD(5))

section \<open>Without a session\<close>

definition idle :: "world \<Rightarrow> world \<Rightarrow> bool" where
  "idle w w' \<longleftrightarrow> (\<exists>q. w' = w\<lparr>w_out := q\<rparr>)"

lemma idle_refl [simp]: "idle w w"
  unfolding idle_def by (rule exI [where x = "w_out w"]) simp

lemma idle_quiet: "quiet f \<Longrightarrow> idle w (f w)"
  by (simp add: idle_def quiet_def)

lemmas idle_answers = idle_quiet [OF quiet_respond] idle_quiet [OF quiet_reply_error]

lemma DataTo_idle:
  assumes "\<And>req. idle w (snd (k req w))"
  shows "idle w (snd (DataTo data k w))"
  using assms by (simp add: DataTo_def split: sum.split)

lemma handle_core_idle:
  assumes "h_currentSession (w_hand w c) = None" and "plain msg"
    and "h_currentParticipant (w_hand w c) = None"
  shows "idle w (snd (handle_core e c msg w))"
proof -
  have j: "joined w c = None" using assms(1) by (simp add: joined_def)
  note simps = DataTo_idle with_joined_def with_session_def j assms(1) idle_answers
  have "idle w (snd (handle_component e c cm w))" for cm
    by (cases cm)
      (simp_all add: handle_component_def simps HandleEntityComponentTypeAdd_def
        HandleEntityComponentGetName_def HandleEntityComponentGetID_def HandleEntityComponentAdd_def
        HandleEntityComponentDelete_def HandleEntityComponentUpdate_def HandleEntityComponentList_def
        HandleEntityComponentSubscribe_def HandleEntityComponentUnsubscribe_def)
  then show ?thesis
    using assms(2)
    by (cases msg)
      (simp_all add: handle_core_def plain_def simps assms(3) HandlePing_def HandlePingResponse_def
        HandleSignedLatency_def HandleEntityAdd_def
        HandleEntityDelete_def HandleEntityUpdatePose_def HandleCustomMessage_def)
qed

end
