(* ===== verification/Membership.thy ===== *)
theory Membership
imports Local_Steps
begin

text \<open>
  Leaving and entering a session in closed form. \<open>left_state\<close> is the session after the
  participant left: the modules dropped what they kept on its entities, then its
  subscriptions, its entities, its frame handler and itself went. Proved here: that
  \<open>leaveSession\<close> has exactly this effect, with the session removed from the store and
  closed when it was the last participant; that the session stays well formed and tidy; and
  what \<open>enter_session\<close> and \<open>join_session\<close> change.
\<close>

section \<open>Leaving\<close>

definition left_state :: "Env \<Rightarrow> conn \<Rightarrow> sptr \<Rightarrow> pptr \<Rightarrow> u32 \<Rightarrow> world \<Rightarrow> ModState Session" where
  "left_state e c sp pp fid w =
    Leave (w_part w) (rangeU e (EntityIDs (w_part w pp))) pp fid
      (w_sess (fold (mod_HandleDisconnect e) (h_Modules (w_hand w c)) w) sp)"

lemma world_eqI_out: "quiet f \<Longrightarrow> \<exists>q. f w = w\<lparr>w_out := q\<rparr>"
  by (simp add: quiet_def)

lemma leave_entity_effect:
  "\<exists>q. leave_entity e sp pp i w =
    w\<lparr>w_sess := (w_sess w)(sp := DropOwned i (w_sess w sp)), w_out := q\<rparr>"
proof (cases "\<exists>en. EntityByID i (w_sess w sp) = Some en \<and> \<not> e_Persist en")
  case False
  then have "leave_entity e sp pp i w = w" "DropOwned i (w_sess w sp) = w_sess w sp"
    by (auto simp: leave_entity_def DropOwned_def split: option.split)
  then show ?thesis by (intro exI [where x = "w_out w"]) simp
next
  case True
  then obtain en where en: "EntityByID i (w_sess w sp) = Some en" "\<not> e_Persist en" by blast
  let ?w = "upd_sess sp (RemoveEntity en) (upd_ecs sp (DeleteByEntityID (e_ID en)) w)"
  have "?w = w\<lparr>w_sess := (w_sess w)(sp := DropOwned i (w_sess w sp))\<rparr>"
    using en by (simp add: upd_sess_def upd_ecs_def DropOwned_def)
  moreover obtain q where "leave_entity e sp pp i w = ?w\<lparr>w_out := q\<rparr>"
    using en world_eqI_out [OF quiet_IfNotSet [OF quiet_broadcast]] by (simp add: leave_entity_def) blast
  ultimately show ?thesis by (intro exI [where x = q]) simp
qed

lemma leave_loop_effect:
  "\<exists>q. fold (leave_entity e sp pp) is w =
    w\<lparr>w_sess := (w_sess w)(sp := fold DropOwned is (w_sess w sp)), w_out := q\<rparr>"
proof (induction "is" arbitrary: w)
  case Nil
  show ?case by (rule exI [where x = "w_out w"]) simp
next
  case (Cons i "is")
  obtain q where "leave_entity e sp pp i w =
      w\<lparr>w_sess := (w_sess w)(sp := DropOwned i (w_sess w sp)), w_out := q\<rparr>"
    using leave_entity_effect by blast
  moreover obtain q' where "fold (leave_entity e sp pp) is (leave_entity e sp pp i w) =
      (leave_entity e sp pp i w)\<lparr>w_sess := (w_sess (leave_entity e sp pp i w))
        (sp := fold DropOwned is (w_sess (leave_entity e sp pp i w) sp)), w_out := q'\<rparr>"
    using Cons by blast
  ultimately show ?case by (intro exI [where x = q']) (simp add: fun_eq_iff)
qed

lemma Close_Close [simp]: "Close (Close s) = Close s"
  by (simp add: Close_def)

lemma disconnect_modules_touches:
  assumes "modules_at sp pp ms"
  shows "touches sp w (fold (mod_HandleDisconnect e) ms w)"
proof -
  obtain v od dz where m: "ms = [v, od, dz]" "m_current v = Some (sp, pp)" "m_current od = Some (sp, pp)"
    "m_current dz = Some (sp, pp)" using assms by (rule modules_atE)
  then show ?thesis
    using touches_trans [OF touches_trans [OF mod_Disc_touches [OF m(2)] mod_Disc_touches [OF m(3)]] mod_Disc_touches [OF m(4)]]
    by simp
qed

lemma leaveSession_effect:
  fixes e :: Env and w :: world and c :: conn
  assumes j: "joined w c = Some (sp, pp)" and ms: "modules_at sp pp (h_Modules (w_hand w c))"
    and f: "h_stopFrameHandling (w_hand w c) = Some (sp, fid)"
  defines "s \<equiv> left_state e c sp pp fid w"
    and "h \<equiv> (w_hand w c)\<lparr>h_currentParticipant := None, h_currentSession := None\<rparr>"
  shows "\<exists>q. leaveSession e c w =
    (if ParticipantCount s = 0
     then w\<lparr>w_store := fst (SessionStore_Remove s (w_store w)),
            w_sess := (w_sess w)(sp := Close s), w_hand := (w_hand w)(c := h), w_out := q\<rparr>
     else w\<lparr>w_sess := (w_sess w)(sp := s), w_hand := (w_hand w)(c := h), w_out := q\<rparr>)"
proof -
  define w1 where "w1 = fold (mod_HandleDisconnect e) (h_Modules (w_hand w c)) w"
  define w2 where "w2 = upd_ecs sp (UnsubscribeByParticipant (p_ID (w_part w1 pp))) w1"
  define w3 where "w3 = fold (leave_entity e sp pp) (rangeU e (EntityIDs (w_part w2 pp))) w2"
  define w4 where "w4 = upd_sess sp (CancelFrame fid) w3"
  define w5 where "w5 = upd_sess sp (RemoveParticipant (w_part w4) pp) w4"
  define w6 where "w6 = IfNotSet (FeatureFlags e) FlagDisableParticipantLeaveBroadcast
    (broadcast e sp pp (ParticipantLeaveBroadcast (Some (clockNow e)) (p_ID (w_part w1 pp)))) w5"
  have "touches sp w w1" unfolding w1_def using ms by (rule disconnect_modules_touches)
  then obtain mst q1 where w1: "w1 = w\<lparr>w_sess := (w_sess w)(sp := (w_sess w sp)\<lparr>s_moduleStates := mst\<rparr>), w_out := q1\<rparr>"
    unfolding touches_def by blast
  obtain q3 where w3: "w3 = w2\<lparr>w_sess := (w_sess w2)
      (sp := fold DropOwned (rangeU e (EntityIDs (w_part w2 pp))) (w_sess w2 sp)), w_out := q3\<rparr>"
    unfolding w3_def using leave_loop_effect by blast
  have P: "w_part w1 = w_part w" "w_part w2 = w_part w" "w_part w4 = w_part w"
    by (simp_all add: w4_def w3 w2_def upd_ecs_def w1)
  have s: "s = RemoveParticipant (w_part w) pp (CancelFrame fid
      (fold DropOwned (rangeU e (EntityIDs (w_part w pp))) (w_sess w2 sp)))"
    by (simp add: s_def left_state_def Leave_def upd_ecs_def w2_def P w1_def [symmetric])
  have w5: "w5 = w\<lparr>w_sess := (w_sess w)(sp := s), w_out := q3\<rparr>"
    by (simp add: w5_def P w4_def w3 s upd_sess_def) (simp add: w2_def upd_ecs_def upd_sess_def w1)
  obtain q where "w6 = w5\<lparr>w_out := q\<rparr>"
    unfolding w6_def using world_eqI_out [OF quiet_IfNotSet [OF quiet_broadcast]] by blast
  then have w6: "w6 = w\<lparr>w_sess := (w_sess w)(sp := s), w_out := q\<rparr>"
    by (simp add: w5)
  have f3: "h_stopFrameHandling (w_hand w3 c) = Some (sp, fid)"
    by (simp add: w3 w2_def upd_ecs_def w1 f)
  have "leaveSession e c w =
    upd_hand c (\<lambda>h. h\<lparr>h_currentParticipant := None, h_currentSession := None\<rparr>)
      (if ParticipantCount (w_sess w6 sp) = 0
       then (let (st, s) = SessionStore_Remove (w_sess w6 sp) (w_store w6)
             in w6\<lparr>w_store := st, w_sess := (w_sess w6)(sp := Close s)\<rparr>)
       else w6)"
    unfolding leaveSession_def j Let_def option.case prod.case w1_def [symmetric] w2_def [symmetric]
      w3_def [symmetric] f3 w4_def [symmetric] w5_def [symmetric] w6_def [symmetric] ..
  then show ?thesis
    by (intro exI [where x = q])
      (simp add: upd_hand_def h_def w6 SessionStore_Remove_fields(3) case_prod_beta Let_def)
qed

text \<open>The modules drop exactly what they keep on the entities that leave.\<close>

lemma vikja_ok_loop: "vikja_ok st \<Longrightarrow>
    vikja_ok (fold (\<lambda>i st. if Q i then RemoveEntityActions i st else st) ids st)"
  by (rule fold_invariant_on) (simp_all add: vikja_ok_Remove)

lemma odal_ok_loop: "odal_ok n st \<Longrightarrow>
    odal_ok n (fold (\<lambda>i st. if Q i then RemoveAssetInstance i st else st) ids st)"
  by (rule fold_invariant_on) (simp_all add: odal_ok_Remove)

lemma Disc_typed:
  assumes "typed (w_sess w p)" and "m_current m = Some (sp, pp)"
  shows "typed (w_sess (Vikja_HandleDisconnect e m w) p)"
    and "typed (w_sess (Odal_HandleDisconnect e m w) p)"
  unfolding Vikja_HandleDisconnect_def Odal_HandleDisconnect_def assms(2) option.case prod.case
  using assms(1) by (rule fold_invariant_on [where I = "\<lambda>w. typed (w_sess w p)"]; simp)+

lemma disconnect_modules:
  assumes ms: "modules_at sp pp ms" and e: "env_ok e"
    and ok: "mods_ok n (w_sess w sp)" and t: "vikja.tidy (w_sess w sp)" "odal.tidy (w_sess w sp)"
  defines "s \<equiv> w_sess (fold (mod_HandleDisconnect e) ms w) sp"
  shows "mods_ok n s"
    and "action_entities (vikja_in s) \<subseteq> dom (s_entities (w_sess w sp)) - leaving w sp pp"
    and "asset_entities (odal_in s) \<subseteq> dom (s_entities (w_sess w sp)) - leaving w sp pp"
proof -
  obtain v od dz where m: "ms = [v, od, dz]" "m_kind v = VikjaModule" "m_kind od = OdalModule" "m_kind dz = DagazModule"
    and v: "m_current v = Some (sp, pp)" and od: "m_current od = Some (sp, pp)"
    using ms by (rule modules_atE)
  let ?w1 = "Vikja_HandleDisconnect e v w"
  let ?w2 = "Odal_HandleDisconnect e od ?w1"
  have s: "s = w_sess ?w2 sp" by (simp add: s_def m mod_HandleDisconnect_def Dagaz_HandleDisconnect_def)
  have T1: "touches sp w ?w1" by (rule vikja.Disc_touches [OF v])
  have L: "leaving ?w1 sp pp = leaving w sp pp"
    by (simp add: leaving_def EntityByID_def touchesD(1) [OF T1] touches_session(1) [OF T1])
  have V2: "vikja_in s = vikja_in (w_sess ?w1 sp)"
    by (simp add: s vikja_in_def ModuleState_def Odal_Disc_other)
  have O1: "odal_in (w_sess ?w1 sp) = odal_in (w_sess w sp)"
    by (simp add: odal_in_def ModuleState_def Vikja_Disc_other)
  show "action_entities (vikja_in s) \<subseteq> dom (s_entities (w_sess w sp)) - leaving w sp pp"
    using vikja.Disc_keys [OF e v, of w] t(1) by (auto simp: V2 vikja.tidy_def)
  show "asset_entities (odal_in s) \<subseteq> dom (s_entities (w_sess w sp)) - leaving w sp pp"
    using odal.Disc_keys [OF e od, of ?w1] t(2) by (auto simp: s O1 L odal.tidy_def)
  have "typed s"
    unfolding s using ok by (intro Disc_typed(2) [OF Disc_typed(1) [OF _ v] od]) (simp add: mods_ok_def)
  moreover have "vikja_ok (vikja_in s)"
    using ok by (simp add: V2 Vikja_HandleDisconnect_def v Vikja_disconnect_loop mods_ok_def vikja_ok_loop)
  moreover have "odal_ok n (odal_in s)"
    using ok by (simp add: s Odal_HandleDisconnect_def od Odal_disconnect_loop O1 mods_ok_def odal_ok_loop)
  ultimately show "mods_ok n s" by (simp add: mods_ok_def)
qed

lemma left_state_ok:
  assumes ok: "session_ok n (w_part w) (w_sess w sp)" and e: "env_ok e"
    and ms: "modules_at sp pp (h_Modules (w_hand w c))"
    and p: "s_participants (w_sess w sp) (p_ID (w_part w pp)) = Some pp"
    and f: "s_frameHandlers (w_sess w sp) fid = Some c"
  defines "s \<equiv> left_state e c sp pp fid w"
  shows "session_ok n (w_part w) s"
    and "s_participants s = (s_participants (w_sess w sp))(p_ID (w_part w pp) := None)"
    and "s_frameHandlers s = (s_frameHandlers (w_sess w sp))(fid := None)"
    and "s_ID s = s_ID (w_sess w sp)" and "s_AppKey s = s_AppKey (w_sess w sp)"
    and "s_closeOnce s = s_closeOnce (w_sess w sp)"
    and "s_entities s i = (if i \<in> leaving w sp pp then None else s_entities (w_sess w sp) i)"
proof -
  let ?w1 = "fold (mod_HandleDisconnect e) (h_Modules (w_hand w c)) w"
  let ?s1 = "w_sess ?w1 sp" and ?is = "rangeU e (EntityIDs (w_part w pp))"
  note okD = session_okD [OF ok]
  have T: "touches sp w ?w1" using ms by (rule disconnect_modules_touches)
  note D = disconnect_modules [OF ms e okD(2-4)]
  have S1: "sess_ok n (w_part w) ?s1" using okD(1) touches_session(8) [OF T] by simp
  have "finite (EntityIDs (w_part w pp))" by (rule finite)
  then have ids: "set ?is = p_entityIDs (w_part w pp)" using e by (simp add: EntityIDs_def)
  have p1: "s_participants ?s1 (p_ID (w_part w pp)) = Some pp" "s_frameHandlers ?s1 fid = Some c"
    using p f by (simp_all add: touches_session(2,3) [OF T])
  have S: "sess_ok n (w_part w) s"
    unfolding s_def left_state_def by (rule sess_ok_Leave [OF S1 p1 ids])
  have L: "s_entities s j = (if j \<in> leaving w sp pp then None else s_entities (w_sess w sp) j)" for j
    using Leave_entities [OF S1, of ?is pp fid j] ids
    by (auto simp: s_def left_state_def leaving_def EntityIDs_def EntityByID_def
        touches_session(1) [OF T] split: option.splits)
  then show "s_entities s i = (if i \<in> leaving w sp pp then None else s_entities (w_sess w sp) i)" .
  have M: "s_moduleStates s = s_moduleStates ?s1" by (simp add: s_def left_state_def)
  have "dom (s_entities s) = dom (s_entities (w_sess w sp)) - leaving w sp pp"
    by (auto simp: L split: if_splits)
  then show "session_ok n (w_part w) s"
    using S D modstates_cong [OF M] by (simp add: session_ok_def vikja.tidy_def odal.tidy_def)
  show "s_participants s = (s_participants (w_sess w sp))(p_ID (w_part w pp) := None)"
    "s_frameHandlers s = (s_frameHandlers (w_sess w sp))(fid := None)"
    "s_ID s = s_ID (w_sess w sp)" "s_AppKey s = s_AppKey (w_sess w sp)"
    "s_closeOnce s = s_closeOnce (w_sess w sp)"
    by (simp_all add: s_def left_state_def touches_session(2-7) [OF T])
qed

section \<open>Entering\<close>

lemma Dagaz_Init_others:
  "vikja_in (w_sess (snd (snd (Dagaz_Init sp pp m w))) sp) = vikja_in (w_sess w sp)"
  "odal_in (w_sess (snd (snd (Dagaz_Init sp pp m w))) sp) = odal_in (w_sess w sp)"
  by (simp_all add: vikja_in_def odal_in_def ModuleState_def dagaz.Init_other)

lemma Init_mods_ok:
  assumes "mods_ok n (w_sess w sp)"
  shows "mods_ok n (w_sess (snd (snd (mod_Init sp pp m w))) sp)"
proof -
  have "vikja_in (w_sess (snd (snd (Vikja_Init sp pp m w))) sp) \<in> {newVikjaState, vikja_in (w_sess w sp)}"
    "odal_in (w_sess (snd (snd (Vikja_Init sp pp m w))) sp) = odal_in (w_sess w sp)"
    "odal_in (w_sess (snd (snd (Odal_Init sp pp m w))) sp) \<in> {newOdalState, odal_in (w_sess w sp)}"
    "vikja_in (w_sess (snd (snd (Odal_Init sp pp m w))) sp) = vikja_in (w_sess w sp)"
    by (simp_all add: Vikja_Init_def Odal_Init_def Let_def split: option.split ModState.split)
  moreover note Dagaz_Init_others [of sp pp m w]
  ultimately show ?thesis
    using assms typed_Init(2) [of w sp pp m]
    by (auto simp: mods_ok_def mod_Init_def vikja_ok_new odal_ok_new split: ModuleKind.split)
qed

lemma Init_tidy:
  assumes "vikja.tidy (w_sess w sp)" and "odal.tidy (w_sess w sp)"
  shows "vikja.tidy (w_sess (snd (snd (mod_Init sp pp m w))) sp)"
    and "odal.tidy (w_sess (snd (snd (mod_Init sp pp m w))) sp)"
proof -
  have "odal_in (w_sess (snd (snd (Vikja_Init sp pp m w))) sp) = odal_in (w_sess w sp)"
    "vikja_in (w_sess (snd (snd (Odal_Init sp pp m w))) sp) = vikja_in (w_sess w sp)"
    by (simp_all add: Vikja_Init_def Odal_Init_def Let_def split: option.split ModState.split)
  with Dagaz_Init_others [of sp pp m w] show "vikja.tidy (w_sess (snd (snd (mod_Init sp pp m w))) sp)"
    "odal.tidy (w_sess (snd (snd (mod_Init sp pp m w))) sp)"
    using assms vikja.tidy_Init [OF assms(1), of pp m] odal.tidy_Init [OF assms(2), of pp m]
      touches_session(1) [OF mod_Init_touches [of sp w pp m], of sp]
    by (simp_all add: mod_Init_def vikja.tidy_def odal.tidy_def split: ModuleKind.splits)
qed

lemma InitModules_session_ok:
  assumes "session_ok n H (w_sess w sp)"
  shows "session_ok n H (w_sess (snd (snd (InitModules sp pp ms w))) sp)"
  using assms
proof (induction ms arbitrary: w)
  case Nil
  then show ?case by simp
next
  case (Cons m ms)
  obtain m' out w1 where I: "mod_Init sp pp m w = (m', out, w1)" by (metis prod.exhaust)
  have "session_ok n H (w_sess w1 sp)"
    using Cons.prems Init_mods_ok [of n w sp pp m] Init_tidy [of w sp pp m]
      touches_session(8) [OF mod_Init_touches [of sp w pp m], of n H sp]
    by (simp add: I session_ok_def)
  from Cons.IH [OF this] this show ?case by (auto simp: I split: prod.split)
qed

lemma enter_session_effect:
  assumes e: "env_ok e" and n: "n < id_limit" and ok: "session_ok n (w_part w) (w_sess w sp)"
    and fresh: "\<And>pid p. s_participants (w_sess w sp) pid = Some p \<Longrightarrow> p < w_nextP w"
  obtains pid fid s H where
    "enter_session e c sp w =
      (w_nextP w, w\<lparr>w_part := H, w_nextP := Suc (w_nextP w), w_latency := (w_latency w)(w_nextP w := newSignedLatency), w_sess := (w_sess w)(sp := s),
        w_hand := (w_hand w)(c := (w_hand w c)\<lparr>h_stopFrameHandling := Some (sp, fid)\<rparr>)\<rparr>)"
    and "H = (w_part w)(w_nextP w := \<lparr>p_ID = pid, p_Responder = c, p_entityIDs = {}\<rparr>)"
    and "session_ok (Suc n) H s" and "s_participants (w_sess w sp) pid = None"
    and "s_participants s = (s_participants (w_sess w sp))(pid \<mapsto> w_nextP w)"
    and "s_frameHandlers (w_sess w sp) fid = None"
    and "s_frameHandlers s = (s_frameHandlers (w_sess w sp))(fid \<mapsto> c)"
    and "s_entities s = s_entities (w_sess w sp)"
    and "s_ID s = s_ID (w_sess w sp)" and "s_AppKey s = s_AppKey (w_sess w sp)"
    and "s_closeOnce s = s_closeOnce (w_sess w sp)" and "s_UUID s = s_UUID (w_sess w sp)"
proof -
  obtain pid s1 where N: "NewParticipantID (rangeU e) (w_sess w sp) = (pid, s1)" by fastforce
  define H where "H = (w_part w)(w_nextP w := \<lparr>p_ID = pid, p_Responder = c, p_entityIDs = {}\<rparr>)"
  obtain fid s where F: "HandleFrame (rangeU e) c (AddParticipant H (w_nextP w) s1) = (fid, s)" by fastforce
  have H: "p_ID (H (w_nextP w)) = pid" "p_entityIDs (H (w_nextP w)) = {}" by (simp_all add: H_def)
  have "H p = w_part w p" if "s_participants (w_sess w sp) i = Some p" for i p
    using fresh [OF that] by (simp add: H_def)
  then have okH: "session_ok n H (w_sess w sp)" by (rule session_ok_heap [OF ok])
  note J = sess_ok_join [OF env_okD(1) [OF e] n session_okD(1) [OF okH] N H F]
  have S: "s_moduleStates s = s_moduleStates (w_sess w sp)" "s_ID s = s_ID (w_sess w sp)"
    "s_AppKey s = s_AppKey (w_sess w sp)" "s_closeOnce s = s_closeOnce (w_sess w sp)"
    "s_UUID s = s_UUID (w_sess w sp)"
    using N F by (auto simp: NewParticipantID_def HandleFrame_def AddParticipant_def split: prod.splits)
  have "session_ok (Suc n) H s"
    using session_ok_core [OF okH _ J(3) S(1)] J(6) by simp
  moreover have "enter_session e c sp w =
      (w_nextP w, w\<lparr>w_part := H, w_nextP := Suc (w_nextP w), w_latency := (w_latency w)(w_nextP w := newSignedLatency), w_sess := (w_sess w)(sp := s),
        w_hand := (w_hand w)(c := (w_hand w c)\<lparr>h_stopFrameHandling := Some (sp, fid)\<rparr>)\<rparr>)"
    by (simp add: enter_session_def N Let_def H_def [symmetric] F upd_hand_def)
  ultimately show ?thesis using J S H_def that by blast
qed

lemma join_session_effect:
  assumes e: "env_ok e" and n: "n < id_limit" and ok: "session_ok n (w_part w) (w_sess w sp)"
    and fresh: "\<And>pid p. s_participants (w_sess w sp) pid = Some p \<Longrightarrow> p < w_nextP w"
  obtains pid fid s H q where
    "join_session e c req sp w =
      (Nil_error, w\<lparr>w_part := H, w_nextP := Suc (w_nextP w), w_latency := (w_latency w)(w_nextP w := newSignedLatency), w_sess := (w_sess w)(sp := s),
        w_hand := (w_hand w)(c := (w_hand w c)\<lparr>h_stopFrameHandling := Some (sp, fid),
          h_currentSession := Some sp, h_currentParticipant := Some (w_nextP w),
          h_Modules := map (\<lambda>m. m\<lparr>m_current := Some (sp, w_nextP w)\<rparr>) (h_Modules (w_hand w c))\<rparr>),
        w_out := q\<rparr>)"
    and "H = (w_part w)(w_nextP w := \<lparr>p_ID = pid, p_Responder = c, p_entityIDs = {}\<rparr>)"
    and "session_ok (Suc n) H s" and "s_participants (w_sess w sp) pid = None"
    and "s_participants s = (s_participants (w_sess w sp))(pid \<mapsto> w_nextP w)"
    and "s_frameHandlers (w_sess w sp) fid = None"
    and "s_frameHandlers s = (s_frameHandlers (w_sess w sp))(fid \<mapsto> c)"
    and "s_entities s = s_entities (w_sess w sp)"
    and "s_ID s = s_ID (w_sess w sp)" and "s_AppKey s = s_AppKey (w_sess w sp)"
    and "s_closeOnce s = s_closeOnce (w_sess w sp)"
proof -
  obtain pid fid s H where E: "enter_session e c sp w =
      (w_nextP w, w\<lparr>w_part := H, w_nextP := Suc (w_nextP w), w_latency := (w_latency w)(w_nextP w := newSignedLatency), w_sess := (w_sess w)(sp := s),
        w_hand := (w_hand w)(c := (w_hand w c)\<lparr>h_stopFrameHandling := Some (sp, fid)\<rparr>)\<rparr>)"
    and H: "H = (w_part w)(w_nextP w := \<lparr>p_ID = pid, p_Responder = c, p_entityIDs = {}\<rparr>)"
    and s: "session_ok (Suc n) H s" "s_participants (w_sess w sp) pid = None"
      "s_participants s = (s_participants (w_sess w sp))(pid \<mapsto> w_nextP w)"
      "s_frameHandlers (w_sess w sp) fid = None"
      "s_frameHandlers s = (s_frameHandlers (w_sess w sp))(fid \<mapsto> c)"
      "s_entities s = s_entities (w_sess w sp)"
      "s_ID s = s_ID (w_sess w sp)" "s_AppKey s = s_AppKey (w_sess w sp)"
      "s_closeOnce s = s_closeOnce (w_sess w sp)" "s_UUID s = s_UUID (w_sess w sp)"
    by (rule enter_session_effect [OF e n ok fresh])
  let ?pp = "w_nextP w"
  define w1 where "w1 = w\<lparr>w_part := H, w_nextP := Suc ?pp, w_latency := (w_latency w)(?pp := newSignedLatency), w_sess := (w_sess w)(sp := s),
      w_hand := (w_hand w)(c := (w_hand w c)\<lparr>h_stopFrameHandling := Some (sp, fid)\<rparr>)\<rparr>"
  define w3 where "w3 = upd_hand c (\<lambda>h. h\<lparr>h_currentSession := Some sp, h_currentParticipant := Some ?pp\<rparr>)
    (respond e c (ParticipantJoinResponse (join_RequestId req)
      (GlobalSessionID (w_store w1) (s_ID (w_sess w1 sp))) (s_UUID (w_sess w1 sp)) (p_ID (w_part w1 ?pp))) w1)"
  define w4 where "w4 = IfNotSet (FeatureFlags e) FlagDisableSessionState
                (\<lambda>w. respond e c (session_state e sp w) w) w3"
  define w5 where "w5 = IfNotSet (FeatureFlags e) FlagDisableParticipantJoinBroadcast
      (broadcast e sp ?pp (ParticipantJoinBroadcast (join_Timestamp req) (p_ID (w_part w1 ?pp)))) w4"
  let ?ms = "h_Modules (w_hand w c)" and ?h = "(w_hand w c)\<lparr>h_stopFrameHandling := Some (sp, fid),
      h_currentSession := Some sp, h_currentParticipant := Some (w_nextP w)\<rparr>"
  obtain q1 where "respond e c (ParticipantJoinResponse (join_RequestId req)
      (GlobalSessionID (w_store w1) (s_ID (w_sess w1 sp))) (s_UUID (w_sess w1 sp)) (p_ID (w_part w1 ?pp))) w1
      = w1\<lparr>w_out := q1\<rparr>"
    using world_eqI_out [OF quiet_respond] by blast
  then have w3: "w3 = w\<lparr>w_part := H, w_nextP := Suc ?pp, w_latency := (w_latency w)(?pp := newSignedLatency), w_sess := (w_sess w)(sp := s),
      w_hand := (w_hand w)(c := ?h), w_out := q1\<rparr>"
    by (simp add: w3_def w1_def upd_hand_def)
  obtain q4 where w4: "w4 = w3\<lparr>w_out := q4\<rparr>"
    unfolding w4_def using world_eqI_out [OF quiet_IfNotSet [OF quiet_comp_respond]] by blast
  obtain q5 where "w5 = w4\<lparr>w_out := q5\<rparr>"
    unfolding w5_def using world_eqI_out [OF quiet_IfNotSet [OF quiet_broadcast]] by blast
  then have w5: "w5 = w\<lparr>w_part := H, w_nextP := Suc ?pp, w_latency := (w_latency w)(?pp := newSignedLatency), w_sess := (w_sess w)(sp := s),
      w_hand := (w_hand w)(c := ?h), w_out := q5\<rparr>"
    by (simp add: w4 w3)
  obtain ms out w6 where I: "InitModules sp ?pp (h_Modules (w_hand w5 c)) w5 = (ms, out, w6)"
    by (metis prod.exhaust)
  have "typed (w_sess w5 sp)" using s(1) by (simp add: w5 session_ok_def mods_ok_def)
  note IM = InitModules_ok [OF this, of ?pp ?ms]
  have ms: "ms = map (\<lambda>m. m\<lparr>m_current := Some (sp, ?pp)\<rparr>) ?ms" and out: "out = Nil_error"
    using I IM by (simp_all add: w5)
  have T: "touches sp w5 w6" using InitModules_touches [of sp w5 ?pp "h_Modules (w_hand w5 c)"] by (simp add: I)
  then obtain mst q where w6: "w6 = w5\<lparr>w_sess := (w_sess w5)(sp := (w_sess w5 sp)\<lparr>s_moduleStates := mst\<rparr>), w_out := q\<rparr>"
    unfolding touches_def by blast
  have "session_ok (Suc n) H (w_sess w5 sp)" using s(1) by (simp add: w5)
  from InitModules_session_ok [OF this, of ?pp "h_Modules (w_hand w5 c)"]
  have ok6: "session_ok (Suc n) H (w_sess w6 sp)" unfolding I by simp
  have s6: "w_sess w6 sp = s\<lparr>s_moduleStates := mst\<rparr>" by (simp add: w6 w5)
  have "join_session e c req sp w = (out, upd_hand c (\<lambda>h. h\<lparr>h_Modules := ms\<rparr>) w6)"
    unfolding join_session_def E w1_def [symmetric] Let_def prod.case w3_def [symmetric]
      w4_def [symmetric] w5_def [symmetric] I ..
  also have "\<dots> = (Nil_error, w\<lparr>w_part := H, w_nextP := Suc ?pp, w_latency := (w_latency w)(?pp := newSignedLatency),
      w_sess := (w_sess w)(sp := s\<lparr>s_moduleStates := mst\<rparr>),
      w_hand := (w_hand w)(c := ?h\<lparr>h_Modules := map (\<lambda>m. m\<lparr>m_current := Some (sp, ?pp)\<rparr>) ?ms\<rparr>),
      w_out := q\<rparr>)"
    by (simp add: out ms w6 w5 upd_hand_def)
  finally show ?thesis
    using that [where fid = fid and s = "s\<lparr>s_moduleStates := mst\<rparr>" and H = H and q = q and pid = pid] H s ok6 s6 by simp
qed

end
