(* ===== verification/Invariants.thy ===== *)
theory Invariants
imports Membership
begin

text \<open>
  The invariant of the server, \<open>inv n w\<close>, after \<open>n\<close> events. A connection that has
  joined points to a stored session and to a participant of it that answers on this very
  connection, its frame handler is registered there, and its modules work on them. Every
  participant and every frame handler of a stored session belongs to such a connection. A
  stored session is filed under its own global id, is well formed and tidy, is not closed
  and has a participant. The gauge of sessions counts the stored ones, per app key. Proved
  here: every event keeps the invariant, as long as fewer ids were made than there are.

  \<open>pre_inv X k n\<close> is the same with the sessions in \<open>X\<close> allowed to be empty, which
  is the case between the creation of a session and the entry of its first participant.
\<close>

section \<open>The invariant\<close>

definition stored :: "world \<Rightarrow> sptr set" where
  "stored w = {sp. \<exists>v. find_session (w_store w) v = Some sp}"

definition conn_ok :: "world \<Rightarrow> conn \<Rightarrow> sptr \<Rightarrow> pptr \<Rightarrow> bool" where
  "conn_ok w c sp pp \<longleftrightarrow>
    sp \<in> stored w \<and> pp < w_nextP w \<and> c < w_nextC w \<and> p_Responder (w_part w pp) = c \<and>
    s_participants (w_sess w sp) (p_ID (w_part w pp)) = Some pp \<and>
    (\<exists>fid. h_stopFrameHandling (w_hand w c) = Some (sp, fid) \<and>
      s_frameHandlers (w_sess w sp) fid = Some c) \<and>
    modules_at sp pp (h_Modules (w_hand w c)) \<and> latency_at c (w_latency w pp)"

definition conns_ok :: "world \<Rightarrow> bool" where
  "conns_ok w \<longleftrightarrow>
    (\<forall>c. h_currentSession (w_hand w c) = None \<longleftrightarrow> h_currentParticipant (w_hand w c) = None) \<and>
    (\<forall>c. map m_kind (h_Modules (w_hand w c)) = [VikjaModule, OdalModule, DagazModule]) \<and>
    (\<forall>c sp pp. joined w c = Some (sp, pp) \<longrightarrow> conn_ok w c sp pp)"

definition members_ok :: "world \<Rightarrow> bool" where
  "members_ok w \<longleftrightarrow> (\<forall>sp \<in> stored w.
    (\<forall>pid pp. s_participants (w_sess w sp) pid = Some pp \<longrightarrow>
      joined w (p_Responder (w_part w pp)) = Some (sp, pp)) \<and>
    (\<forall>fid c. s_frameHandlers (w_sess w sp) fid = Some c \<longrightarrow>
      joined w c \<noteq> None \<and> h_stopFrameHandling (w_hand w c) = Some (sp, fid)))"

definition store_ok :: "sptr set \<Rightarrow> nat \<Rightarrow> nat \<Rightarrow> world \<Rightarrow> bool" where
  "store_ok X k n w \<longleftrightarrow>
    (\<forall>v sp. find_session (w_store w) v = Some sp \<longrightarrow>
      v = GlobalSessionID (w_store w) (s_ID (w_sess w sp)) \<and> sp < w_nextS w \<and>
      session_ok n (w_part w) (w_sess w sp) \<and> \<not> s_closeOnce (w_sess w sp) \<and>
      (sp \<notin> X \<longrightarrow> dom (s_participants (w_sess w sp)) \<noteq> {})) \<and>
    covers k (ss_ids (w_store w)) (s_ID ` w_sess w ` stored w) \<and>
    (\<forall>key. ss_sessionCount (w_store w) key =
      int (card {sp \<in> stored w. s_AppKey (w_sess w sp) = key}))"

definition pre_inv :: "sptr set \<Rightarrow> nat \<Rightarrow> nat \<Rightarrow> world \<Rightarrow> bool" where
  "pre_inv X k n w \<longleftrightarrow>
    conns_ok w \<and> members_ok w \<and> store_ok X k n w \<and> length (w_receipts w) \<le> receiptChanSize"

definition inv :: "nat \<Rightarrow> world \<Rightarrow> bool" where
  "inv n w \<longleftrightarrow> pre_inv {} n n w"

section \<open>Reading the invariant\<close>

lemma conns_okD:
  assumes "conns_ok w"
  shows "h_currentSession (w_hand w c) = None \<longleftrightarrow> h_currentParticipant (w_hand w c) = None"
    and "map m_kind (h_Modules (w_hand w c)) = [VikjaModule, OdalModule, DagazModule]"
    and "joined w c = Some (sp, pp) \<Longrightarrow> conn_ok w c sp pp"
  using assms unfolding conns_ok_def by blast+

lemma conn_okE:
  assumes "conn_ok w c sp pp"
  obtains fid where "sp \<in> stored w" "pp < w_nextP w" "c < w_nextC w"
    "p_Responder (w_part w pp) = c"
    "s_participants (w_sess w sp) (p_ID (w_part w pp)) = Some pp"
    "h_stopFrameHandling (w_hand w c) = Some (sp, fid)"
    "s_frameHandlers (w_sess w sp) fid = Some c"
    "modules_at sp pp (h_Modules (w_hand w c))" "latency_at c (w_latency w pp)"
  using assms unfolding conn_ok_def by blast

lemma members_okD:
  assumes "members_ok w" and "sp \<in> stored w"
  shows "s_participants (w_sess w sp) pid = Some pp \<Longrightarrow>
      joined w (p_Responder (w_part w pp)) = Some (sp, pp)"
    and "s_frameHandlers (w_sess w sp) fid = Some c \<Longrightarrow>
      joined w c \<noteq> None \<and> h_stopFrameHandling (w_hand w c) = Some (sp, fid)"
  using assms unfolding members_ok_def by blast+

lemma store_okD:
  assumes "store_ok X k n w" and "find_session (w_store w) v = Some sp"
  shows "v = GlobalSessionID (w_store w) (s_ID (w_sess w sp))" and "sp < w_nextS w"
    and "session_ok n (w_part w) (w_sess w sp)" and "\<not> s_closeOnce (w_sess w sp)"
    and "sp \<notin> X \<Longrightarrow> dom (s_participants (w_sess w sp)) \<noteq> {}" and "sp \<in> stored w"
  using assms unfolding store_ok_def stored_def by blast+

lemma stored_find:
  assumes "store_ok X k n w" and "sp \<in> stored w"
  shows "find_session (w_store w) (GlobalSessionID (w_store w) (s_ID (w_sess w sp))) = Some sp"
  using assms unfolding store_ok_def stored_def by blast

lemma store_ok_session:
  assumes "store_ok X k n w" and "sp \<in> stored w"
  shows "session_ok n (w_part w) (w_sess w sp)" and "sp < w_nextS w"
    and "\<not> s_closeOnce (w_sess w sp)" and "sp \<notin> X \<Longrightarrow> dom (s_participants (w_sess w sp)) \<noteq> {}"
  using store_okD(3,2,4,5) [OF assms(1) stored_find [OF assms]] by simp_all

lemma store_ok_ids:
  assumes "store_ok X k n w"
  shows "covers k (ss_ids (w_store w)) (s_ID ` w_sess w ` stored w)"
    and "ss_sessionCount (w_store w) key = int (card {sp \<in> stored w. s_AppKey (w_sess w sp) = key})"
  using assms unfolding store_ok_def by blast+

lemma store_ok_inj:
  assumes "store_ok X k n w" and "sp \<in> stored w" and "sp' \<in> stored w"
    and "s_ID (w_sess w sp) = s_ID (w_sess w sp')"
  shows "sp = sp'"
  using stored_find [OF assms(1,2)] stored_find [OF assms(1,3)] unfolding assms(4) by simp

lemma finite_stored:
  assumes "store_ok X k n w"
  shows "finite (stored w)"
proof (rule inj_on_finite)
  show "inj_on (\<lambda>sp. s_ID (w_sess w sp)) (stored w)"
    using store_ok_inj [OF assms] by (auto simp: inj_on_def)
  show "(\<lambda>sp. s_ID (w_sess w sp)) ` stored w \<subseteq> UNIV" by simp
  show "finite (UNIV :: u32 set)" by simp
qed

lemma invD:
  assumes "pre_inv X k n w"
  shows "conns_ok w" "members_ok w" "store_ok X k n w" "length (w_receipts w) \<le> receiptChanSize"
  using assms by (simp_all add: pre_inv_def)

lemma inv_member:
  assumes "pre_inv X k n w" and "joined w c = Some (sp, pp)"
  shows "member n w c sp pp" and "session_ok n (w_part w) (w_sess w sp)" and "sp \<in> stored w"
    and "modules_at sp pp (h_Modules (w_hand w c))"
proof -
  have C: "conn_ok w c sp pp" using conns_okD(3) [OF invD(1) [OF assms(1)] assms(2)] .
  then show s: "sp \<in> stored w" and "modules_at sp pp (h_Modules (w_hand w c))"
    by (auto elim: conn_okE)
  show ok: "session_ok n (w_part w) (w_sess w sp)"
    using store_ok_session(1) [OF invD(3) [OF assms(1)] s] .
  have "h_currentSession (w_hand w c) = Some sp"
    using assms(2) by (auto simp: joined_def split: option.splits)
  then show "member n w c sp pp"
    using C ok assms(2) by (auto simp: member_def session_ok_def elim: conn_okE)
qed

section \<open>States that differ little\<close>

text \<open>The invariant does not read the queues and the loops.\<close>

lemma pre_inv_cong:
  assumes "pre_inv X k n w"
    and "w_sess w' = w_sess w" "w_part w' = w_part w" "w_nextS w' = w_nextS w"
    and "w_nextP w' = w_nextP w" "w_nextC w \<le> w_nextC w'" "w_store w' = w_store w"
    and "w_hand w' = w_hand w" "length (w_receipts w') \<le> receiptChanSize"
    and "w_latency w' = w_latency w"
  shows "pre_inv X k n w'"
proof -
  have S: "stored w' = stored w" by (simp add: stored_def assms)
  have J: "joined w' = joined w" using assms by (intro joined_hand)
  show ?thesis
    using assms(1) assms(6,9)
    unfolding pre_inv_def conns_ok_def conn_ok_def members_ok_def store_ok_def S J assms(2-5,7,8,10)
    by (meson order_less_le_trans)
qed

lemma pre_inv_mono:
  assumes "pre_inv X k n w" and "k \<le> k'" and "n \<le> n'"
  shows "pre_inv X k' n' w"
proof -
  have "store_ok X k' n' w"
    using invD(3) [OF assms(1)] session_ok_mono [OF _ assms(3)]
      covers_mono [OF store_ok_ids(1) [OF invD(3) [OF assms(1)]] subset_refl assms(2)]
    unfolding store_ok_def by blast
  then show ?thesis using invD [OF assms(1)] by (simp add: pre_inv_def)
qed

lemma inv_mono: "inv n w \<Longrightarrow> n \<le> m \<Longrightarrow> inv m w"
  unfolding inv_def by (rule pre_inv_mono)

lemma inv_idle: "inv n w \<Longrightarrow> idle w w' \<Longrightarrow> inv n w'"
  unfolding inv_def idle_def by (elim exE, rule pre_inv_cong) (simp_all add: pre_inv_def)

lemma inv_loop: "inv n w \<Longrightarrow> inv n (set_loop c l w)"
  unfolding inv_def set_loop_def by (rule pre_inv_cong) (simp_all add: pre_inv_def)

lemma inv_receipts:
  "inv n w \<Longrightarrow> length rs \<le> receiptChanSize \<Longrightarrow> inv n (w\<lparr>w_receipts := rs\<rparr>)"
  unfolding inv_def by (rule pre_inv_cong) simp_all

lemma stored_store: "find_session (w_store w') = find_session (w_store w) \<Longrightarrow> stored w' = stored w"
  by (simp add: stored_def)

text \<open>A lookup may initialise the store.\<close>

lemma inv_lookup:
  assumes "inv n w"
  shows "inv n (w\<lparr>w_store := snd (GetByGlobalID v (w_store w))\<rparr>)"
proof -
  let ?st = "snd (GetByGlobalID v (w_store w))"
  let ?w = "w\<lparr>w_store := ?st\<rparr>"
  have F: "find_session ?st = find_session (w_store w)"
    using find_session_init by (simp add: GetByGlobalID_def Let_def)
  have G: "GlobalSessionID ?st = GlobalSessionID (w_store w)"
    by (rule GlobalSessionID_cong) simp
  have I: "ss_ids ?st = ss_ids (w_store w)" "ss_sessionCount ?st = ss_sessionCount (w_store w)"
    by (simp_all add: GetByGlobalID_def init_once_def Let_def)
  have S: "stored ?w = stored w" by (rule stored_store) (simp add: F)
  have J: "joined ?w = joined w" by (rule joined_hand) simp
  show ?thesis
    using assms
    unfolding inv_def pre_inv_def conns_ok_def conn_ok_def members_ok_def store_ok_def S J
    by (simp add: F G I)
qed

section \<open>Local steps\<close>

lemma conn_ok_local:
  assumes L: "local_step sp pp w w'" and "conn_ok w c p q"
  shows "conn_ok w' c p q"
  using assms(2) stored_store [of w' w] local_stepD(18) [OF L, of q]
  by (simp add: conn_ok_def local_stepD(1-16) [OF L])

lemma inv_local:
  assumes i: "inv n w" and j: "joined w c = Some (sp, pp)" and L: "local_step sp pp w w'"
    and ok: "session_ok m (w_part w') (w_sess w' sp)" and m: "n \<le> m"
  shows "inv m w'"
proof -
  note I = invD [OF i [unfolded inv_def]]
  have S: "stored w' = stored w" by (rule stored_store) (simp add: local_stepD [OF L])
  have J: "joined w' = joined w" using L by (rule joined_local)
  note sp = inv_member(3) [OF i [unfolded inv_def] j]
  have other: "session_ok m (w_part w') (w_sess w' q)" if "q \<in> stored w" "q \<noteq> sp" for q
  proof -
    have "w_part w' p = w_part w p" if p: "s_participants (w_sess w q) pid = Some p" for pid p
    proof -
      have "joined w (p_Responder (w_part w p)) = Some (q, p)"
        using members_okD(1) [OF I(2) \<open>q \<in> stored w\<close> p] .
      moreover have "p_Responder (w_part w pp) = c"
        using conns_okD(3) [OF I(1) j] by (auto elim: conn_okE)
      ultimately have "p \<noteq> pp" using j \<open>q \<noteq> sp\<close> by auto
      then show ?thesis using local_stepD(7) [OF L] by simp
    qed
    then have "session_ok n (w_part w') (w_sess w q)"
      using store_ok_session(1) [OF I(3) that(1)] by (rule session_ok_heap [rotated])
    then show ?thesis
      using session_ok_mono [OF _ m] that(2) local_stepD(1) [OF L] by simp
  qed
  have G: "GlobalSessionID (w_store w') = GlobalSessionID (w_store w)"
    by (simp add: local_stepD [OF L])
  have ids: "s_ID ` w_sess w' ` stored w = s_ID ` w_sess w ` stored w"
    by (simp add: image_image local_stepD [OF L])
  have "store_ok {} m m w'"
    unfolding store_ok_def
  proof (intro conjI allI impI)
    fix v q assume v: "find_session (w_store w') v = Some q"
    then have v': "find_session (w_store w) v = Some q" by (simp add: local_stepD [OF L])
    note D = store_okD [OF I(3) v']
    show "v = GlobalSessionID (w_store w') (s_ID (w_sess w' q))" "q < w_nextS w'"
      "\<not> s_closeOnce (w_sess w' q)" "dom (s_participants (w_sess w' q)) \<noteq> {}"
      using D by (simp_all add: local_stepD [OF L])
    show "session_ok m (w_part w') (w_sess w' q)"
      using other [OF D(6)] ok by (cases "q = sp") simp_all
  next
    show "covers m (ss_ids (w_store w')) (s_ID ` w_sess w' ` stored w')"
      using covers_mono [OF store_ok_ids(1) [OF I(3)] subset_refl m]
      by (simp add: S ids local_stepD [OF L])
    show "ss_sessionCount (w_store w') key = int (card {q \<in> stored w'. s_AppKey (w_sess w' q) = key})" for key
      using store_ok_ids(2) [OF I(3)] by (simp add: S local_stepD [OF L])
  qed
  moreover have "conns_ok w'"
    using I(1) conn_ok_local [OF L] unfolding conns_ok_def J
    by (simp add: local_stepD [OF L])
  moreover have "members_ok w'"
    using I(2) by (simp add: members_ok_def J S local_stepD [OF L])
  ultimately show ?thesis
    using I(4) by (simp add: inv_def pre_inv_def local_stepD [OF L])
qed

section \<open>Leaving\<close>

lemma joined_nil:
  assumes "w_hand w' = (w_hand w)(c := h)" and "h_currentSession h = None"
  shows "joined w' c' = (if c' = c then None else joined w c')"
  using assms by (simp add: joined_def split: option.split)

text \<open>The links between connections and members after the participant \<open>pp\<close> left.\<close>

lemma leave_links:
  assumes c: "conns_ok w" and m: "members_ok w" and j: "joined w c = Some (sp, pp)"
    and f: "h_stopFrameHandling (w_hand w c) = Some (sp, fid)"
    and ids: "ids_match (w_part w) (w_sess w sp)"
    and h: "w_hand w' = (w_hand w)(c := (w_hand w c)\<lparr>h_currentParticipant := None, h_currentSession := None\<rparr>)"
    and s: "w_sess w' = (w_sess w)(sp := s)"
    and sp: "s_participants s = (s_participants (w_sess w sp))(p_ID (w_part w pp) := None)"
    and sf: "s_frameHandlers s = (s_frameHandlers (w_sess w sp))(fid := None)"
    and st: "stored w' = (if dom (s_participants s) = {} then stored w - {sp} else stored w)"
    and fr: "w_part w' = w_part w" "w_nextP w' = w_nextP w" "w_nextC w' = w_nextC w"
      "w_latency w' = w_latency w"
  shows "conns_ok w'" and "members_ok w'"
proof -
  have J: "joined w' c' = (if c' = c then None else joined w c')" for c'
    by (rule joined_nil [OF h]) simp
  have pc: "p_Responder (w_part w pp) = c" and fc: "s_frameHandlers (w_sess w sp) fid = Some c"
    using conns_okD(3) [OF c j] f by (auto elim!: conn_okE)
  have "conn_ok w' c' p q" if j': "joined w c' = Some (p, q)" and "c' \<noteq> c" for c' p q
  proof -
    obtain fid' where C: "p \<in> stored w" "q < w_nextP w" "c' < w_nextC w" "p_Responder (w_part w q) = c'"
      "s_participants (w_sess w p) (p_ID (w_part w q)) = Some q"
      "h_stopFrameHandling (w_hand w c') = Some (p, fid')"
      "s_frameHandlers (w_sess w p) fid' = Some c'" "modules_at p q (h_Modules (w_hand w c'))"
      "latency_at c' (w_latency w q)"
      using conns_okD(3) [OF c j'] by (rule conn_okE)
    have q: "q \<noteq> pp" using C(4) pc \<open>c' \<noteq> c\<close> by blast
    have fid': "fid' \<noteq> fid" if "p = sp" using C(7) fc \<open>c' \<noteq> c\<close> that by auto
    have pq: "s_participants (w_sess w' p) (p_ID (w_part w q)) = Some q"
    proof (cases "p = sp")
      case True
      have "s_participants (w_sess w sp) (p_ID (w_part w pp)) = Some pp"
        using conns_okD(3) [OF c j] by (auto elim: conn_okE)
      then have "p_ID (w_part w q) \<noteq> p_ID (w_part w pp)"
        using C(5) q True by auto
      with True C(5) show ?thesis by (simp add: s sp)
    qed (use C(5) in \<open>simp add: s\<close>)
    moreover have "p \<in> stored w'"
    proof (cases "p = sp")
      case True
      with pq have "s_participants s (p_ID (w_part w q)) = Some q" by (simp add: s)
      then have "dom (s_participants s) \<noteq> {}" by blast
      with C(1) show ?thesis by (simp add: st)
    qed (use C(1) in \<open>simp add: st\<close>)
    moreover have "s_frameHandlers (w_sess w' p) fid' = Some c'"
      using C(7) fid' by (cases "p = sp") (simp_all add: s sf)
    ultimately show ?thesis
      using C \<open>c' \<noteq> c\<close> unfolding conn_ok_def by (simp add: h fr)
  qed
  then show "conns_ok w'"
    using c unfolding conns_ok_def J by (simp add: h)
  have sub: "p \<in> stored w" if "p \<in> stored w'" for p using that by (simp add: st split: if_splits)
  show "members_ok w'"
    unfolding members_ok_def
  proof (intro ballI conjI allI impI)
    fix p pid q assume p: "p \<in> stored w'" and q: "s_participants (w_sess w' p) pid = Some q"
    then have q0: "s_participants (w_sess w p) pid = Some q" by (auto simp: s sp split: if_splits)
    have jq: "joined w (p_Responder (w_part w q)) = Some (p, q)" using members_okD(1) [OF m sub [OF p] q0] .
    have "p_Responder (w_part w q) \<noteq> c"
    proof
      assume "p_Responder (w_part w q) = c"
      with jq j have "p = sp" "q = pp" by simp_all
      with q q0 ids_matchD [OF ids] show False by (simp add: s sp)
    qed
    with jq show "joined w' (p_Responder (w_part w' q)) = Some (p, q)" by (simp add: J fr)
  next
    fix p fid' c' assume p: "p \<in> stored w'" and f': "s_frameHandlers (w_sess w' p) fid' = Some c'"
    then have f0: "s_frameHandlers (w_sess w p) fid' = Some c'" by (auto simp: s sf split: if_splits)
    note F = members_okD(2) [OF m sub [OF p] f0]
    have "c' \<noteq> c" using F f f' by (auto simp: s sf)
    with F show "joined w' c' \<noteq> None" "h_stopFrameHandling (w_hand w' c') = Some (p, fid')"
      by (simp_all add: J h)
  qed
qed

lemma ParticipantCount_0: "ParticipantCount s = 0 \<longleftrightarrow> dom (s_participants s) = {}"
proof -
  have "finite (dom (s_participants s))" by (rule finite)
  then show ?thesis by (simp add: ParticipantCount_def)
qed

text \<open>The store after the session \<open>sp\<close> changed in place.\<close>

lemma store_ok_change:
  assumes S: "store_ok X k n w" and sp: "sp \<in> stored w" and k: "k \<le> k'" and n: "n \<le> n'"
    and w': "w_sess w' = (w_sess w)(sp := s)" "w_store w' = w_store w" "w_nextS w' = w_nextS w"
    and s: "session_ok n' (w_part w') s" "s_ID s = s_ID (w_sess w sp)" "s_AppKey s = s_AppKey (w_sess w sp)"
      "s_closeOnce s = s_closeOnce (w_sess w sp)" "sp \<notin> X' \<Longrightarrow> dom (s_participants s) \<noteq> {}"
    and X: "X \<subseteq> insert sp X'"
    and others: "\<And>p. p \<in> stored w \<Longrightarrow> p \<noteq> sp \<Longrightarrow> session_ok n (w_part w') (w_sess w p)"
  shows "store_ok X' k' n' w'"
proof -
  have st: "stored w' = stored w" by (rule stored_store) (simp add: w')
  have id: "s_ID (w_sess w' p) = s_ID (w_sess w p)" for p by (simp add: w' s)
  have key: "s_AppKey (w_sess w' p) = s_AppKey (w_sess w p)" for p by (simp add: w' s)
  show ?thesis
    unfolding store_ok_def
  proof (intro conjI allI impI)
    fix v p assume "find_session (w_store w') v = Some p"
    then have v: "find_session (w_store w) v = Some p" by (simp add: w')
    note D = store_okD [OF S v]
    show "v = GlobalSessionID (w_store w') (s_ID (w_sess w' p))" using D(1) by (simp add: w' s)
    show "p < w_nextS w'" using D(2) by (simp add: w')
    show "session_ok n' (w_part w') (w_sess w' p)"
      using s(1) session_ok_mono [OF others [OF D(6)] n] by (simp add: w')
    show "\<not> s_closeOnce (w_sess w' p)" using D(4) s(4) by (cases "p = sp") (simp_all add: w')
    show "dom (s_participants (w_sess w' p)) \<noteq> {}" if "p \<notin> X'"
      using s(5) D(5) that X by (cases "p = sp") (auto simp: w')
  next
    show "covers k' (ss_ids (w_store w')) (s_ID ` w_sess w' ` stored w')"
      using covers_mono [OF store_ok_ids(1) [OF S] subset_refl k]
      by (simp add: st w'(2) image_image id)
    show "ss_sessionCount (w_store w') key = int (card {p \<in> stored w'. s_AppKey (w_sess w' p) = key})" for key
      using store_ok_ids(2) [OF S] by (simp add: st key) (simp add: w')
  qed
qed

text \<open>The store after the session \<open>sp\<close> was removed.\<close>

lemma store_ok_remove:
  assumes S: "store_ok X k n w" and sp: "sp \<in> stored w"
    and s: "s_ID s = s_ID (w_sess w sp)" "s_AppKey s = s_AppKey (w_sess w sp)"
    and w': "w_sess w' = (w_sess w)(sp := s')" "w_store w' = fst (SessionStore_Remove s (w_store w))"
      "w_nextS w' = w_nextS w" "w_part w' = w_part w"
  shows "store_ok X k n w'" and "stored w' = stored w - {sp}"
proof -
  have F: "find_session (w_store w') v =
      (if v = GlobalSessionID (w_store w) (s_ID (w_sess w sp)) then None else find_session (w_store w) v)" for v
    by (simp add: w' find_session_Remove s)
  have G: "GlobalSessionID (w_store w') = GlobalSessionID (w_store w)"
    by (rule GlobalSessionID_cong) (simp add: w')
  have F': "find_session (w_store w') v = Some p \<longleftrightarrow> find_session (w_store w) v = Some p \<and> p \<noteq> sp" for v p
  proof (cases "v = GlobalSessionID (w_store w) (s_ID (w_sess w sp))")
    case True
    have "find_session (w_store w) v = Some sp" unfolding True by (rule stored_find [OF S sp])
    then show ?thesis using True by (simp add: F)
  next
    case False
    have "p \<noteq> sp" if "find_session (w_store w) v = Some p"
      using store_okD(1) [OF S that] False by blast
    with False show ?thesis by (simp add: F) blast
  qed
  then show st: "stored w' = stored w - {sp}" by (auto simp: stored_def)
  have sess: "w_sess w' p = w_sess w p" if "p \<in> stored w'" for p using that by (simp add: st w')
  have ids: "s_ID ` w_sess w' ` stored w' = s_ID ` w_sess w ` stored w - {s_ID (w_sess w sp)}"
  proof -
    have "inj_on (\<lambda>p. s_ID (w_sess w p)) (stored w)"
      using store_ok_inj [OF S] by (auto simp: inj_on_def)
    then have "(\<lambda>p. s_ID (w_sess w p)) ` (stored w - {sp}) =
        (\<lambda>p. s_ID (w_sess w p)) ` stored w - (\<lambda>p. s_ID (w_sess w p)) ` {sp}"
      by (rule inj_on_image_set_diff) (use sp in auto)
    moreover have "(\<lambda>p. s_ID (w_sess w' p)) ` stored w' = (\<lambda>p. s_ID (w_sess w p)) ` (stored w - {sp})"
      unfolding st [symmetric] by (rule image_cong) (simp_all add: sess)
    ultimately show ?thesis by (simp add: image_image)
  qed
  have key: "card {p \<in> stored w. s_AppKey (w_sess w p) = key} =
    (if key = s_AppKey (w_sess w sp) then Suc (card {p \<in> stored w'. s_AppKey (w_sess w' p) = key})
     else card {p \<in> stored w'. s_AppKey (w_sess w' p) = key})" for key
  proof -
    let ?A = "{p \<in> stored w'. s_AppKey (w_sess w' p) = key}"
    have "finite ?A" using finite_stored [OF S] by (simp add: st)
    moreover have "sp \<notin> ?A" by (simp add: st)
    ultimately have "card (insert sp ?A) = Suc (card ?A)" by (rule card_insert_disjoint)
    moreover have "{p \<in> stored w. s_AppKey (w_sess w p) = key} =
      (if key = s_AppKey (w_sess w sp) then insert sp ?A else ?A)"
      using sp by (auto simp: st w')
    ultimately show ?thesis by presburger
  qed
  show "store_ok X k n w'"
    unfolding store_ok_def
  proof (intro conjI allI impI)
    fix v p assume v': "find_session (w_store w') v = Some p"
    then have v: "find_session (w_store w) v = Some p" "p \<noteq> sp" by (simp_all add: F')
    note D = store_okD [OF S v(1)]
    show "v = GlobalSessionID (w_store w') (s_ID (w_sess w' p))" "p < w_nextS w'"
      "session_ok n (w_part w') (w_sess w' p)" "\<not> s_closeOnce (w_sess w' p)"
      using D v(2) by (simp_all add: G w'(1,3,4))
    show "p \<notin> X \<Longrightarrow> dom (s_participants (w_sess w' p)) \<noteq> {}" using D(5) v(2) by (simp add: w'(1))
  next
    show "covers k (ss_ids (w_store w')) (s_ID ` w_sess w' ` stored w')"
      unfolding ids
      using covers_reuse [OF store_ok_ids(1) [OF S], of "s_ID (w_sess w sp)"] sp
      by (simp add: w'(2) SessionStore_Remove_fields s)
    show "ss_sessionCount (w_store w') k' = int (card {p \<in> stored w'. s_AppKey (w_sess w' p) = k'})" for k'
      using store_ok_ids(2) [OF S, of k'] key [of k']
      by (simp add: w'(2) SessionStore_Remove_fields s split: if_splits)
  qed
qed

lemma inv_leave:
  assumes i: "inv n w" and e: "env_ok e" and j: "joined w c = Some (sp, pp)"
  shows "inv n (leaveSession e c w)" and "joined (leaveSession e c w) c = None"
    and "w_hand (leaveSession e c w) = (w_hand w)
      (c := (w_hand w c)\<lparr>h_currentParticipant := None, h_currentSession := None\<rparr>)"
    and "w_loop (leaveSession e c w) = w_loop w" and "w_nextC (leaveSession e c w) = w_nextC w"
proof -
  note I = invD [OF i [unfolded inv_def]]
  obtain fid where C: "sp \<in> stored w" "p_Responder (w_part w pp) = c"
    "s_participants (w_sess w sp) (p_ID (w_part w pp)) = Some pp"
    "h_stopFrameHandling (w_hand w c) = Some (sp, fid)"
    "s_frameHandlers (w_sess w sp) fid = Some c"
    "modules_at sp pp (h_Modules (w_hand w c))" "c < w_nextC w"
    using conns_okD(3) [OF I(1) j] by (rule conn_okE)
  note ok = store_ok_session(1) [OF I(3) C(1)]
  define s where "s = left_state e c sp pp fid w"
  note L = left_state_ok [OF ok e C(6,3,5), folded s_def]
  let ?h = "(w_hand w c)\<lparr>h_currentParticipant := None, h_currentSession := None\<rparr>"
  let ?w' = "leaveSession e c w"
  obtain q where W: "?w' = (if ParticipantCount s = 0
     then w\<lparr>w_store := fst (SessionStore_Remove s (w_store w)),
            w_sess := (w_sess w)(sp := Close s), w_hand := (w_hand w)(c := ?h), w_out := q\<rparr>
     else w\<lparr>w_sess := (w_sess w)(sp := s), w_hand := (w_hand w)(c := ?h), w_out := q\<rparr>)"
    using leaveSession_effect [OF j C(6,4), of e] unfolding s_def by blast
  have fr: "w_part ?w' = w_part w" "w_nextP ?w' = w_nextP w" "w_nextC ?w' = w_nextC w"
    "w_nextS ?w' = w_nextS w" "w_hand ?w' = (w_hand w)(c := ?h)" "w_receipts ?w' = w_receipts w"
    "w_latency ?w' = w_latency w"
    by (simp_all add: W)
  then show "w_hand ?w' = (w_hand w)(c := ?h)" "w_nextC ?w' = w_nextC w" by simp_all
  show "w_loop ?w' = w_loop w" by (simp add: W)
  show "joined ?w' c = None" by (simp add: joined_def fr)
  have ids: "ids_match (w_part w) (w_sess w sp)" using sess_okD(5) [OF session_okD(1) [OF ok]] .
  have Cl: "s_participants (Close s) = s_participants s" "s_frameHandlers (Close s) = s_frameHandlers s"
    by (simp_all add: Close_def)
  consider (last) "dom (s_participants s) = {}" "w_sess ?w' = (w_sess w)(sp := Close s)"
      "w_store ?w' = fst (SessionStore_Remove s (w_store w))"
    | (more) "dom (s_participants s) \<noteq> {}" "w_sess ?w' = (w_sess w)(sp := s)" "w_store ?w' = w_store w"
    by (cases "ParticipantCount s = 0") (simp_all add: W ParticipantCount_0)
  then show "inv n ?w'"
  proof cases
    case last
    note R = store_ok_remove [OF I(3) C(1) L(4,5) last(2,3) fr(4,1)]
    have st: "stored ?w' = (if dom (s_participants (Close s)) = {} then stored w - {sp} else stored w)"
      using R(2) last(1) by (simp add: Cl)
    note K = leave_links [OF I(1,2) j C(4) ids fr(5) last(2) _ _ st fr(1-3,7)]
    show ?thesis using K R(1) I(4) L(2,3) by (simp add: inv_def pre_inv_def Cl fr)
  next
    case more
    have st: "stored ?w' = (if dom (s_participants s) = {} then stored w - {sp} else stored w)"
      using more(1) stored_store [of ?w' w] by (simp add: more(3))
    note K = leave_links [OF I(1,2) j C(4) ids fr(5) more(2) L(2,3) st fr(1-3)]
    have "store_ok {} n n ?w'"
      using store_ok_session(1) [OF I(3)] more(1) L
      by (intro store_ok_change [OF I(3) C(1) order_refl order_refl more(2,3) fr(4)])
        (simp_all add: fr)
    then show ?thesis using K I(4) by (simp add: inv_def pre_inv_def fr)
  qed
qed

section \<open>Joining\<close>

text \<open>A new session \<open>s\<close> with the id \<open>i\<close> is added to the store, which becomes \<open>st\<close>.\<close>

definition adds_session :: "nat \<Rightarrow> world \<Rightarrow> SessionStore \<Rightarrow> u32 \<Rightarrow> ModState Session \<Rightarrow> bool" where
  "adds_session n w st i s \<longleftrightarrow>
    find_session st = (find_session (w_store w))(GlobalSessionID (w_store w) i \<mapsto> w_nextS w) \<and>
    GlobalSessionID st = GlobalSessionID (w_store w) \<and>
    i \<notin> s_ID ` w_sess w ` stored w \<and> covers (Suc n) (ss_ids st) (insert i (s_ID ` w_sess w ` stored w)) \<and>
    ss_sessionCount st = (ss_sessionCount (w_store w))(s_AppKey s := ss_sessionCount (w_store w) (s_AppKey s) + 1) \<and>
    s_ID s = i \<and> \<not> s_closeOnce s \<and> s_participants s = Map.empty \<and> s_frameHandlers s = Map.empty \<and>
    session_ok n (w_part w) s"

definition add_session :: "SessionStore \<Rightarrow> ModState Session \<Rightarrow> world \<Rightarrow> world" where
  "add_session st s w = w\<lparr>w_store := st, w_nextS := Suc (w_nextS w), w_sess := (w_sess w)(w_nextS w := s)\<rparr>"

lemma add_session_simps [simp]:
  "w_store (add_session st s w) = st" "w_nextS (add_session st s w) = Suc (w_nextS w)"
  "w_sess (add_session st s w) = (w_sess w)(w_nextS w := s)" "w_part (add_session st s w) = w_part w"
  "w_hand (add_session st s w) = w_hand w" "w_nextC (add_session st s w) = w_nextC w"
  "w_nextP (add_session st s w) = w_nextP w" "w_loop (add_session st s w) = w_loop w"
  "w_latency (add_session st s w) = w_latency w" "w_receipts (add_session st s w) = w_receipts w"
  by (simp_all add: add_session_def)

lemma create_session_adds:
  assumes i: "pre_inv {} n n w" and e: "env_ok e" and n: "n < id_limit"
    and C: "create_session e c w = (sp, w')"
  obtains st k s where "sp = w_nextS w" "w' = add_session st s w" "adds_session n w st k s"
proof -
  note I = invD [OF i]
  obtain g where N: "New (rangeU e) (ss_ids (w_store w)) = (fst (NewID (rangeU e) (w_store w)), g)"
    and st0: "snd (NewID (rangeU e) (w_store w)) = (w_store w)\<lparr>ss_ids := g\<rparr>"
    by (cases "New (rangeU e) (ss_ids (w_store w))") (simp add: NewID_def)
  let ?i = "fst (NewID (rangeU e) (w_store w))" and ?st = "snd (NewID (rangeU e) (w_store w))"
  let ?s = "(NewSession ?i (newUUID e) :: ModState Session)\<lparr>s_AppKey := h_appKey (w_hand w c)\<rparr>"
  let ?st' = "SessionStore_Add (w_nextS w) ?s ?st"
  have w': "sp = w_nextS w" "w' = add_session ?st' (StartDispatchFrames ?s) w"
    using C by (auto simp: create_session_def case_prod_beta Let_def add_session_def)
  let ?U = "s_ID ` w_sess w ` stored w"
  have A: "?i \<notin> ?U" "covers (Suc n) g (insert ?i ?U)"
    using covers_alloc [OF env_okD(1) [OF e] store_ok_ids(1) [OF I(3)] n N] by simp_all
  have f: "s_ID ?s = ?i" "s_ID (StartDispatchFrames ?s) = ?i" "s_AppKey (StartDispatchFrames ?s) = h_appKey (w_hand w c)"
    "\<not> s_closeOnce (StartDispatchFrames ?s)" "s_participants (StartDispatchFrames ?s) = Map.empty"
    "s_frameHandlers (StartDispatchFrames ?s) = Map.empty"
    by (simp_all add: StartDispatchFrames_def NewSession_def)
  have "GlobalSessionID ?st = GlobalSessionID (w_store w)" by (rule GlobalSessionID_cong) simp
  then have "find_session ?st' = (find_session (w_store w))(GlobalSessionID (w_store w) ?i \<mapsto> w_nextS w)"
    by (simp add: fun_eq_iff find_session_Add find_session_NewID f)
  moreover have "GlobalSessionID ?st' = GlobalSessionID (w_store w)" by (rule GlobalSessionID_cong) simp
  ultimately have "adds_session n w ?st' ?i (StartDispatchFrames ?s)"
    using A f by (simp add: adds_session_def SessionStore_Add_fields st0 session_ok_new fun_eq_iff)
  then show thesis by (rule that [OF w'])
qed

lemma adds_session_stored:
  assumes "store_ok X k n w" and "adds_session n w st i s"
  shows "w_nextS w \<notin> stored w" and "stored (add_session st s w) = insert (w_nextS w) (stored w)"
proof -
  have fresh: "p \<noteq> w_nextS w" "v \<noteq> GlobalSessionID (w_store w) i" if v: "find_session (w_store w) v = Some p" for v p
  proof -
    note D = store_okD [OF assms(1) v]
    show "p \<noteq> w_nextS w" using D(2) by simp
    have "s_ID (w_sess w p) \<noteq> i" using D(6) assms(2) unfolding adds_session_def by (metis imageI)
    then show "v \<noteq> GlobalSessionID (w_store w) i" by (simp add: D(1) GlobalSessionID_inject)
  qed
  show "w_nextS w \<notin> stored w" using fresh(1) by (auto simp: stored_def)
  show "stored (add_session st s w) = insert (w_nextS w) (stored w)"
  proof (intro set_eqI iffI)
    fix p assume "p \<in> stored (add_session st s w)"
    then show "p \<in> insert (w_nextS w) (stored w)" using assms(2) by (auto simp: stored_def adds_session_def split: if_splits)
  next
    fix p assume p: "p \<in> insert (w_nextS w) (stored w)"
    have st: "find_session st = (find_session (w_store w))(GlobalSessionID (w_store w) i \<mapsto> w_nextS w)"
      using assms(2) by (simp add: adds_session_def)
    have "\<exists>v. find_session st v = Some p"
    proof (cases "p = w_nextS w")
      case False
      with p obtain v where v: "find_session (w_store w) v = Some p" by (auto simp: stored_def)
      with fresh(2) [OF v] show ?thesis by (intro exI [of _ v]) (simp add: st)
    qed (auto simp: st)
    then show "p \<in> stored (add_session st s w)" by (auto simp: stored_def)
  qed
qed

lemma adds_session_members:
  assumes "conns_ok w" and "members_ok w" and "store_ok X k n w" and A: "adds_session n w st i s"
  shows "conns_ok (add_session st s w)" and "members_ok (add_session st s w)"
proof -
  let ?w = "add_session st s w"
  note S = adds_session_stored [OF assms(3,4)]
  have J: "joined ?w = joined w" by (rule joined_hand) simp
  have sess: "w_sess ?w p = w_sess w p" if "p \<in> stored w" for p using that S(1) by auto
  have "conn_ok ?w c' p q" if "conn_ok w c' p q" for c' p q
    using that sess [of p] S(2) unfolding conn_ok_def by auto
  then show "conns_ok ?w" using assms(1) unfolding conns_ok_def J by simp
  have own: "s_participants s = Map.empty" "s_frameHandlers s = Map.empty" using A by (simp_all add: adds_session_def)
  show "members_ok ?w"
    unfolding members_ok_def S(2)
  proof (intro ballI conjI allI impI)
    fix p pid q assume p: "p \<in> insert (w_nextS w) (stored w)" and q: "s_participants (w_sess ?w p) pid = Some q"
    then have "p \<in> stored w" by (auto simp: own)
    with q show "joined ?w (p_Responder (w_part ?w q)) = Some (p, q)"
      using members_okD(1) [OF assms(2), of p pid q] sess [of p] by (simp add: J)
  next
    fix p fid c' assume p: "p \<in> insert (w_nextS w) (stored w)" and q: "s_frameHandlers (w_sess ?w p) fid = Some c'"
    then have "p \<in> stored w" by (auto simp: own)
    with q show "joined ?w c' \<noteq> None" "h_stopFrameHandling (w_hand ?w c') = Some (p, fid)"
      using members_okD(2) [OF assms(2), of p fid c'] sess [of p] by (simp_all add: J)
  qed
qed

lemma adds_session_store:
  assumes ok: "store_ok {} n n w" and A: "adds_session n w st i s"
  shows "store_ok {w_nextS w} (Suc n) n (add_session st s w)"
  unfolding store_ok_def
proof (intro conjI allI impI)
  let ?w = "add_session st s w" and ?sp = "w_nextS w"
  note S = adds_session_stored [OF ok A] and A' = A [unfolded adds_session_def]
  have sess: "w_sess ?w p = w_sess w p" if "p \<in> stored w" for p using that S(1) by auto
  fix v p assume v: "find_session (w_store ?w) v = Some p"
  have "v = GlobalSessionID (w_store ?w) (s_ID (w_sess ?w p)) \<and> p < w_nextS ?w \<and>
      session_ok n (w_part ?w) (w_sess ?w p) \<and> \<not> s_closeOnce (w_sess ?w p) \<and>
      (p \<notin> {?sp} \<longrightarrow> dom (s_participants (w_sess ?w p)) \<noteq> {})"
  proof (cases "v = GlobalSessionID (w_store w) i")
    case True
    with v A' show ?thesis by simp
  next
    case False
    with v A' have v': "find_session (w_store w) v = Some p" by simp
    note D = store_okD [OF ok v']
    show ?thesis using D A' sess [OF D(6)] by simp
  qed
  then show "v = GlobalSessionID (w_store ?w) (s_ID (w_sess ?w p))" "p < w_nextS ?w"
    "session_ok n (w_part ?w) (w_sess ?w p)" "\<not> s_closeOnce (w_sess ?w p)"
    "p \<notin> {?sp} \<Longrightarrow> dom (s_participants (w_sess ?w p)) \<noteq> {}" by simp_all
next
  let ?w = "add_session st s w" and ?sp = "w_nextS w"
  note S = adds_session_stored [OF ok A] and A' = A [unfolded adds_session_def]
  have img: "f ` w_sess ?w ` stored ?w = insert (f s) (f ` w_sess w ` stored w)" for f :: "ModState Session \<Rightarrow> u32"
    using S(1) unfolding S(2) by (auto simp: image_iff)
  show "covers (Suc n) (ss_ids (w_store ?w)) (s_ID ` w_sess ?w ` stored ?w)"
    unfolding img using A' by simp
  show "ss_sessionCount (w_store ?w) key = int (card {p \<in> stored ?w. s_AppKey (w_sess ?w p) = key})" for key
  proof -
    let ?A = "{p \<in> stored w. s_AppKey (w_sess w p) = key}"
    have "{p \<in> stored ?w. s_AppKey (w_sess ?w p) = key} = (if key = s_AppKey s then insert ?sp ?A else ?A)"
      using S(1) unfolding S(2) by auto
    moreover have "card (insert ?sp ?A) = Suc (card ?A)"
      using finite_stored [OF ok] S(1) by (intro card_insert_disjoint) simp_all
    ultimately have "int (card {p \<in> stored ?w. s_AppKey (w_sess ?w p) = key}) =
      (if key = s_AppKey s then int (card ?A) + 1 else int (card ?A))" by presburger
    moreover have "ss_sessionCount (w_store ?w) key =
      (if key = s_AppKey s then ss_sessionCount (w_store w) key + 1 else ss_sessionCount (w_store w) key)"
      using A' by simp
    ultimately show ?thesis using store_ok_ids(2) [OF ok, of key] by presburger
  qed
qed

lemma inv_create:
  assumes i: "pre_inv {} n n w" and e: "env_ok e" and n: "n < id_limit"
    and C: "create_session e c w = (sp, w')"
  shows "pre_inv {sp} (Suc n) n w'" and "sp \<in> stored w'"
    and "w_hand w' = w_hand w" and "w_nextC w' = w_nextC w" and "w_loop w' = w_loop w"
proof -
  note I = invD [OF i]
  obtain st k s where W: "sp = w_nextS w" "w' = add_session st s w" "adds_session n w st k s"
    by (rule create_session_adds [OF i e n C])
  show "pre_inv {sp} (Suc n) n w'"
    using adds_session_members [OF I(1-3) W(3)] adds_session_store [OF I(3) W(3)] I(4) by (simp add: pre_inv_def W(1,2))
  show "sp \<in> stored w'" using adds_session_stored(2) [OF I(3) W(3)] by (simp add: W(1,2))
  show "w_hand w' = w_hand w" "w_nextC w' = w_nextC w" "w_loop w' = w_loop w" by (simp_all add: W(2))
qed

text \<open>The links between connections and members after a participant entered.\<close>

lemma join_links:
  assumes c: "conns_ok w" and m: "members_ok w" and j: "joined w c = None" and n: "c < w_nextC w"
    and sp: "sp \<in> stored w" and pid: "s_participants (w_sess w sp) pid = None"
    and fid: "s_frameHandlers (w_sess w sp) fid = None"
    and h: "w_hand w' = (w_hand w)(c := (w_hand w c)\<lparr>h_stopFrameHandling := Some (sp, fid),
      h_currentSession := Some sp, h_currentParticipant := Some (w_nextP w),
      h_Modules := map (\<lambda>m. m\<lparr>m_current := Some (sp, w_nextP w)\<rparr>) (h_Modules (w_hand w c))\<rparr>)"
    and s: "w_sess w' = (w_sess w)(sp := s)"
    and P: "w_part w' = (w_part w)(w_nextP w := \<lparr>p_ID = pid, p_Responder = c, p_entityIDs = {}\<rparr>)"
    and ss: "s_participants s = (s_participants (w_sess w sp))(pid \<mapsto> w_nextP w)"
      "s_frameHandlers s = (s_frameHandlers (w_sess w sp))(fid \<mapsto> c)"
    and fr: "w_nextP w' = Suc (w_nextP w)" "w_nextC w' = w_nextC w" "w_store w' = w_store w"
      "w_latency w' = (w_latency w)(w_nextP w := newSignedLatency)"
  shows "conns_ok w'" and "members_ok w'"
proof -
  have st: "stored w' = stored w" by (rule stored_store) (simp add: fr)
  have J: "joined w' c' = (if c' = c then Some (sp, w_nextP w) else joined w c')" for c'
    by (simp add: joined_def h split: option.split)
  have old: "conn_ok w' c' p q" if j': "joined w c' = Some (p, q)" and "c' \<noteq> c" for c' p q
  proof -
    obtain fid' where C: "p \<in> stored w" "q < w_nextP w" "c' < w_nextC w" "p_Responder (w_part w q) = c'"
      "s_participants (w_sess w p) (p_ID (w_part w q)) = Some q"
      "h_stopFrameHandling (w_hand w c') = Some (p, fid')"
      "s_frameHandlers (w_sess w p) fid' = Some c'" "modules_at p q (h_Modules (w_hand w c'))"
      "latency_at c' (w_latency w q)"
      using conns_okD(3) [OF c j'] by (rule conn_okE)
    have "s_participants (w_sess w' p) (p_ID (w_part w q)) = Some q"
      using C(5) pid by (cases "p = sp") (auto simp: s ss)
    moreover have "s_frameHandlers (w_sess w' p) fid' = Some c'"
      using C(7) fid by (cases "p = sp") (auto simp: s ss)
    moreover have "w_part w' q = w_part w q" using C(2) by (simp add: P)
    ultimately show ?thesis
      using C \<open>c' \<noteq> c\<close> unfolding conn_ok_def by (simp add: st h fr)
  qed
  have new: "conn_ok w' c sp (w_nextP w)"
    using conns_okD(2) [OF c, of c] sp n
    by (auto simp: conn_ok_def st P s ss h fr modules_at_def)
  have "conn_ok w' c' p q" if "joined w' c' = Some (p, q)" for c' p q
    using that old new by (cases "c' = c") (simp_all add: J)
  then show "conns_ok w'"
    using conns_okD(1,2) [OF c] conns_okD(2) [OF c, of c] unfolding conns_ok_def
    by (simp add: h comp_def)
  show "members_ok w'"
    unfolding members_ok_def st
  proof (intro ballI conjI allI impI)
    fix p pid' q assume p: "p \<in> stored w" and q: "s_participants (w_sess w' p) pid' = Some q"
    show "joined w' (p_Responder (w_part w' q)) = Some (p, q)"
    proof (cases "p = sp \<and> pid' = pid")
      case True
      with q have "q = w_nextP w" by (simp add: s ss)
      with True show ?thesis by (simp add: J P)
    next
      case False
      with q have "s_participants (w_sess w p) pid' = Some q" by (auto simp: s ss split: if_splits)
      note jq = members_okD(1) [OF m p this]
      with j have "p_Responder (w_part w q) \<noteq> c" by auto
      moreover have "q < w_nextP w" using conns_okD(3) [OF c jq] by (auto elim: conn_okE)
      ultimately show ?thesis using jq by (simp add: J P)
    qed
  next
    fix p fid' c' assume p: "p \<in> stored w" and q: "s_frameHandlers (w_sess w' p) fid' = Some c'"
    have "joined w' c' \<noteq> None \<and> h_stopFrameHandling (w_hand w' c') = Some (p, fid')"
    proof (cases "p = sp \<and> fid' = fid")
      case True
      with q have "c' = c" by (simp add: s ss)
      with True show ?thesis by (simp add: J h)
    next
      case False
      with q have "s_frameHandlers (w_sess w p) fid' = Some c'" by (auto simp: s ss split: if_splits)
      note jq = members_okD(2) [OF m p this]
      with j have "c' \<noteq> c" by auto
      with jq show ?thesis by (simp add: J h)
    qed
    then show "joined w' c' \<noteq> None" "h_stopFrameHandling (w_hand w' c') = Some (p, fid')" by simp_all
  qed
qed

lemma inv_join:
  assumes i: "pre_inv X k n w" and X: "X \<subseteq> {sp}" and k: "k \<le> Suc n" and e: "env_ok e"
    and n: "n < id_limit" and sp: "sp \<in> stored w" and j: "joined w c = None" and c: "c < w_nextC w"
    and W: "join_session e c req sp w = (out, w')"
  shows "inv (Suc n) w'" and "out = Nil_error" and "joined w' c = Some (sp, w_nextP w)"
    and "w_loop w' = w_loop w" and "w_nextC w' = w_nextC w"
    and "modules_at sp (w_nextP w) (h_Modules (w_hand w' c))"
proof -
  note I = invD [OF i]
  note ok = store_ok_session(1) [OF I(3) sp]
  have fresh: "p < w_nextP w" if q: "s_participants (w_sess w q) pid = Some p" and "q \<in> stored w" for q pid p
    using conns_okD(3) [OF I(1) members_okD(1) [OF I(2) that(2) q]] by (auto elim: conn_okE)
  obtain pid fid s H q where J: "join_session e c req sp w =
      (Nil_error, w\<lparr>w_part := H, w_nextP := Suc (w_nextP w), w_latency := (w_latency w)(w_nextP w := newSignedLatency),
        w_sess := (w_sess w)(sp := s),
        w_hand := (w_hand w)(c := (w_hand w c)\<lparr>h_stopFrameHandling := Some (sp, fid),
          h_currentSession := Some sp, h_currentParticipant := Some (w_nextP w),
          h_Modules := map (\<lambda>m. m\<lparr>m_current := Some (sp, w_nextP w)\<rparr>) (h_Modules (w_hand w c))\<rparr>),
        w_out := q\<rparr>)"
    and H: "H = (w_part w)(w_nextP w := \<lparr>p_ID = pid, p_Responder = c, p_entityIDs = {}\<rparr>)"
    and s: "session_ok (Suc n) H s" and pid: "s_participants (w_sess w sp) pid = None"
    and P: "s_participants s = (s_participants (w_sess w sp))(pid \<mapsto> w_nextP w)"
    and fid: "s_frameHandlers (w_sess w sp) fid = None"
    and F: "s_frameHandlers s = (s_frameHandlers (w_sess w sp))(fid \<mapsto> c)"
    and "s_entities s = s_entities (w_sess w sp)"
    and id: "s_ID s = s_ID (w_sess w sp)" and key: "s_AppKey s = s_AppKey (w_sess w sp)"
    and cl: "s_closeOnce s = s_closeOnce (w_sess w sp)"
    by (rule join_session_effect [OF e n ok fresh [OF _ sp]])
  have w': "w' = w\<lparr>w_part := H, w_nextP := Suc (w_nextP w), w_latency := (w_latency w)(w_nextP w := newSignedLatency),
        w_sess := (w_sess w)(sp := s),
        w_hand := (w_hand w)(c := (w_hand w c)\<lparr>h_stopFrameHandling := Some (sp, fid),
          h_currentSession := Some sp, h_currentParticipant := Some (w_nextP w),
          h_Modules := map (\<lambda>m. m\<lparr>m_current := Some (sp, w_nextP w)\<rparr>) (h_Modules (w_hand w c))\<rparr>),
        w_out := q\<rparr>" and out: "out = Nil_error"
    using W J by simp_all
  show "out = Nil_error" by (rule out)
  show "joined w' c = Some (sp, w_nextP w)" "w_loop w' = w_loop w" "w_nextC w' = w_nextC w"
    by (simp_all add: joined_def w')
  show "modules_at sp (w_nextP w) (h_Modules (w_hand w' c))"
    using conns_okD(2) [OF I(1), of c] by (auto simp: w' modules_at_def)
  have links: "conns_ok w'" "members_ok w'"
    by (rule join_links [OF I(1,2) j c sp pid fid _ _ _ P F]; simp add: w' H)+
  have "session_ok n H (w_sess w p)" if p: "p \<in> stored w" for p
  proof (rule session_ok_heap [OF store_ok_session(1) [OF I(3) p]])
    show "H r = w_part w r" if "s_participants (w_sess w p) i = Some r" for i r
      using fresh [OF that p] by (simp add: H)
  qed
  then have "store_ok {} (Suc n) (Suc n) w'"
    using s id key cl P X
    by (intro store_ok_change [OF I(3) sp k, where w' = w' and s = s]) (auto simp: w')
  then show "inv (Suc n) w'"
    using links I(4) by (simp add: inv_def pre_inv_def w')
qed

section \<open>Every event\<close>

lemma not_joined:
  assumes "conns_ok w"
  shows "joined w c = None \<longleftrightarrow> h_currentSession (w_hand w c) = None"
    and "joined w c = None \<longleftrightarrow> h_currentParticipant (w_hand w c) = None"
  using conns_okD(1) [OF assms, of c] by (auto simp: joined_def split: option.split)

lemma HandleParticipantJoin_inv:
  assumes i: "inv n w" and e: "env_ok e" and n: "n < id_limit" and c: "c < w_nextC w"
  shows "inv (Suc n) (snd (HandleParticipantJoin e c data w)) \<and>
    w_loop (snd (HandleParticipantJoin e c data w)) = w_loop w \<and>
    w_nextC (snd (HandleParticipantJoin e c data w)) = w_nextC w \<and>
    fst (HandleParticipantJoin e c data w) \<noteq> Panicked"
proof (cases data)
  case (Inl err)
  then show ?thesis
    using inv_mono [OF i, of "Suc n"] by (simp add: HandleParticipantJoin_def DataTo_def)
next
  case (Inr req)
  let ?already = "case h_currentSession (w_hand w c) of None \<Rightarrow> False
    | Some sp \<Rightarrow> GlobalSessionID (w_store w) (s_ID (w_sess w sp)) = join_SessionId req"
  show ?thesis
  proof (cases ?already)
    case True
    have "inv (Suc n) (reply_error e c (join_RequestId req) SESSION_ALREADY_JOINED w)"
      using inv_mono [OF inv_idle [OF i idle_answers(2)], of "Suc n"] by simp
    with True show ?thesis by (simp add: HandleParticipantJoin_def DataTo_def Inr)
  next
    case False
    define w1 where "w1 = (if h_currentParticipant (w_hand w c) \<noteq> None then leaveSession e c w else w)"
    have 1: "inv n w1 \<and> joined w1 c = None \<and> w_loop w1 = w_loop w \<and> w_nextC w1 = w_nextC w"
    proof (cases "joined w c")
      case None
      then show ?thesis
        using i not_joined(2) [OF invD(1) [OF i [unfolded inv_def]], of c] by (simp add: w1_def)
    next
      case (Some a)
      obtain sp pp where a: "joined w c = Some (sp, pp)" using Some by (cases a) simp
      have "w1 = leaveSession e c w"
        using not_joined(2) [OF invD(1) [OF i [unfolded inv_def]], of c] Some by (simp add: w1_def)
      then show ?thesis using inv_leave [OF i e a] by simp
    qed
    obtain found st where G: "GetByGlobalID (join_SessionId req) (w_store w1) = (found, st)" by fastforce
    define w2 where "w2 = w1\<lparr>w_store := st\<rparr>"
    have 2: "inv n w2" "joined w2 c = None" "w_loop w2 = w_loop w" "w_nextC w2 = w_nextC w"
      using 1 inv_lookup [of n w1 "join_SessionId req"] joined_hand [of w2 w1] by (simp_all add: w2_def G)
    have c2: "c < w_nextC w2" using c 2 by simp
    have B: "HandleParticipantJoin e c data w =
      (case found of
         Some sp \<Rightarrow> join_session e c req sp w2
       | None \<Rightarrow>
           if join_SessionId req \<noteq> ''''
           then (Nil_error, reply_error e c (join_RequestId req) NOT_FOUND w2)
           else (let (sp, w3) = create_session e c w2 in join_session e c req sp w3))"
      unfolding HandleParticipantJoin_def DataTo_def Inr sum.case if_not_P [OF False] Let_def
        w1_def [symmetric] G prod.case w2_def [symmetric] by (cases found) simp_all
    consider (join) sp where "found = Some sp"
      | (unknown) "found = None" "join_SessionId req \<noteq> ''''"
      | (create) "found = None" "join_SessionId req = ''''" by (cases found) auto
    then show ?thesis
    proof cases
      case join
      have "find_session (w_store w2) (join_SessionId req) = Some sp"
        using G join find_session_init [of "w_store w1"]
        by (auto simp: w2_def find_session_def GetByGlobalID_def Let_def)
      then have sp: "sp \<in> stored w2" by (auto simp: stored_def)
      obtain out w3 where J: "join_session e c req sp w2 = (out, w3)" by fastforce
      show ?thesis
        using inv_join [OF 2(1) [unfolded inv_def] _ _ e n sp 2(2) c2 J] 2 by (simp add: B join J)
    next
      case unknown
      have "inv (Suc n) (reply_error e c (join_RequestId req) NOT_FOUND w2)"
        using inv_mono [OF inv_idle [OF 2(1) idle_answers(2)], of "Suc n"] by simp
      with unknown 2 show ?thesis by (simp add: B)
    next
      case create
      obtain sp w3 where C: "create_session e c w2 = (sp, w3)" by fastforce
      note K = inv_create [OF 2(1) [unfolded inv_def] e n C]
      have j3: "joined w3 c = None" using 2(2) joined_hand [OF K(3)] by simp
      have c3: "c < w_nextC w3" using c2 K(4) by simp
      obtain out w4 where J: "join_session e c req sp w3 = (out, w4)" by fastforce
      show ?thesis
        using inv_join [OF K(1) _ _ e n K(2) j3 c3 J] K 2 create by (simp add: B C J)
    qed
  qed
qed

end
