(* ===== verification/Reachable.thy ===== *)
theory Reachable
imports Invariants
begin

text \<open>
  Every event keeps the invariant, hence every reachable state satisfies it as long as fewer
  than \<open>2 ^ 32 - 1\<close> events happened. The bound is that of the 32-bit ids: an event
  draws at most one id from each generator.
\<close>

section \<open>Messages\<close>

lemma delete_succeeds:
  assumes "joined w c \<noteq> None" and "deleting msg s \<noteq> {}"
  shows "fst (handle_core e c msg w) = Nil_error"
  using assms
  by (cases rule: deleting_cases [of msg s])
    (auto simp: handle_core_def HandleEntityDelete_def DataTo_def with_joined_def Let_def
      split: option.split)

text \<open>A core step whose modules states are tidy again keeps the invariant.\<close>

lemma core_step_tidy_but:
  assumes "core_step n msg sp pp w w'" and "session_ok k H (w_sess w sp)"
  shows "tidy_but (deleting msg (w_sess w' sp)) (w_sess w' sp)"
    and "mods_ok k (w_sess w' sp)"
proof -
  have M: "s_moduleStates (w_sess w' sp) = s_moduleStates (w_sess w sp)"
    and D: "dom (s_entities (w_sess w sp)) \<subseteq>
      deleting msg (w_sess w' sp) \<union> dom (s_entities (w_sess w' sp))"
    using assms(1) by (simp_all add: core_step_def)
  show "tidy_but (deleting msg (w_sess w' sp)) (w_sess w' sp)"
    using D session_okD(3,4) [OF assms(2)]
    by (simp add: tidy_but_def modstates_cong [OF M] vikja.tidy_def odal.tidy_def) (meson subset_trans)
  show "mods_ok k (w_sess w' sp)"
    using session_okD(2) [OF assms(2)] by (simp add: modstates_cong [OF M])
qed

lemma modules_inv:
  assumes i: "inv n w" and j: "joined w c = Some (sp, pp)" and msg: "deleting msg (w_sess w sp) = {}"
    and O: "\<And>data. msg \<noteq> OdalAssetInstanceAddRequest data"
  shows "inv n (snd (run_modules e c (h_Modules (w_hand w c)) msg w))"
    and "w_loop (snd (run_modules e c (h_Modules (w_hand w c)) msg w)) = w_loop w"
    and "w_nextC (snd (run_modules e c (h_Modules (w_hand w c)) msg w)) = w_nextC w"
proof -
  let ?ms = "h_Modules (w_hand w c)"
  note M = inv_member [OF i [unfolded inv_def] j]
  have t: "tidy_but (deleting msg (w_sess w sp)) (w_sess w sp)"
    using session_okD(3,4) [OF M(2)] by (simp add: msg tidy_but_none)
  have j': "joined w c \<noteq> None" using j by simp
  note R = run_modules_ok [OF M(4) j' session_okD(1,2) [OF M(2)] order_refl
      Odal_Msg_mods_ok_same [OF _ _ O] t, where e = e]
  have L: "local_step sp pp w (snd (run_modules e c ?ms msg w))"
    using R(1) by (rule local_step_touches)
  show "inv n (snd (run_modules e c ?ms msg w))"
    using R(2) touchesD(1) [OF R(1)] by (intro inv_local [OF i j L]) simp_all
  show "w_loop (snd (run_modules e c ?ms msg w)) = w_loop w"
    "w_nextC (snd (run_modules e c ?ms msg w)) = w_nextC w"
    using local_stepD [OF L] by simp_all
qed

lemma handleMessage_plain:
  assumes i: "inv n w" and e: "env_ok e" and n: "n < id_limit" and p: "plain msg"
  shows "inv (Suc n) (snd (handleMessage e c msg w)) \<and>
    w_loop (snd (handleMessage e c msg w)) = w_loop w \<and>
    w_nextC (snd (handleMessage e c msg w)) = w_nextC w"
proof -
  obtain out w1 where C: "handle_core e c msg w = (out, w1)" by fastforce
  note I = invD [OF i [unfolded inv_def]]
  show ?thesis
  proof (cases "joined w c")
    case None
    then have "idle w w1"
      using handle_core_idle [OF _ p, of w c e] not_joined [OF I(1), of c] by (simp add: C)
    moreover from this have "joined w1 c = None"
      using None joined_hand [of w1 w] by (auto simp: idle_def)
    then have "snd (handleMessage e c msg w) = w1"
      by (simp add: handleMessage_def C split: outcome.split)
    ultimately show ?thesis
      using inv_mono [OF inv_idle [OF i], of w1 "Suc n"] by (auto simp: idle_def)
  next
    case (Some a)
    then obtain sp pp where j: "joined w c = Some (sp, pp)" by (cases a) simp
    note M = inv_member [OF i [unfolded inv_def] j]
    have S: "core_step n msg sp pp w w1" using handle_core_step [OF M(1) e n p] by (simp add: C)
    then have L: "local_step sp pp w w1" and ok1: "sess_ok (Suc n) (w_part w1) (w_sess w1 sp)"
      by (simp_all add: core_step_def)
    note T = core_step_tidy_but [OF S M(2)]
    have j1: "joined w1 c = Some (sp, pp)" using joined_local [OF L] j by simp
    have ms: "modules_at sp pp (h_Modules (w_hand w1 c))" using M(4) local_stepD(14) [OF L] by simp
    show ?thesis
    proof (cases "out = Nil_error")
      case True
      have j1': "joined w1 c \<noteq> None" using j1 by simp
      have W: "handleMessage e c msg w = run_modules e c (h_Modules (w_hand w1 c)) msg w1"
        using True j1 by (simp add: handleMessage_def C)
      note R = run_modules_ok [OF ms j1' ok1 T(2) _ Odal_Msg_mods_ok [OF _ _ e n] T(1)]
      let ?w2 = "snd (handleMessage e c msg w)"
      have R': "touches sp w1 ?w2" "session_ok (Suc n) (w_part w1) (w_sess ?w2 sp)"
        using R unfolding W by simp_all
      have L2: "local_step sp pp w ?w2"
        using local_step_trans [OF L local_step_touches [OF R'(1)]] .
      have "inv (Suc n) ?w2"
        using R'(2) touchesD(1) [OF R'(1)] by (intro inv_local [OF i j L2]) simp_all
      then show ?thesis using local_stepD [OF L2] by simp
    next
      case False
      then have W: "snd (handleMessage e c msg w) = w1"
        by (cases out) (simp_all add: handleMessage_def C)
      have "deleting msg (w_sess w1 sp) = {}"
        using False delete_succeeds [of w c msg "w_sess w1 sp" e] j by (auto simp: C)
      then have "session_ok (Suc n) (w_part w1) (w_sess w1 sp)"
        using ok1 T(1) mods_ok_mono [OF T(2), of "Suc n"] by (simp add: session_ok_def tidy_but_none)
      then have "inv (Suc n) w1" by (intro inv_local [OF i j L]) simp_all
      then show ?thesis using W local_stepD [OF L] by simp
    qed
  qed
qed

lemma after_core_inv:
  assumes i: "inv n w1" and C: "handle_core e c msg w = (out, w1)"
    and d: "\<And>s. deleting msg s = {}" and O: "\<And>data. msg \<noteq> OdalAssetInstanceAddRequest data"
  shows "inv n (snd (handleMessage e c msg w)) \<and>
    w_loop (snd (handleMessage e c msg w)) = w_loop w1 \<and>
    w_nextC (snd (handleMessage e c msg w)) = w_nextC w1"
proof (cases "joined w1 c")
  case None
  then have "snd (handleMessage e c msg w) = w1"
    by (simp add: handleMessage_def C split: outcome.split)
  with i show ?thesis by simp
next
  case (Some a)
  then obtain sp pp where j: "joined w1 c = Some (sp, pp)" by (cases a) simp
  show ?thesis
    using modules_inv [OF i j d O, of e] i j
    by (cases out) (simp_all add: handleMessage_def C)
qed

lemma HandleReceipt_inv:
  assumes i: "inv n w"
  shows "inv n (snd (HandleReceipt e c data w)) \<and>
    w_loop (snd (HandleReceipt e c data w)) = w_loop w \<and>
    w_nextC (snd (HandleReceipt e c data w)) = w_nextC w"
proof (cases data)
  case (Inl err)
  with i show ?thesis by (simp add: HandleReceipt_def DataTo_def)
next
  case (Inr req)
  have "inv n (reply_error e c r code w)" for r code
    using inv_idle [OF i idle_answers(2)] .
  moreover have "inv n (respond e c m (w\<lparr>w_receipts := w_receipts w @ [r]\<rparr>))"
    if "length (w_receipts w) < receiptChanSize" for m r
    using that by (intro inv_idle [OF inv_receipts [OF i] idle_answers(1)]) simp
  ultimately show ?thesis by (simp add: Inr HandleReceipt_def DataTo_def)
qed

lemma handleMessage_inv:
  assumes i: "inv n w" and e: "env_ok e" and n: "n < id_limit" and c: "c < w_nextC w"
  shows "inv (Suc n) (snd (handleMessage e c msg w)) \<and>
    w_loop (snd (handleMessage e c msg w)) = w_loop w \<and>
    w_nextC (snd (handleMessage e c msg w)) = w_nextC w"
proof -
  consider (plain) "plain msg" | (join) data where "msg = ParticipantJoinRequest data"
    | (receipt) data where "msg = ReceiptRequest data" by (cases msg) (auto simp: plain_def)
  then show ?thesis
  proof cases
    case plain
    then show ?thesis by (rule handleMessage_plain [OF i e n])
  next
    case (join data)
    obtain out w1 where C: "handle_core e c msg w = (out, w1)" by fastforce
    have "inv (Suc n) w1 \<and> w_loop w1 = w_loop w \<and> w_nextC w1 = w_nextC w"
      using HandleParticipantJoin_inv [OF i e n c, of data] C by (simp add: handle_core_def join)
    then show ?thesis
      using after_core_inv [OF _ C, of "Suc n"] by (simp add: join deleting_def)
  next
    case (receipt data)
    obtain out w1 where C: "handle_core e c msg w = (out, w1)" by fastforce
    have "inv n w1 \<and> w_loop w1 = w_loop w \<and> w_nextC w1 = w_nextC w"
      using HandleReceipt_inv [OF i, of e c data] C by (simp add: handle_core_def receipt)
    then show ?thesis
      using after_core_inv [OF _ C, of "Suc n"] inv_mono [of n w1 "Suc n"]
      by (simp add: receipt deleting_def)
  qed
qed

section \<open>Events\<close>

text \<open>Only accepted connections have a loop.\<close>

definition loops_ok :: "world \<Rightarrow> bool" where
  "loops_ok w \<longleftrightarrow> (\<forall>c. w_loop w c \<noteq> NotStarted \<longrightarrow> c < w_nextC w)"

definition server_ok :: "nat \<Rightarrow> world \<Rightarrow> bool" where
  "server_ok n w \<longleftrightarrow> inv n w \<and> loops_ok w"

lemma server_ok_loop:
  assumes "server_ok n w" and "w_loop w c \<noteq> NotStarted"
  shows "server_ok n (set_loop c l w)"
  using assms inv_loop [of n w c l] by (auto simp: server_ok_def loops_ok_def set_loop_def)

lemma server_ok_mono: "server_ok n w \<Longrightarrow> n \<le> m \<Longrightarrow> server_ok m w"
  by (auto simp: server_ok_def intro: inv_mono)

lemma server_ok_cong:
  "server_ok n w \<Longrightarrow> inv n w' \<Longrightarrow> w_loop w' = w_loop w \<Longrightarrow> w_nextC w' = w_nextC w \<Longrightarrow> server_ok n w'"
  by (simp add: server_ok_def loops_ok_def)

lemma server_ok_handled:
  assumes "server_ok n (snd r)" and "w_loop (snd r) c \<noteq> NotStarted"
  shows "server_ok n (handled c r)"
  using assms server_ok_loop [OF assms]
  by (auto simp: handled_def disconnect_def split: prod.split outcome.split loop.split)

lemma accept_inv:
  assumes "server_ok n w"
  shows "server_ok n (accept_conn cid key w)"
proof -
  let ?c = "w_nextC w"
  let ?w = "upd_hand ?c (\<lambda>_. HandleConnect cid key newHandler) (w\<lparr>w_nextC := Suc ?c\<rparr>)"
  have i: "pre_inv {} n n w" using assms by (simp add: server_ok_def inv_def)
  note I = invD [OF i]
  have j: "joined w ?c = None"
  proof (cases "joined w ?c")
    case (Some a)
    then have "conn_ok w ?c (fst a) (snd a)" using conns_okD(3) [OF I(1)] by simp
    then show ?thesis by (simp add: conn_ok_def)
  qed
  have J: "joined ?w = joined w"
    using j by (auto simp: fun_eq_iff joined_def HandleConnect_def newHandler_def split: option.split)
  have S: "stored ?w = stored w" by (rule stored_store) simp
  have "conn_ok ?w c' p q" if "joined w c' = Some (p, q)" for c' p q
    using conns_okD(3) [OF I(1) that] j that unfolding conn_ok_def S by (auto simp: less_Suc_eq)
  then have "conns_ok ?w"
    using conns_okD(1,2) [OF I(1)] unfolding conns_ok_def J
    by (simp add: HandleConnect_def newHandler_def)
  moreover have "members_ok ?w"
    unfolding members_ok_def S J
  proof (intro ballI conjI allI impI)
    fix sp fid c' assume sp: "sp \<in> stored w" and f: "s_frameHandlers (w_sess ?w sp) fid = Some c'"
    have F: "joined w c' \<noteq> None \<and> h_stopFrameHandling (w_hand w c') = Some (sp, fid)"
      using members_okD(2) [OF I(2) sp] f by simp
    then show "joined w c' \<noteq> None" by simp
    show "h_stopFrameHandling (w_hand ?w c') = Some (sp, fid)"
      using F j by (cases "c' = ?c") simp_all
  qed (use members_okD(1) [OF I(2)] in simp)
  moreover have "store_ok {} n n ?w"
    using I(3) unfolding store_ok_def S by simp
  ultimately have "inv n ?w" using I(4) by (simp add: inv_def pre_inv_def)
  then have "inv n (accept_conn cid key w)"
    unfolding accept_conn_def Let_def by (rule inv_loop)
  then show ?thesis
    using assms by (auto simp: server_ok_def loops_ok_def accept_conn_def Let_def set_loop_def)
qed

lemma HandleDisconnect_inv:
  assumes s: "server_ok n w" and e: "env_ok e"
  shows "server_ok n (HandleDisconnect e c w)" and "w_loop (HandleDisconnect e c w) = w_loop w"
proof -
  have i: "inv n w" using s by (simp add: server_ok_def)
  have "server_ok n (HandleDisconnect e c w) \<and> w_loop (HandleDisconnect e c w) = w_loop w"
  proof (cases "joined w c")
    case None
    have "conns_ok w" using s by (simp add: server_ok_def inv_def pre_inv_def)
    with None s show ?thesis using not_joined(2) [of w c] by (simp add: HandleDisconnect_def)
  next
    case (Some a)
    obtain sp pp where a: "joined w c = Some (sp, pp)" using Some by (cases a) simp
    show ?thesis using inv_leave [OF i e a] s by (simp add: HandleDisconnect_def server_ok_def loops_ok_def)
  qed
  then show "server_ok n (HandleDisconnect e c w)" "w_loop (HandleDisconnect e c w) = w_loop w" by simp_all
qed

lemma exec_inv:
  assumes s: "server_ok n w" and e: "env_ok e" and n: "n < id_limit"
  shows "server_ok (Suc n) (exec e ev w)"
proof (cases ev)
  case (Connect cid key)
  then show ?thesis using accept_inv [OF server_ok_mono [OF s]] by (simp add: exec_def)
next
  case (Message c msg)
  show ?thesis
  proof (cases "is_running w c")
    case True
    then have l: "w_loop w c \<noteq> NotStarted" by (auto simp: is_running_def)
    then have c: "c < w_nextC w" using s by (simp add: server_ok_def loops_ok_def)
    have i: "inv n w" using s by (simp add: server_ok_def)
    note H = handleMessage_inv [OF i e n c, of msg]
    have "server_ok (Suc n) (snd (handleMessage e c msg w))"
      using server_ok_cong [OF server_ok_mono [OF s, of "Suc n"]] H by simp
    then show ?thesis
      using True H l by (simp add: Message exec_def server_ok_handled)
  next
    case False
    then show ?thesis using server_ok_mono [OF s, of "Suc n"] by (simp add: Message exec_def)
  qed
next
  case (SyncClockTick c)
  show ?thesis
  proof (cases "is_running w c")
    case True
    then have l: "w_loop w c \<noteq> NotStarted" by (auto simp: is_running_def)
    have "inv n (snd (SendSyncClock e c w))"
      using s inv_idle [OF _ idle_answers(1)] by (simp add: server_ok_def SendSyncClock_def)
    then have "server_ok (Suc n) (snd (SendSyncClock e c w))"
      using s inv_mono [of n _ "Suc n"] by (simp add: server_ok_def SendSyncClock_def loops_ok_def)
    then show ?thesis
      using True l by (simp add: SyncClockTick exec_def server_ok_handled SendSyncClock_def)
  next
    case False
    then show ?thesis using server_ok_mono [OF s, of "Suc n"] by (simp add: SyncClockTick exec_def)
  qed
next
  case (TakeDisconnect c)
  show ?thesis
  proof (cases "\<exists>k. w_loop w c = Running (Suc k)")
    case True
    then have l: "w_loop w c \<noteq> NotStarted" by auto
    have "server_ok n (handleDisconnect e c w)"
      unfolding handleDisconnect_def using l by (intro server_ok_loop) (simp_all add: HandleDisconnect_inv [OF s e])
    then show ?thesis
      using True server_ok_mono [of n _ "Suc n"] by (auto simp: TakeDisconnect exec_def)
  next
    case False
    then show ?thesis
      using server_ok_mono [OF s, of "Suc n"]
      by (auto simp: TakeDisconnect exec_def split: loop.split nat.split)
  qed
next
  case TakeReceipt
  have "length (tl (w_receipts w)) \<le> receiptChanSize"
    using s by (auto simp: server_ok_def inv_def pre_inv_def)
  then have "server_ok n (w\<lparr>w_receipts := tl (w_receipts w)\<rparr>)"
    using s inv_receipts [of n w] by (simp add: server_ok_def loops_ok_def)
  then show ?thesis using server_ok_mono [of n _ "Suc n"] by (simp add: TakeReceipt exec_def)
qed (use server_ok_loop [OF server_ok_mono [OF s, of "Suc n"]] server_ok_mono [OF s, of "Suc n"] in
    \<open>auto simp: exec_def disconnect_def split: loop.split\<close>)

lemma init_ok: "server_ok 0 (init_world d)"
proof -
  have F: "find_session (newSessionStore d) v = None" for v
    by (simp add: find_session_def GetByGlobalID_def Let_def init_once_def newSessionStore_def)
  have "joined (init_world d) c = None" for c
    by (simp add: joined_def init_world_def newHandler_def)
  then show ?thesis
    by (simp add: server_ok_def loops_ok_def inv_def pre_inv_def conns_ok_def members_ok_def
        store_ok_def stored_def init_world_def F newHandler_def)
      (simp add: newSessionStore_def covers_def newGenerator_def)
qed

lemma reach_ok:
  assumes "reach d n w" and "n \<le> id_limit"
  shows "server_ok n w"
  using assms
proof (induction rule: reach.induct)
  case reach_init
  show ?case by (rule init_ok)
next
  case (reach_step n w e ev)
  then show ?case by (intro exec_inv) simp_all
qed

end
