(* ===== verification/Delivery.thy ===== *)
theory Delivery
imports Reachable
begin

text \<open>
  Who receives what. A connection hears a session when one of the session's participants
  answers on it. Proved here: handling a message of one connection never touches the queue
  of another connection that does not hear the sender's session, in every handler, module
  and in leaving; and what a connection that hears the session receives from a broadcast.
\<close>

section \<open>Hearing a session\<close>

definition hears :: "world \<Rightarrow> sptr \<Rightarrow> conn \<Rightarrow> bool" where
  "hears w sp c \<longleftrightarrow>
    (\<exists>i p. s_participants (w_sess w sp) i = Some p \<and> p_Responder (w_part w p) = c)"

lemma Broadcast_unheard:
  assumes "\<And>i p. s_participants s i = Some p \<Longrightarrow> p_Responder (H p) \<noteq> c"
  shows "Broadcast en H r sender m s out c = out c"
proof -
  have "filter (\<lambda>p. p \<noteq> sender \<and> p_Responder (H p) = c) (GetParticipants r s) = []"
    using assms by (auto simp: filter_empty_conv GetParticipants_def set_map_filter)
  then show ?thesis by (simp add: Broadcast_def fold_enqueue)
qed

lemma BroadcastTo_unheard:
  assumes "\<And>i p. s_participants s i = Some p \<Longrightarrow> p_Responder (H p) \<noteq> c"
  shows "BroadcastTo en H sender m ids s out c = out c"
proof -
  have "snd (fold (\<lambda>p (seen, out).
              if p = sender then (seen, out)
              else if p_ID (H p) \<in> seen then (seen, out)
              else (insert (p_ID (H p)) seen, enqueue (p_Responder (H p)) m out))
            (GetParticipantsByIDs ids s) ({}, out)) c = out c"
  proof (rule fold_invariant_on [where I = "\<lambda>x. snd x c = out c"], goal_cases)
    case (2 p x)
    then show ?case
      using assms by (auto simp: GetParticipantsByIDs_def set_map_filter enqueue_def split: prod.split)
  qed simp
  then show ?thesis by (simp add: BroadcastTo_def)
qed

text \<open>From \<open>w\<close> to \<open>w'\<close> nothing was sent to \<open>d\<close> unless it hears \<open>sp\<close>, and no
  connection began to hear it.\<close>

definition discreet :: "sptr \<Rightarrow> conn \<Rightarrow> world \<Rightarrow> world \<Rightarrow> bool" where
  "discreet sp d w w' \<longleftrightarrow> \<not> hears w sp d \<longrightarrow> \<not> hears w' sp d \<and> w_out w' d = w_out w d"

lemma discreet_refl [simp]: "discreet sp d w w"
  by (simp add: discreet_def)

lemma discreet_trans [trans]: "discreet sp d w w' \<Longrightarrow> discreet sp d w' w'' \<Longrightarrow> discreet sp d w w''"
  by (simp add: discreet_def)

lemma discreet_respond: "d \<noteq> c \<Longrightarrow> discreet sp d w w' \<Longrightarrow> discreet sp d w (respond e c m w')"
  by (auto simp: discreet_def hears_def) (auto simp: respond_def enqueue_def)

lemma discreet_reply_error:
  "d \<noteq> c \<Longrightarrow> discreet sp d w w' \<Longrightarrow> discreet sp d w (reply_error e c rid code w')"
  by (simp add: reply_error_def discreet_respond)

lemma discreet_broadcast: "discreet sp d w w' \<Longrightarrow> discreet sp d w (broadcast e sp pp m w')"
  by (auto simp: discreet_def hears_def) (simp add: broadcast_def Broadcast_unheard)

lemma discreet_broadcast_to: "discreet sp d w w' \<Longrightarrow> discreet sp d w (broadcast_to e sp pp m ids w')"
  by (auto simp: discreet_def hears_def) (simp add: broadcast_to_def BroadcastTo_unheard)

lemma discreet_IfNotSet:
  "discreet sp d w w' \<Longrightarrow> discreet sp d w (f w') \<Longrightarrow> discreet sp d w (IfNotSet fl g f w')"
  by (simp add: IfNotSet_def)

lemma discreet_Notify:
  "discreet sp d w w' \<Longrightarrow> (\<And>ids. discreet sp d w (h ids w')) \<Longrightarrow> discreet sp d w (Notify r t h s w')"
  by (simp add: Notify_def split: option.split)

lemma discreet_upd_sess:
  assumes "discreet sp d w w'"
    and "\<And>i p. s_participants (f (w_sess w' q)) i = Some p \<Longrightarrow> s_participants (w_sess w' q) i = Some p"
  shows "discreet sp d w (upd_sess q f w')"
  using assms by (fastforce simp: discreet_def hears_def)

lemma discreet_upd_ecs: "discreet sp d w w' \<Longrightarrow> discreet sp d w (upd_ecs q f w')"
  unfolding upd_ecs_def by (rule discreet_upd_sess) simp_all

lemma discreet_upd_part:
  assumes "discreet sp d w w'" and "\<And>p. p_Responder (f p) = p_Responder p"
  shows "discreet sp d w (upd_part pp f w')"
  using assms by (auto simp: discreet_def hears_def split: if_splits)

lemmas discreet_sends = discreet_respond discreet_reply_error discreet_broadcast
  discreet_broadcast_to discreet_IfNotSet discreet_Notify discreet_upd_ecs

lemma discreet_Remove: "discreet sp d w w' \<Longrightarrow> discreet sp d w (upd_sess q (RemoveEntity en) w')"
  by (rule discreet_upd_sess) (simp_all add: RemoveEntity_def)

lemma discreet_Pose: "discreet sp d w w' \<Longrightarrow> discreet sp d w (upd_sess q (UpdateEntity i f) w')"
  by (rule discreet_upd_sess) (simp_all add: UpdateEntity_def)

lemma discreet_Module: "discreet sp d w w' \<Longrightarrow>
    discreet sp d w (upd_sess q (\<lambda>s. SetModuleState name (g s) s) w')"
  by (rule discreet_upd_sess) (simp_all add: SetModuleState_def)

lemma discreet_DataTo:
  "(\<And>req. discreet sp d w (snd (k req w))) \<Longrightarrow> discreet sp d w (snd (DataTo data k w))"
  by (simp add: DataTo_def split: sum.split)

section \<open>The handlers\<close>

lemma discreet_add:
  assumes "NewEntityID r (w_sess w sp) = (i, s1)" and "discreet sp d w w"
  shows "discreet sp d w (upd_sess sp (\<lambda>_. AddEntity en s1) w)"
  using assms by (intro discreet_upd_sess) (auto simp: NewEntityID_def AddEntity_def split: prod.splits)

lemma handle_component_discreet:
  assumes "d \<noteq> c" and "joined w c = Some (sp, pp)" and "h_currentSession (w_hand w c) = Some sp"
  shows "discreet sp d w (snd (handle_component e c cm w))"
  using assms
  by (cases cm)
    (auto simp: handle_component_def with_joined_def with_session_def Let_def discreet_sends
      HandleEntityComponentTypeAdd_def HandleEntityComponentGetName_def
      HandleEntityComponentGetID_def HandleEntityComponentAdd_def HandleEntityComponentDelete_def
      HandleEntityComponentUpdate_def HandleEntityComponentList_def
      HandleEntityComponentSubscribe_def HandleEntityComponentUnsubscribe_def
      intro!: discreet_DataTo split: prod.split option.split sum.split)

lemma discreet_send_all: "d \<noteq> c \<Longrightarrow> discreet sp d w w' \<Longrightarrow> discreet sp d w (send_all e c ms w')"
  unfolding send_all_def by (induction ms arbitrary: w') (simp_all add: discreet_respond)

lemma discreet_upd_latency: "discreet sp d w w' \<Longrightarrow> discreet sp d w (upd_latency pp s w')"
  by (simp add: discreet_def hears_def)

lemma latency_discreet:
  assumes d: "d \<noteq> c" and m: "member n w c sp pp"
  shows "discreet sp d w (snd (HandlePingResponse e c data w))"
    and "discreet sp d w (snd (HandleSignedLatency e c data' w))"
proof -
  show "discreet sp d w (snd (HandlePingResponse e c data w))"
    unfolding HandlePingResponse_def
  proof (rule discreet_DataTo, goal_cases)
    case (1 req)
    obtain failed s ms where O: "OnPing (rangeU e) (clockReading e) (marshalLatency e) (signData e)
        (pong_RequestId req) (w_latency w pp) = (failed, s, ms)" by (metis prod.exhaust)
    from latency_at_OnPing(2) [OF memberD(9) [OF m] O] d show ?case
      by (cases "ms = []")
        (simp_all add: O memberD(10) [OF m] Let_def discreet_sends discreet_send_all discreet_upd_latency)
  qed
  show "discreet sp d w (snd (HandleSignedLatency e c data' w))"
    unfolding HandleSignedLatency_def
    by (rule discreet_DataTo)
      (use d in \<open>auto simp: memberD(2,10) [OF m] discreet_sends discreet_send_all
        discreet_upd_latency split: prod.split\<close>)
qed

lemma HandleEntityAdd_discreet:
  assumes "d \<noteq> c" and "joined w c = Some (sp, pp)"
  shows "discreet sp d w (snd (HandleEntityAdd e c data w))"
  unfolding HandleEntityAdd_def
  using assms
  by (intro discreet_DataTo)
    (simp add: with_joined_def Let_def discreet_sends discreet_upd_part discreet_add split: prod.split)

lemma handle_core_discreet:
  assumes "d \<noteq> c" and m: "member n w c sp pp" and "plain msg"
  shows "discreet sp d w (snd (handle_core e c msg w))"
proof -
  note j = memberD(1,2) [OF m]
  note simps = handle_core_def with_joined_def Let_def discreet_sends discreet_upd_part
    discreet_Remove discreet_Pose assms(1) j
  show ?thesis
    using assms(3) handle_component_discreet [OF assms(1) j] HandleEntityAdd_discreet [OF assms(1) j(1)]
      latency_discreet [OF assms(1) m]
    by (cases msg)
      (auto simp: simps HandlePing_def HandleEntityDelete_def HandleEntityUpdatePose_def
        HandleCustomMessage_def plain_def intro!: discreet_DataTo split: option.split)
qed

lemma module_discreet:
  assumes "d \<noteq> c" and "m_current m = Some (sp, pp)"
  shows "discreet sp d w (snd (mod_HandleMsg e c m msg w))"
proof -
  have "discreet sp d w (upd_vikja sp f w)" "discreet sp d w (upd_odal sp g w)" "discreet sp d w (set_grid sp gr w)" for f g gr
    unfolding upd_vikja_def upd_odal_def set_grid_def by (simp_all add: discreet_Module)
  moreover from this(3) have "discreet sp d w (snd (Dagaz_HandleMsg e c m msg w))"
    using Dagaz_Msg_step [OF assms(2), of e c w msg] assms(1) by (auto simp: small_step_def discreet_sends)
  ultimately show ?thesis
    using assms
    by (auto simp: mod_HandleMsg_def Vikja_HandleMsg_def Vikja_handleParticipantJoin_def
        Vikja_handleEntityDelete_def Vikja_handleSetEntityAction_def Odal_HandleMsg_def
        Odal_handleParticipantJoin_def Odal_handleEntityDelete_def Odal_handleAssetInstanceAdd_def
        Let_def discreet_sends
        split: ModuleKind.split Msg.split sum.split option.split prod.split)
qed

lemma HandleWithModule_discreet:
  assumes "d \<noteq> c" and "m_current m = Some (sp, pp)"
  shows "discreet sp d w (snd (HandleWithModule e c m msg w))"
  using module_discreet [OF assms, of w e msg]
  by (auto simp: HandleWithModule_def split: prod.split outcome.split)

lemma run_modules_discreet:
  assumes "d \<noteq> c" and "\<forall>m \<in> set ms. m_current m = Some (sp, pp)"
  shows "discreet sp d w (snd (run_modules e c ms msg w))"
  using assms(2)
proof (induction ms arbitrary: w)
  case Nil
  then show ?case by simp
next
  case (Cons m ms)
  obtain out w1 where W: "HandleWithModule e c m msg w = (out, w1)" by fastforce
  have "discreet sp d w w1"
    using HandleWithModule_discreet [OF assms(1), of m sp pp w e msg] Cons.prems by (simp add: W)
  then show ?case
    using Cons discreet_trans by (cases out) (auto simp: W)
qed

section \<open>Leaving\<close>

lemma discreet_fold:
  assumes "\<And>x w'. x \<in> set xs \<Longrightarrow> discreet sp d w w' \<Longrightarrow> discreet sp d w (f x w')" and "discreet sp d w w'"
  shows "discreet sp d w (fold f xs w')"
  using assms(2) by (rule fold_invariant_on) (rule assms(1))

lemma mod_Disc_discreet:
  assumes "discreet sp d w w'"
  shows "discreet sp d w (mod_HandleDisconnect e m w')"
proof (cases "m_current m")
  case None
  with assms show ?thesis
    by (simp add: mod_HandleDisconnect_def Vikja_HandleDisconnect_def Odal_HandleDisconnect_def Dagaz_HandleDisconnect_def
        split: ModuleKind.split)
next
  case (Some a)
  obtain q pp where a: "a = (q, pp)" by (cases a)
  have "discreet sp d w (upd_vikja q f w'')" "discreet sp d w (upd_odal q g w'')"
    if "discreet sp d w w''" for f g w''
    using that unfolding upd_vikja_def upd_odal_def by (simp_all add: discreet_Module)
  then show ?thesis
    using assms unfolding mod_HandleDisconnect_def Vikja_HandleDisconnect_def Odal_HandleDisconnect_def Dagaz_HandleDisconnect_def
    by (auto simp: Some a intro!: discreet_fold split: ModuleKind.split)
qed

lemma leave_entity_discreet:
  "discreet sp d w w' \<Longrightarrow> discreet sp d w (leave_entity e sp pp i w')"
  by (simp add: leave_entity_def discreet_sends discreet_Remove split: option.split)

lemma discreet_store:
  assumes "discreet sp d w w'"
  shows "discreet sp d w (w'\<lparr>w_store := st, w_sess := (w_sess w')(q := Close (w_sess w' q))\<rparr>)"
  using assms by (auto simp: discreet_def hears_def Close_def split: if_splits)

text \<open>What each stage of leaving a session keeps, leaving it keeps.\<close>

lemma leaveSession_keeps:
  assumes j: "joined w c = Some (sp, pp)" and start: "P w"
    and modules: "\<And>m w'. P w' \<Longrightarrow> P (mod_HandleDisconnect e m w')"
    and ecs: "\<And>f w'. P w' \<Longrightarrow> P (upd_ecs sp f w')"
    and entity: "\<And>i w'. P w' \<Longrightarrow> P (leave_entity e sp pp i w')"
    and frame: "\<And>q fid w'. P w' \<Longrightarrow> P (upd_sess q (CancelFrame fid) w')"
    and part: "\<And>H w'. P w' \<Longrightarrow> P (upd_sess sp (RemoveParticipant H pp) w')"
    and cast: "\<And>m w'. P w' \<Longrightarrow> P (broadcast e sp pp m w')"
    and close: "\<And>st w'. P w' \<Longrightarrow> P (w'\<lparr>w_store := st, w_sess := (w_sess w')(sp := Close (w_sess w' sp))\<rparr>)"
    and hand: "\<And>f w'. P w' \<Longrightarrow> P (upd_hand c f w')"
  shows "P (leaveSession e c w)"
proof -
  define w1 where "w1 = fold (mod_HandleDisconnect e) (h_Modules (w_hand w c)) w"
  define w2 where "w2 = upd_ecs sp (UnsubscribeByParticipant (p_ID (w_part w1 pp))) w1"
  define w3 where "w3 = fold (leave_entity e sp pp) (rangeU e (EntityIDs (w_part w2 pp))) w2"
  define w4 where "w4 = (case h_stopFrameHandling (w_hand w3 c) of
      None \<Rightarrow> w3 | Some (fsp, fid) \<Rightarrow> upd_sess fsp (CancelFrame fid) w3)"
  define w5 where "w5 = upd_sess sp (RemoveParticipant (w_part w4) pp) w4"
  define w6 where "w6 = IfNotSet (FeatureFlags e) FlagDisableParticipantLeaveBroadcast
    (broadcast e sp pp (ParticipantLeaveBroadcast (Some (clockNow e)) (p_ID (w_part w1 pp)))) w5"
  define w7 where "w7 = (if ParticipantCount (w_sess w6 sp) = 0
       then (let (st, s) = SessionStore_Remove (w_sess w6 sp) (w_store w6)
             in w6\<lparr>w_store := st, w_sess := (w_sess w6)(sp := Close s)\<rparr>)
       else w6)"
  have W: "leaveSession e c w =
    upd_hand c (\<lambda>h. h\<lparr>h_currentParticipant := None, h_currentSession := None\<rparr>) w7"
    unfolding leaveSession_def j Let_def option.case prod.case w1_def [symmetric] w2_def [symmetric]
      w3_def [symmetric] w4_def [symmetric] w5_def [symmetric] w6_def [symmetric] w7_def ..
  have "P w1" unfolding w1_def using start by (rule fold_invariant_on) (rule modules)
  then have "P w2" unfolding w2_def by (rule ecs)
  then have "P w3" unfolding w3_def by (rule fold_invariant_on) (rule entity)
  then have "P w4" unfolding w4_def using frame by (auto split: option.split)
  then have "P w5" unfolding w5_def by (rule part)
  then have "P w6" unfolding w6_def using cast by (simp add: IfNotSet_def)
  then have "P w7"
    unfolding w7_def using close [of w6] by (simp add: SessionStore_Remove_fields case_prod_beta)
  then show ?thesis unfolding W by (rule hand)
qed

lemma leaveSession_discreet:
  assumes "joined w c = Some (sp, pp)"
  shows "discreet sp d w (leaveSession e c w)"
  using assms discreet_refl
proof (rule leaveSession_keeps)
  fix st w' assume "discreet sp d w w'"
  then show "discreet sp d w (w'\<lparr>w_store := st, w_sess := (w_sess w')(sp := Close (w_sess w' sp))\<rparr>)"
    by (rule discreet_store)
next
  fix f w' assume "discreet sp d w w'"
  then show "discreet sp d w (upd_hand c f w')" by (simp add: discreet_def hears_def)
qed (auto simp: discreet_sends mod_Disc_discreet leave_entity_discreet CancelFrame_def RemoveParticipant_def
    intro: discreet_upd_ecs intro!: discreet_upd_sess split: if_splits)

section \<open>Other connections\<close>

text \<open>The handler of a connection is changed by its own messages only.\<close>

lemma hand_leave_entity: "w_hand (leave_entity e sp pp i w) = w_hand w"
  using leave_entity_effect [of e sp pp i w] by auto

lemma hand_mod_Disc: "w_hand (mod_HandleDisconnect e m w) = w_hand w"
proof (cases "m_current m")
  case None
  then show ?thesis
    by (simp add: mod_HandleDisconnect_def Vikja_HandleDisconnect_def Odal_HandleDisconnect_def Dagaz_HandleDisconnect_def
        split: ModuleKind.split)
next
  case (Some a)
  obtain sp pp where "a = (sp, pp)" by (cases a)
  with Some show ?thesis using touchesD(6) [OF mod_Disc_touches [of m sp pp w e]] by simp
qed

lemma hand_loops:
  "w_hand (fold (mod_HandleDisconnect e) ms w) = w_hand w"
  "w_hand (fold (leave_entity e sp pp) is w) = w_hand w"
  by (rule fold_frame [where g = w_hand]; simp add: hand_mod_Disc hand_leave_entity)+

lemma leaveSession_hand:
  assumes "d \<noteq> c"
  shows "w_hand (leaveSession e c w) d = w_hand w d"
  using assms
  by (auto simp: leaveSession_def Let_def upd_ecs_def hand_loops case_prod_beta split: option.split)

lemma create_session_hand: "w_hand (snd (create_session e c w)) = w_hand w"
  by (simp add: create_session_def Let_def split: prod.split)

lemma join_session_hand:
  assumes "d \<noteq> c"
  shows "w_hand (snd (join_session e c req sp w)) d = w_hand w d"
  using assms touchesD(6) [OF InitModules_touches]
  by (simp add: join_session_def enter_session_def Let_def case_prod_beta)

lemma HandleParticipantJoin_hand:
  assumes "d \<noteq> c"
  shows "w_hand (snd (HandleParticipantJoin e c data w)) d = w_hand w d"
  using assms
  by (simp add: HandleParticipantJoin_def DataTo_def Let_def case_prod_beta leaveSession_hand
      create_session_hand join_session_hand split: sum.split option.split)

lemma mod_Msg_hand: "w_hand (snd (mod_HandleMsg e c m msg w)) = w_hand w"
proof (cases "m_current m")
  case None
  then show ?thesis
    by (simp add: mod_HandleMsg_def Vikja_HandleMsg_def Vikja_handleParticipantJoin_def
        Vikja_handleEntityDelete_def Vikja_handleSetEntityAction_def Odal_HandleMsg_def
        Odal_handleParticipantJoin_def Odal_handleEntityDelete_def Odal_handleAssetInstanceAdd_def
        Dagaz_Msg_not_joined split: ModuleKind.split Msg.split sum.split)
next
  case (Some a)
  obtain sp pp where "a = (sp, pp)" by (cases a)
  with Some show ?thesis using touchesD(6) [OF mod_Msg_touches [of m sp pp w e c msg]] by simp
qed

lemma run_modules_hand: "w_hand (snd (run_modules e c ms msg w)) = w_hand w"
proof (induction ms arbitrary: w)
  case Nil
  then show ?case by simp
next
  case (Cons m ms)
  have H: "w_hand (snd (HandleWithModule e c m msg w)) = w_hand w"
    using mod_Msg_hand [of e c m msg w]
    by (auto simp: HandleWithModule_def split: prod.split outcome.split)
  obtain out w1 where W: "HandleWithModule e c m msg w = (out, w1)" by fastforce
  then show ?case using Cons [of w1] H by (cases out) simp_all
qed

lemma handleMessage_hand:
  assumes i: "inv n w" and e: "env_ok e" and n: "n < id_limit" and d: "d \<noteq> c"
  shows "w_hand (snd (handleMessage e c msg w)) d = w_hand w d"
proof -
  obtain out w1 where C: "handle_core e c msg w = (out, w1)" by fastforce
  have "w_hand w1 d = w_hand w d"
  proof (cases "plain msg")
    case True
    show ?thesis
    proof (cases "joined w c")
      case None
      then have "h_currentSession (w_hand w c) = None" "h_currentParticipant (w_hand w c) = None"
        using not_joined [OF invD(1) [OF i [unfolded inv_def]], of c] by simp_all
      then show ?thesis using handle_core_idle [OF _ True, of w c e] by (auto simp: C idle_def)
    next
      case (Some a)
      then obtain sp pp where j: "joined w c = Some (sp, pp)" by (cases a) simp
      have "core_step n msg sp pp w w1"
        using handle_core_step [OF inv_member(1) [OF i [unfolded inv_def] j] e n True] by (simp add: C)
      then show ?thesis by (auto simp: core_step_def dest: local_stepD(14))
    qed
  next
    case False
    then consider (join) data where "msg = ParticipantJoinRequest data"
      | (receipt) data where "msg = ReceiptRequest data" by (cases msg) (auto simp: plain_def)
    then show ?thesis
    proof cases
      case (join data)
      then show ?thesis
        using HandleParticipantJoin_hand [OF d, of e data w] C by (simp add: handle_core_def)
    next
      case (receipt data)
      have "w_hand (snd (HandleReceipt e c data w)) = w_hand w"
        by (simp add: HandleReceipt_def DataTo_def split: sum.split)
      then show ?thesis using C by (simp add: handle_core_def receipt)
    qed
  qed
  then show ?thesis
    using run_modules_hand [of e c "h_Modules (w_hand w1 c)" msg w1]
    by (cases out) (simp_all add: handleMessage_def C)
qed

lemma run_modules_local:
  assumes "\<forall>m \<in> set ms. m_current m = Some (sp, pp)"
  shows "local_step sp pp w (snd (run_modules e c ms msg w))"
  using assms
proof (induction ms arbitrary: w)
  case Nil
  then show ?case by simp
next
  case (Cons m ms)
  obtain out w1 where W: "HandleWithModule e c m msg w = (out, w1)" by fastforce
  have "touches sp w (snd (mod_HandleMsg e c m msg w))"
    using Cons.prems by (intro mod_Msg_touches) simp
  then have "touches sp w w1"
    using W by (auto simp: HandleWithModule_def split: if_splits prod.splits outcome.splits)
  then have "local_step sp pp w w1" by (rule local_step_touches)
  then show ?case
    using Cons local_step_trans by (cases out) (auto simp: W)
qed

text \<open>A loop that no longer runs never runs again, and nothing changes its handler.\<close>

definition stuck :: "world \<Rightarrow> conn \<Rightarrow> bool" where
  "stuck w c \<longleftrightarrow> w_loop w c \<noteq> NotStarted \<and> \<not> is_running w c"

lemma HandleDisconnect_hand: "d \<noteq> c \<Longrightarrow> w_hand (HandleDisconnect e c w) d = w_hand w d"
  by (simp add: HandleDisconnect_def leaveSession_hand)

lemma HandleDisconnect_loop:
  assumes "inv n w" and "env_ok e"
  shows "w_loop (HandleDisconnect e c w) = w_loop w"
proof (cases "joined w c")
  case (Some a)
  obtain sp pp where a: "joined w c = Some (sp, pp)" using Some by (cases a) simp
  show ?thesis using inv_leave(4) [OF assms a] by (simp add: HandleDisconnect_def)
qed (simp add: HandleDisconnect_def leaveSession_def)

lemma exec_stuck:
  assumes s: "server_ok n w" and e: "env_ok e" and n: "n < id_limit" and d: "stuck w d"
  shows "w_hand (exec e ev w) d = w_hand w d" and "w_loop (exec e ev w) d = w_loop w d"
proof -
  have i: "inv n w" and dn: "d < w_nextC w" and l: "\<not> is_running w d"
    using s d by (auto simp: server_ok_def loops_ok_def stuck_def)
  have "w_hand (exec e ev w) d = w_hand w d \<and> w_loop (exec e ev w) d = w_loop w d"
  proof (cases ev)
    case (Connect cid key)
    then show ?thesis using dn by (simp add: exec_def accept_conn_def Let_def set_loop_def)
  next
    case (Message c msg)
    show ?thesis
    proof (cases "is_running w c")
      case True
      with l have c: "d \<noteq> c" by blast
      have "w_loop w c \<noteq> NotStarted" using True by (auto simp: is_running_def)
      then have "c < w_nextC w" using s by (simp add: server_ok_def loops_ok_def)
      note H = handleMessage_hand [OF i e n c, of msg] handleMessage_inv [OF i e n this, of msg]
      then show ?thesis
        using True c
        by (auto simp: Message exec_def handled_def disconnect_def set_loop_def
            split: prod.split outcome.split loop.split)
    qed (simp add: Message exec_def)
  next
    case (SyncClockTick c)
    then show ?thesis
      using l by (auto simp: exec_def handled_def SendSyncClock_def)
  next
    case (TakeDisconnect c)
    show ?thesis
    proof (cases "w_loop w c")
      case (Running k)
      then have c: "d \<noteq> c" using l by (auto simp: is_running_def)
      then show ?thesis
        using HandleDisconnect_hand [OF c, of e w] HandleDisconnect_loop [OF i e, of c] Running
        by (cases k) (simp_all add: TakeDisconnect exec_def handleDisconnect_def set_loop_def)
    qed (simp_all add: TakeDisconnect exec_def)
  qed (use l in \<open>auto simp: exec_def disconnect_def set_loop_def is_running_def split: loop.split loop.splits\<close>)
  then show "w_hand (exec e ev w) d = w_hand w d" "w_loop (exec e ev w) d = w_loop w d" by simp_all
qed

lemma run_stuck:
  assumes "server_ok n w" and "\<forall>(e, ev) \<in> set es. env_ok e" and "n + length es \<le> id_limit"
    and "stuck w d"
  shows "w_hand (run es w) d = w_hand w d" and "w_loop (run es w) d = w_loop w d"
    and "server_ok (n + length es) (run es w)"
proof -
  have "w_hand (run es w) d = w_hand w d \<and> w_loop (run es w) d = w_loop w d \<and>
    server_ok (n + length es) (run es w)"
    using assms
  proof (induction es arbitrary: n w)
    case Nil
    then show ?case by simp
  next
    case (Cons x es)
    obtain e ev where x: "x = (e, ev)" by (cases x)
    have e: "env_ok e" and n: "n < id_limit" using Cons.prems by (auto simp: x)
    note E = exec_stuck [OF Cons.prems(1) e n Cons.prems(4), of ev]
    have "stuck (exec e ev w) d" using Cons.prems(4) E by (simp add: stuck_def is_running_def)
    with Cons.IH [OF exec_inv [OF Cons.prems(1) e n, of ev]] Cons.prems E show ?case
      by (simp add: x)
  qed
  then show "w_hand (run es w) d = w_hand w d" "w_loop (run es w) d = w_loop w d"
    "server_ok (n + length es) (run es w)" by simp_all
qed

end
