(* ===== verification/Scenario.thy ===== *)
theory Scenario
imports Delivery
begin

text \<open>
  Two concrete states, reached by events that the kernel evaluates: Alice, on connection 0,
  creates a session and is alone in it; then Bob, on connection 1, joins the same session by
  its global id, and Alice adds an entity. The environment encodes everything, sets no flag
  and ranges over maps in ascending order. The states show that the hypotheses of the
  theorems can hold.
\<close>

section \<open>Events\<close>

definition env0 :: Env where
  "env0 = \<lparr>FeatureFlags = {}, encodes = (\<lambda>_. True), rangeU = sorted_list_of_set,
     rangeS = sorted_list_of_set, clockNow = 0, newUUID = ''uuid'', clockReading = (\<lambda>k. int k * 1000000),
     marshalLatency = (\<lambda>_. Some []), signData = (\<lambda>_. Some ''sig''),
     theMachine = mach0, rangeQ = sorted_list_of_set, leftGrid = fresh_grid\<rparr>"

lemma env0_ok [simp]: "env_ok env0"
  by (simp add: env_ok_def env0_def range_ok_sorted)

definition join_req :: "string \<Rightarrow> Msg" where
  "join_req sid = ParticipantJoinRequest
     (Inr \<lparr>join_RequestId = 1, join_Timestamp = None, join_SessionId = sid\<rparr>)"

definition pose0 :: PosePb where
  "pose0 = \<lparr>Px = 1, Py = 2, Pz = 3, Rx = 0, Ry = 0, Rz = 0, Rw = 1\<rparr>"

definition add_req :: "bool \<Rightarrow> Msg" where
  "add_req persist = EntityAddRequest
     (Inr \<lparr>eadd_RequestId = 2, eadd_Timestamp = None, eadd_Persist = persist, eadd_Flag = 0,
       eadd_Pose = Some pose0\<rparr>)"

section \<open>States\<close>

definition made :: "u32 \<Rightarrow> SequentialIDGenerator" where
  "made n = \<lparr>currentID = n, reusableIDs = {}\<rparr>"

definition mods0 :: "string \<rightharpoonup> ModState" where
  "mods0 = [''vikja'' \<mapsto> VikjaSt \<lparr>entityActions = Map.empty\<rparr>,
     ''odal'' \<mapsto> OdalSt \<lparr>assetInstanceIDs = made 0, assetInstances = Map.empty\<rparr>,
     ''dagaz'' \<mapsto> DagazSt fresh_grid]"

definition session0 ::
  "u32 \<Rightarrow> (u32 \<rightharpoonup> pptr) \<Rightarrow> u32 \<Rightarrow> (u32 \<rightharpoonup> Entity) \<Rightarrow> (u32 \<rightharpoonup> conn) \<Rightarrow> ModState Session" where
  "session0 n ps k es fs =
    \<lparr>s_ID = 1, s_UUID = ''uuid'', s_AppKey = ''key'', s_participantIDs = made n, s_participants = ps,
     s_entityIDs = made k, s_entities = es, s_moduleStates = mods0,
     s_frameHandlerIDs = made n, s_frameHandlers = fs,
     s_entityComponents = \<lparr>ecs_ids = made 0, nameIndex = Map.empty, idIndex = Map.empty,
       entityComponents = Map.empty, subscriptions = Map.empty\<rparr>,
     s_startFrameOnce = True, s_frameLoop = True, s_closeFrameChan = 0, s_tickPending = False,
     s_tickerStopped = False, s_closeOnce = False\<rparr>"

definition store0 :: SessionStore where
  "store0 = \<lparr>ss_DiscoveryService = Some ''ted'', ss_initOnce = True,
     ss_sessions = [''tedx1'' \<mapsto> 0], ss_ids = made 1,
     ss_sessionCount = (\<lambda>_. 0)(''key'' := 1), ss_sessionCountTotal = (\<lambda>_. 0)(''key'' := 1)\<rparr>"

definition handler0 :: "sptr \<Rightarrow> pptr \<Rightarrow> u32 \<Rightarrow> string \<Rightarrow> RealtimeHandler" where
  "handler0 sp pp fid name =
    \<lparr>h_currentSession = Some sp, h_currentParticipant = Some pp,
     h_stopFrameHandling = Some (sp, fid),
     h_Modules = [\<lparr>m_kind = VikjaModule, m_current = Some (sp, pp)\<rparr>,
                  \<lparr>m_kind = OdalModule, m_current = Some (sp, pp)\<rparr>,
                  \<lparr>m_kind = DagazModule, m_current = Some (sp, pp)\<rparr>],
     h_clientID = name, h_appKey = ''key''\<rparr>"

definition alone :: world where
  "alone =
    \<lparr>w_sess = (\<lambda>_. NewSession 0 '''')(0 := session0 1 [1 \<mapsto> 0] 0 Map.empty [1 \<mapsto> 0]),
     w_part = (\<lambda>_. \<lparr>p_ID = 0, p_Responder = 0, p_entityIDs = {}\<rparr>)
       (0 := \<lparr>p_ID = 1, p_Responder = 0, p_entityIDs = {}\<rparr>),
     w_nextS = 1, w_nextP = 1, w_nextC = 1, w_store = store0,
     w_hand = (\<lambda>_. newHandler)(0 := handler0 0 0 1 ''alice''),
     w_loop = (\<lambda>_. NotStarted)(0 := Running 0),
     w_out = (\<lambda>_. [])
       (0 := [ParticipantJoinResponse 1 ''tedx1'' ''uuid'' 1, SessionState [1] [] [],
              VikjaMessage (VikjaState []), OdalMessage (OdalState [])]),
     w_receipts = [], w_latency = (\<lambda>_. newSignedLatency)\<rparr>"

definition entity0 :: Entity where
  "entity0 = \<lparr>e_ID = 1, e_ParticipantID = 1, e_Persist = False, e_Flag = 0,
     e_pose = \<lparr>PX = 1, PY = 2, PZ = 3, RX = 0, RY = 0, RZ = 0, RW = 1\<rparr>\<rparr>"

definition lobby :: world where
  "lobby =
    \<lparr>w_sess = (\<lambda>_. NewSession 0 '''')
       (0 := session0 2 [1 \<mapsto> 0, 2 \<mapsto> 1] 1 [1 \<mapsto> entity0] [1 \<mapsto> 0, 2 \<mapsto> 1]),
     w_part = (\<lambda>_. \<lparr>p_ID = 0, p_Responder = 0, p_entityIDs = {}\<rparr>)
       (1 := \<lparr>p_ID = 2, p_Responder = 1, p_entityIDs = {}\<rparr>,
        0 := \<lparr>p_ID = 1, p_Responder = 0, p_entityIDs = {1}\<rparr>),
     w_nextS = 1, w_nextP = 2, w_nextC = 2, w_store = store0,
     w_hand = (\<lambda>_. newHandler)(0 := handler0 0 0 1 ''alice'', 1 := handler0 0 1 2 ''bob''),
     w_loop = (\<lambda>_. NotStarted)(0 := Running 0, 1 := Running 0),
     w_out = (\<lambda>_. [])
       (0 := [ParticipantJoinResponse 1 ''tedx1'' ''uuid'' 1, SessionState [1] [] [],
              VikjaMessage (VikjaState []), OdalMessage (OdalState []),
              ParticipantJoinBroadcast None 2, EntityMessage (EntityAddResponse 2 1)],
        1 := [ParticipantJoinResponse 1 ''tedx1'' ''uuid'' 2, SessionState [1, 2] [] [],
              VikjaMessage (VikjaState []), OdalMessage (OdalState []),
              EntityMessage (EntityAddBroadcast None (Entity_ToProtobuf entity0))]),
     w_receipts = [], w_latency = (\<lambda>_. newSignedLatency)\<rparr>"

section \<open>Evaluation\<close>

lemmas world_defs = accept_conn_def init_world_def set_loop_def upd_hand_def upd_sess_def upd_part_def
  HandleConnect_def newHandler_def newSessionStore_def newGenerator_def NewSession_def newEntityComponentStore_def
  newVikjaState_def newOdalState_def zeroPose_def

lemmas handler_defs = exec_def is_running_def handled_def handleMessage_def handle_core_def DataTo_def
  with_joined_def with_session_def joined_def upd_ecs_def ecs_at_def respond_def reply_error_def
  broadcast_def broadcast_to_def Broadcast_def BroadcastTo_def GetParticipants_def GetParticipantsByIDs_def
  enqueue_def IfNotSet_def HandleWithModule_def mod_HandleMsg_def mod_Name_def

lemmas join_defs = HandleParticipantJoin_def GetByGlobalID_def init_once_def create_session_def NewID_def
  New_def SessionStore_Add_def GlobalSessionID_def ServerID_def instrumentCountSession_def
  instrumentIncreaseSessionGauge_def StartDispatchFrames_def join_session_def enter_session_def
  NewParticipantID_def HandleFrame_def AddParticipant_def session_state_def ParticipantsToProtobuf_def
  Participant_ToProtobuf_def EntitiesToProtobuf_def Entities_def ListAll_def mod_Init_def Vikja_Init_def
  Odal_Init_def Dagaz_Init_def set_grid_def ModuleState_def SetModuleState_def Vikja_HandleMsg_def Odal_HandleMsg_def Dagaz_HandleMsg_def
  Vikja_handleParticipantJoin_def Odal_handleParticipantJoin_def EntityActions_def AssetInstances_def
  vikja_in_def odal_in_def Vikja_Name_def Odal_Name_def Dagaz_Name_def hex.simps hex_digit_def

lemmas entity_defs = HandleEntityAdd_def NewEntityID_def AddEntity_def Participant_AddEntity_def
  Entity_ToProtobuf_def SetPose_def Pose_of_request_def Pose_ToProtobuf_def EntityByID_def

lemmas scenario_defs = env0_def join_req_def pose0_def add_req_def made_def mods0_def session0_def
  store0_def handler0_def entity0_def

lemma two_ids [simp]: "\<not> (2 :: u32) \<le> 1" "sorted_list_of_set {1, 2 :: u32} = [1, 2]"
  "sorted_list_of_set {2, 1 :: u32} = [1, 2]"
  by (simp_all add: word_le_nat_alt)

lemma alone_step:
  "exec env0 (Message 0 (join_req '''')) (exec env0 (Connect ''alice'' ''key'') (init_world None)) = alone"
  by (simp add: alone_def scenario_defs world_defs handler_defs join_defs)

lemma lobby_step:
  "exec env0 (Message 0 (add_req False))
    (exec env0 (Message 1 (join_req ''tedx1'')) (exec env0 (Connect ''bob'' ''key'') alone)) = lobby"
  by (simp add: alone_def lobby_def scenario_defs world_defs handler_defs join_defs entity_defs)

lemma reach_alone: "reach None 2 alone"
proof -
  have "reach None (Suc 0) (exec env0 (Connect ''alice'' ''key'') (init_world None))"
    by (rule reach_step [OF reach_init env0_ok])
  then have "reach None (Suc (Suc 0)) alone"
    unfolding alone_step [symmetric] by (rule reach_step [OF _ env0_ok])
  then show ?thesis by (simp add: numeral_2_eq_2)
qed

lemma reach_lobby: "reach None 5 lobby"
proof -
  have "reach None (Suc 2) (exec env0 (Connect ''bob'' ''key'') alone)"
    by (rule reach_step [OF reach_alone env0_ok])
  then have "reach None (Suc (Suc 2)) (exec env0 (Message 1 (join_req ''tedx1'')) (exec env0 (Connect ''bob'' ''key'') alone))"
    by (rule reach_step [OF _ env0_ok])
  then have "reach None (Suc (Suc (Suc 2))) lobby"
    unfolding lobby_step [symmetric] by (rule reach_step [OF _ env0_ok])
  then show ?thesis by simp
qed

lemma lobby_limit: "(5 :: nat) \<le> id_limit" "(5 :: nat) < id_limit"
  by (simp_all add: id_limit_def)

lemma lobby_joined [simp]: "joined lobby 0 = Some (0, 0)" "joined lobby 1 = Some (0, 1)"
  by (simp_all add: lobby_def joined_def handler0_def)

lemma alone_joined [simp]: "joined alone 0 = Some (0, 0)"
  by (simp add: alone_def joined_def handler0_def)

section \<open>An entity with an action and an asset\<close>

text \<open>Alice sets an action of her entity, then adds an asset to it.\<close>

definition act_msg :: "instant \<Rightarrow> Msg" where
  "act_msg t = VikjaEntityActionRequest (Inr \<lparr>act_RequestId = 7, act_Timestamp = None,
     act_EntityAction = Some \<lparr>ea_EntityId = 1, ea_Name = ''wave'', ea_Timestamp = Some t, ea_Data = []\<rparr>\<rparr>)"

definition asset_msg :: Msg where
  "asset_msg = OdalAssetInstanceAddRequest (Inr \<lparr>asset_RequestId = 8, asset_Timestamp = None,
     asset_AssetId = ''chair'', asset_EntityId = 1\<rparr>)"

definition wave :: EntityAction where
  "wave = \<lparr>ea_EntityId = 1, ea_Name = ''wave'', ea_Timestamp = Some 5, ea_Data = []\<rparr>"

definition chair :: AssetInstance where
  "chair = \<lparr>ai_Id = 1, ai_AssetId = ''chair'', ai_ParticipantId = 1, ai_EntityId = 1\<rparr>"

definition actions1 :: ModState where
  "actions1 = VikjaSt \<lparr>entityActions = [1 \<mapsto> [''wave'' \<mapsto> wave]]\<rparr>"

definition assets1 :: ModState where
  "assets1 = OdalSt \<lparr>assetInstanceIDs = made 1, assetInstances = [1 \<mapsto> chair]\<rparr>"

definition acted :: world where
  "acted = lobby\<lparr>w_sess := (w_sess lobby)
       (0 := (w_sess lobby 0)\<lparr>s_moduleStates := mods0(''vikja'' \<mapsto> actions1)\<rparr>),
     w_out := (w_out lobby)
       (0 := w_out lobby 0 @ [VikjaMessage (VikjaEntityActionResponse 7)],
        1 := w_out lobby 1 @ [VikjaMessage (VikjaEntityActionBroadcast None wave)])\<rparr>"

definition furnished :: world where
  "furnished = acted\<lparr>w_sess := (w_sess acted)
       (0 := (w_sess acted 0)\<lparr>s_moduleStates := mods0(''vikja'' \<mapsto> actions1, ''odal'' \<mapsto> assets1)\<rparr>),
     w_out := (w_out acted)
       (0 := w_out acted 0 @ [OdalMessage (OdalAssetInstanceAddResponse 8 1)],
        1 := w_out acted 1 @ [OdalMessage (OdalAssetInstanceAddBroadcast None chair)])\<rparr>"

lemmas module_defs = act_msg_def asset_msg_def Vikja_handleSetEntityAction_def upd_vikja_def
  EntityAction_def SetEntityAction_def AsTime_def Odal_handleAssetInstanceAdd_def upd_odal_def
  NewAssetInstanceID_def SetAssetInstance_def AssetInstance_def wave_def chair_def actions1_def
  assets1_def Let_def

lemma acted_step: "exec env0 (Message 0 (act_msg 5)) lobby = acted"
  by (simp add: acted_def lobby_def scenario_defs world_defs handler_defs join_defs entity_defs module_defs)

lemma furnished_step: "exec env0 (Message 0 asset_msg) acted = furnished"
  by (simp add: furnished_def acted_def lobby_def scenario_defs world_defs handler_defs join_defs
      entity_defs module_defs)

lemma reach_furnished: "reach None 7 furnished"
proof -
  have "reach None (Suc 5) acted"
    unfolding acted_step [symmetric] by (rule reach_step [OF reach_lobby env0_ok])
  then have "reach None (Suc (Suc 5)) furnished"
    unfolding furnished_step [symmetric] by (rule reach_step [OF _ env0_ok])
  then show ?thesis by simp
qed

lemma furnished_joined [simp]: "joined furnished 0 = Some (0, 0)" "joined furnished 1 = Some (0, 1)"
  by (simp_all add: furnished_def acted_def lobby_def joined_def handler0_def)

lemma furnished_facts:
  "find_session (w_store furnished) ''tedx1'' = Some 0"
  "AssetInstance 1 (odal_in (w_sess furnished 0)) = Some chair"
  "EntityAction 1 ''wave'' (vikja_in (w_sess furnished 0)) = Some wave"
  "EntityByID 1 (w_sess furnished 0) = Some entity0"
  by (simp_all add: furnished_def acted_def lobby_def find_session_def GetByGlobalID_def Let_def
      store0_def init_once_def AssetInstance_def odal_in_def vikja_in_def ModuleState_def
      Odal_Name_def Vikja_Name_def EntityAction_def actions1_def assets1_def EntityByID_def session0_def)

section \<open>A component type with a subscriber\<close>

text \<open>Alice names a type of components, Bob subscribes to it, Alice adds a component.\<close>

definition type_msg :: Msg where
  "type_msg = ComponentMessage (ComponentTypeAddRequest (Inr \<lparr>tname_RequestId = 3, tname_Name = ''tag''\<rparr>))"

definition subscribe_msg :: Msg where
  "subscribe_msg = ComponentMessage (ComponentSubscribeRequest (Inr \<lparr>tid_RequestId = 4, tid_TypeId = 1\<rparr>))"

definition tag_req :: "bytes \<Rightarrow> ComponentReq" where
  "tag_req d = \<lparr>comp_RequestId = 5, comp_Timestamp = None, comp_TypeId = 1, comp_EntityId = 1, comp_Data = d\<rparr>"

definition tag :: EntityComponent where
  "tag = \<lparr>ec_TypeId = 1, ec_EntityId = 1, ec_Data = [65]\<rparr>"

definition tags :: "(u32 \<rightharpoonup> (u32 \<rightharpoonup> EntityComponent)) \<Rightarrow> (u32 \<rightharpoonup> u32 set) \<Rightarrow> EntityComponentStore" where
  "tags m S = \<lparr>ecs_ids = made 1, nameIndex = [1 \<mapsto> ''tag''], idIndex = [''tag'' \<mapsto> 1],
     entityComponents = m, subscriptions = S\<rparr>"

definition watched :: world where
  "watched = lobby\<lparr>w_sess := (w_sess lobby)
       (0 := (w_sess lobby 0)\<lparr>s_entityComponents := tags Map.empty [1 \<mapsto> {2}]\<rparr>),
     w_out := (w_out lobby)
       (0 := w_out lobby 0 @ [ComponentAnswer (ComponentTypeAddResponse 3 1)],
        1 := w_out lobby 1 @ [ComponentAnswer (ComponentSubscribeResponse 4)])\<rparr>"

definition tagged :: world where
  "tagged = watched\<lparr>w_sess := (w_sess watched)
       (0 := (w_sess watched 0)\<lparr>s_entityComponents := tags [1 \<mapsto> [1 \<mapsto> tag]] [1 \<mapsto> {2}]\<rparr>),
     w_out := (w_out watched)
       (0 := w_out watched 0 @ [ComponentAnswer (ComponentAddResponse 5)],
        1 := w_out watched 1 @ [ComponentAnswer (ComponentAddBroadcast None tag)])\<rparr>"

lemmas component_defs = type_msg_def subscribe_msg_def tag_req_def tag_def tags_def handle_component_def
  HandleEntityComponentTypeAdd_def HandleEntityComponentSubscribe_def HandleEntityComponentAdd_def
  AddType_def Subscribe_def ECAdd_def Notify_def Let_def

lemma watched_step:
  "exec env0 (Message 1 subscribe_msg) (exec env0 (Message 0 type_msg) lobby) = watched"
  by (simp add: watched_def lobby_def scenario_defs world_defs handler_defs join_defs entity_defs
      component_defs)

lemma tagged_step:
  "exec env0 (Message 0 (ComponentMessage (ComponentAddRequest (Inr (tag_req [65]))))) watched = tagged"
  by (simp add: tagged_def watched_def lobby_def scenario_defs world_defs handler_defs join_defs
      entity_defs component_defs)

lemma reach_tagged: "reach None 8 tagged"
proof -
  have "reach None (Suc 5) (exec env0 (Message 0 type_msg) lobby)"
    by (rule reach_step [OF reach_lobby env0_ok])
  then have "reach None (Suc (Suc 5)) watched"
    unfolding watched_step [symmetric] by (rule reach_step [OF _ env0_ok])
  then have "reach None (Suc (Suc (Suc 5))) tagged"
    unfolding tagged_step [symmetric] by (rule reach_step [OF _ env0_ok])
  then show ?thesis by simp
qed

lemma tagged_joined [simp]: "joined tagged 0 = Some (0, 0)" "joined tagged 1 = Some (0, 1)"
  by (simp_all add: tagged_def watched_def lobby_def joined_def handler0_def)

end
