(* ===== verification/Joining.thy ===== *)
theory Joining
imports Scenario
begin

text \<open>
  \<^verbatim>\<open>HandleParticipantJoin\<close> and \<^verbatim>\<open>leaveSession\<close> on every branch, in any reachable
  state: joining by id, creating a session, the two refusals, the answer the client gets, and
  the end of a session with its last participant. The effects on the state come from
  Membership and Invariants; new here is what enters the queue of the joining connection,
  which only grows.
\<close>

section \<open>Queues only grow\<close>

definition grows :: "conn \<Rightarrow> world \<Rightarrow> world \<Rightarrow> bool" where
  "grows c w w' \<longleftrightarrow> (\<exists>l. w_out w' c = w_out w c @ l)"

lemma grows_refl [simp]: "grows c w w"
  by (simp add: grows_def)

lemma grows_same: "w_out w' = w_out w \<Longrightarrow> grows c w w'"
  by (simp add: grows_def)

lemma grows_trans [trans]: "grows c w w' \<Longrightarrow> grows c w' w'' \<Longrightarrow> grows c w w''"
  by (auto simp: grows_def)

lemma grows_enqueue: "\<exists>l. enqueue d m out c = out c @ l"
  by (simp add: enqueue_def)

lemma grows_respond: "grows c w (respond e d m w)"
  using grows_enqueue [of d m "w_out w" c] by (auto simp: grows_def respond_def)

lemma grows_broadcast: "grows c w (broadcast e sp pp m w)"
proof -
  have "\<exists>l. fold (\<lambda>p out. if p = pp then out else enqueue (p_Responder (w_part w p)) m out) ps out c = out c @ l"
    for ps out
  proof (induction ps arbitrary: out)
    case (Cons p ps)
    let ?out = "if p = pp then out else enqueue (p_Responder (w_part w p)) m out"
    have "\<exists>l1. ?out c = out c @ l1"
      using grows_enqueue [of "p_Responder (w_part w p)" m out c] by (cases "p = pp") simp_all
    then obtain l1 where "?out c = out c @ l1" ..
    then show ?case using Cons [of ?out] by auto
  qed simp
  then show ?thesis by (auto simp: grows_def broadcast_def Broadcast_def)
qed

lemma grows_IfNotSet: "(\<And>w. grows c w (f w)) \<Longrightarrow> grows c w (IfNotSet fl g f w)"
  by (simp add: IfNotSet_def)

lemma out_InitModules: "w_out (snd (snd (InitModules sp pp ms w))) = w_out w"
proof (induction ms arbitrary: w)
  case (Cons m ms)
  obtain m' out w1 where I: "mod_Init sp pp m w = (m', out, w1)" by (metis prod.exhaust)
  have "w_out (snd (snd (mod_Init sp pp m w))) = w_out w"
    by (simp add: mod_Init_def Vikja_Init_def Odal_Init_def Dagaz_Init_def Let_def
        split: ModuleKind.split option.split ModState.split)
  then show ?case using Cons [of w1] by (auto simp: I split: prod.split)
qed simp

lemma enter_session_world:
  "snd (enter_session e c sp w) = w\<lparr>w_part := w_part (snd (enter_session e c sp w)), w_nextP := Suc (w_nextP w),
     w_latency := (w_latency w)(w_nextP w := newSignedLatency),
     w_sess := w_sess (snd (enter_session e c sp w)), w_hand := w_hand (snd (enter_session e c sp w))\<rparr>"
  by (simp add: enter_session_def Let_def upd_hand_def split: prod.split)

text \<open>The first message to a connection that joins names the session and the participant as
  the state afterwards has them.\<close>

lemma join_session_told:
  assumes "\<And>m. encodes e m" and "snd (join_session e c req sp w) = w'"
  shows "\<exists>l. w_out w' c = w_out w c @
      ParticipantJoinResponse (join_RequestId req) (GlobalSessionID (w_store w') (s_ID (w_sess w' sp)))
        (s_UUID (w_sess w' sp)) (p_ID (w_part w' (w_nextP w))) # l"
    and "joined w' c = Some (sp, w_nextP w)"
proof -
  let ?pp = "w_nextP w"
  define w1 where "w1 = snd (enter_session e c sp w)"
  have E: "enter_session e c sp w = (?pp, w1)"
    by (simp add: w1_def enter_session_def Let_def split: prod.split)
  have w1: "w_out w1 = w_out w" "w_store w1 = w_store w"
    using arg_cong [OF enter_session_world [of e c sp w], of w_out]
      arg_cong [OF enter_session_world [of e c sp w], of w_store] by (simp_all add: w1_def)
  let ?resp = "ParticipantJoinResponse (join_RequestId req) (GlobalSessionID (w_store w1) (s_ID (w_sess w1 sp)))
      (s_UUID (w_sess w1 sp)) (p_ID (w_part w1 ?pp))"
  define w3 where "w3 = upd_hand c (\<lambda>h. h\<lparr>h_currentSession := Some sp, h_currentParticipant := Some ?pp\<rparr>)
    (respond e c ?resp w1)"
  define w4 where "w4 = IfNotSet (FeatureFlags e) FlagDisableSessionState (\<lambda>w. respond e c (session_state e sp w) w) w3"
  define w5 where "w5 = IfNotSet (FeatureFlags e) FlagDisableParticipantJoinBroadcast
      (broadcast e sp ?pp (ParticipantJoinBroadcast (join_Timestamp req) (p_ID (w_part w1 ?pp)))) w4"
  obtain ms out w6 where I: "InitModules sp ?pp (h_Modules (w_hand w5 c)) w5 = (ms, out, w6)"
    by (metis prod.exhaust)
  have W: "w' = upd_hand c (\<lambda>h. h\<lparr>h_Modules := ms\<rparr>) w6"
    unfolding assms(2) [symmetric] join_session_def E Let_def prod.case w3_def [symmetric] w4_def [symmetric]
      w5_def [symmetric] I by simp
  obtain q4 where q4: "w4 = w3\<lparr>w_out := q4\<rparr>"
    unfolding w4_def using world_eqI_out [OF quiet_IfNotSet [OF quiet_comp_respond]] by blast
  obtain q5 where q5: "w5 = w4\<lparr>w_out := q5\<rparr>"
    unfolding w5_def using world_eqI_out [OF quiet_IfNotSet [OF quiet_broadcast]] by blast
  have w5: "w_sess w5 = w_sess w1" "w_part w5 = w_part w1" "w_store w5 = w_store w1" "w_hand w5 = w_hand w3"
    by (simp_all add: q5 q4) (simp_all add: w3_def)
  have T: "touches sp w5 w6" using InitModules_touches [of sp w5 ?pp "h_Modules (w_hand w5 c)"] by (simp add: I)
  obtain mst q where w6: "w6 = w5\<lparr>w_sess := (w_sess w5)(sp := (w_sess w5 sp)\<lparr>s_moduleStates := mst\<rparr>), w_out := q\<rparr>"
    using T unfolding touches_def by blast
  have "grows c w3 w4" unfolding w4_def by (rule grows_IfNotSet) (rule grows_respond)
  moreover have "grows c w4 w5" unfolding w5_def by (rule grows_IfNotSet) (rule grows_broadcast)
  moreover have "w_out w6 = w_out w5" using out_InitModules [of sp ?pp "h_Modules (w_hand w5 c)" w5] by (simp add: I)
  moreover have "w_out w3 c = w_out w c @ [?resp]"
    using assms(1) by (simp add: w3_def respond_def enqueue_def w1)
  moreover have "GlobalSessionID (w_store w') = GlobalSessionID (w_store w1)" "s_ID (w_sess w' sp) = s_ID (w_sess w1 sp)"
    "s_UUID (w_sess w' sp) = s_UUID (w_sess w1 sp)" "w_part w' = w_part w1"
    by (simp_all add: W w6 w5)
  ultimately show "\<exists>l. w_out w' c = w_out w c @
      ParticipantJoinResponse (join_RequestId req) (GlobalSessionID (w_store w') (s_ID (w_sess w' sp)))
        (s_UUID (w_sess w' sp)) (p_ID (w_part w' ?pp)) # l"
    by (auto simp: W grows_def)
  have "h_currentSession (w_hand w5 c) = Some sp" "h_currentParticipant (w_hand w5 c) = Some ?pp"
    unfolding w5(4) by (simp_all add: w3_def)
  then show "joined w' c = Some (sp, ?pp)" by (simp add: joined_def W w6)
qed

section \<open>Joining\<close>

text \<open>The branches of \<^verbatim>\<open>HandleParticipantJoin\<close> for a connection without a session.\<close>

lemma join_fresh:
  assumes "conns_ok w" and "joined w c = None"
  shows "HandleParticipantJoin e c (Inr req) w =
    (let w2 = w\<lparr>w_store := snd (GetByGlobalID (join_SessionId req) (w_store w))\<rparr>
     in case find_session (w_store w) (join_SessionId req) of
          Some sp \<Rightarrow> join_session e c req sp w2
        | None \<Rightarrow>
            if join_SessionId req \<noteq> ''''
            then (Nil_error, reply_error e c (join_RequestId req) NOT_FOUND w2)
            else (let (sp, w3) = create_session e c w2 in join_session e c req sp w3))"
  using not_joined [OF assms(1), of c] assms(2)
  by (simp add: HandleParticipantJoin_def DataTo_def find_session_def GetByGlobalID_def Let_def)

lemma joined_by_id:
  assumes i: "inv n w" and n: "n < id_limit" and e: "env_ok e" and j: "joined w c = None"
    and F: "find_session (w_store w) (join_SessionId req) = Some sp"
  obtains pid fid s H q st ms where
    "HandleParticipantJoin e c (Inr req) w = (Nil_error,
      w\<lparr>w_store := st, w_part := H, w_nextP := Suc (w_nextP w),
        w_latency := (w_latency w)(w_nextP w := newSignedLatency), w_sess := (w_sess w)(sp := s),
        w_hand := (w_hand w)(c := (w_hand w c)\<lparr>h_stopFrameHandling := Some (sp, fid),
          h_currentSession := Some sp, h_currentParticipant := Some (w_nextP w), h_Modules := ms\<rparr>),
        w_out := q\<rparr>)"
    and "find_session st = find_session (w_store w)"
    and "H = (w_part w)(w_nextP w := \<lparr>p_ID = pid, p_Responder = c, p_entityIDs = {}\<rparr>)"
    and "session_ok (Suc n) H s" and "s_participants (w_sess w sp) pid = None"
    and "s_participants s = (s_participants (w_sess w sp))(pid \<mapsto> w_nextP w)"
    and "s_entities s = s_entities (w_sess w sp)"
proof -
  let ?w2 = "w\<lparr>w_store := snd (GetByGlobalID (join_SessionId req) (w_store w))\<rparr>"
  have i2: "inv n ?w2" by (rule inv_lookup [OF i])
  note I = invD [OF i [unfolded inv_def]]
  have F2: "find_session (w_store ?w2) = find_session (w_store w)"
    using find_session_init by (simp add: GetByGlobalID_def Let_def)
  note S = store_okD [OF I(3) F]
  have fresh: "p < w_nextP w" if q: "s_participants (w_sess w sp) pid = Some p" for pid p
    using conns_okD(3) [OF I(1) members_okD(1) [OF I(2) S(6) q]] by (auto elim: conn_okE)
  have B: "HandleParticipantJoin e c (Inr req) w = join_session e c req sp ?w2"
    by (simp add: join_fresh [OF I(1) j] F Let_def)
  have ok: "session_ok n (w_part ?w2) (w_sess ?w2 sp)" using S(3) by simp
  have fresh2: "p < w_nextP ?w2" if "s_participants (w_sess ?w2 sp) pid = Some p" for pid p
    using fresh that by simp
  show ?thesis
  proof (rule join_session_effect [OF e n ok fresh2, where c = c and req = req])
    fix pid fid s H q
    let ?ms = "map (\<lambda>m. m\<lparr>m_current := Some (sp, w_nextP ?w2)\<rparr>) (h_Modules (w_hand ?w2 c))"
    assume "join_session e c req sp ?w2 = (Nil_error, ?w2\<lparr>w_part := H, w_nextP := Suc (w_nextP ?w2),
        w_latency := (w_latency ?w2)(w_nextP ?w2 := newSignedLatency), w_sess := (w_sess ?w2)(sp := s),
        w_hand := (w_hand ?w2)(c := (w_hand ?w2 c)\<lparr>h_stopFrameHandling := Some (sp, fid),
          h_currentSession := Some sp, h_currentParticipant := Some (w_nextP ?w2), h_Modules := ?ms\<rparr>),
        w_out := q\<rparr>)"
      and "H = (w_part ?w2)(w_nextP ?w2 := \<lparr>p_ID = pid, p_Responder = c, p_entityIDs = {}\<rparr>)"
      and "session_ok (Suc n) H s" "s_participants (w_sess ?w2 sp) pid = None"
      "s_participants s = (s_participants (w_sess ?w2 sp))(pid \<mapsto> w_nextP ?w2)"
      "s_entities s = s_entities (w_sess ?w2 sp)"
    then show ?thesis
      using that [where st = "w_store ?w2" and H = H and s = s and fid = fid and ms = ?ms and q = q and pid = pid]
        F2 by (simp add: B)
  qed
qed



section \<open>A new connection\<close>

text \<open>Carol connects; she has not joined yet.\<close>

definition guest :: world where
  "guest = exec env0 (Connect ''carol'' ''key'') lobby"

definition carol_req :: "string \<Rightarrow> JoinReq" where
  "carol_req sid = \<lparr>join_RequestId = 1, join_Timestamp = None, join_SessionId = sid\<rparr>"

lemma guest_facts:
  "reach None 6 guest" "joined guest 2 = None" "find_session (w_store guest) ''tedx1'' = Some 0"
  "w_sess guest = w_sess lobby" "w_part guest = w_part lobby" "w_nextP guest = 2" "w_out guest = w_out lobby"
proof -
  have "reach None (Suc 5) guest" unfolding guest_def by (rule reach_step [OF reach_lobby env0_ok])
  then show "reach None 6 guest" by simp
  show "joined guest 2 = None" "find_session (w_store guest) ''tedx1'' = Some 0"
    "w_sess guest = w_sess lobby" "w_part guest = w_part lobby" "w_nextP guest = 2" "w_out guest = w_out lobby"
    by (simp_all add: guest_def exec_def accept_conn_def set_loop_def upd_hand_def Let_def lobby_def joined_def
        HandleConnect_def newHandler_def find_session_def GetByGlobalID_def store0_def init_once_def)
qed

lemma guest_limit: "(6 :: nat) < id_limit"
  by (simp add: id_limit_def)


lemma GlobalSessionID_not_empty [simp]: "GlobalSessionID s i \<noteq> ''''" "'''' \<noteq> GlobalSessionID s i"
  using GlobalSessionID_nonempty [of s i] by simp_all

lemma create_session_found:
  assumes i: "pre_inv {} n n w" and e: "env_ok e" and n: "n < id_limit"
    and C: "create_session e c w = (sp, w')"
  obtains gid i where "sp = w_nextS w" and "find_session (w_store w) gid = None"
    and "find_session (w_store w') = (find_session (w_store w))(gid \<mapsto> sp)"
    and "w_part w' = w_part w" and "w_nextP w' = w_nextP w" and "w_hand w' = w_hand w"
    and "w_sess w' = (w_sess w)(sp := StartDispatchFrames
      ((NewSession i (newUUID e))\<lparr>s_AppKey := h_appKey (w_hand w c)\<rparr>))"
proof -
  note I = invD [OF i]
  let ?i = "fst (NewID (rangeU e) (w_store w))" and ?st = "snd (NewID (rangeU e) (w_store w))"
  let ?s = "(NewSession ?i (newUUID e) :: ModState Session)\<lparr>s_AppKey := h_appKey (w_hand w c)\<rparr>"
  have sp: "sp = w_nextS w" and w': "w' = w\<lparr>w_store := SessionStore_Add sp ?s ?st, w_nextS := Suc sp,
      w_sess := (w_sess w)(sp := StartDispatchFrames ?s)\<rparr>"
    using C by (auto simp: create_session_def case_prod_beta Let_def)
  have f: "s_ID ?s = ?i" by (simp add: NewSession_def)
  have "GlobalSessionID ?st = GlobalSessionID (w_store w)"
    by (rule GlobalSessionID_cong) (simp add: NewID_def ServerID_def split: prod.split)
  then have F: "find_session (w_store w') = (find_session (w_store w))(GlobalSessionID (w_store w) ?i \<mapsto> sp)"
    by (simp add: fun_eq_iff w' find_session_Add find_session_NewID f)
  obtain g where N: "New (rangeU e) (ss_ids (w_store w)) = (?i, g)"
    by (cases "New (rangeU e) (ss_ids (w_store w))") (simp add: NewID_def)
  have "?i \<notin> s_ID ` w_sess w ` stored w"
    using covers_alloc [OF env_okD(1) [OF e] store_ok_ids(1) [OF I(3)] n N] by simp
  moreover have "?i \<in> s_ID ` w_sess w ` stored w"
    if f: "find_session (w_store w) (GlobalSessionID (w_store w) ?i) = Some p" for p
  proof -
    have "?i = s_ID (w_sess w p)" using store_okD(1) [OF I(3) f] by (simp add: GlobalSessionID_inject)
    with store_okD(6) [OF I(3) f] show ?thesis by (intro image_eqI) auto
  qed
  ultimately have "find_session (w_store w) (GlobalSessionID (w_store w) ?i) = None"
    by (cases "find_session (w_store w) (GlobalSessionID (w_store w) ?i)") simp_all
  with F show ?thesis by (intro that [of "GlobalSessionID (w_store w) ?i" ?i]) (simp_all add: sp w')
qed

text \<open>C9: Joining with an empty session id creates a session: it is stored under a global id
  that no stored session has, holds the new participant and no entity, and carries the
  app key of the connection. No other session changes.\<close>

theorem join_creates_session:
  assumes "reach d n w" and "n < id_limit" and "env_ok e" and "joined w c = None"
    and "join_SessionId req = ''''"
  shows "fst (HandleParticipantJoin e c (Inr req) w) = Nil_error \<and>
    joined (snd (HandleParticipantJoin e c (Inr req) w)) c = Some (w_nextS w, w_nextP w) \<and>
    (\<exists>gid. find_session (w_store w) gid = None \<and>
      find_session (w_store (snd (HandleParticipantJoin e c (Inr req) w))) =
        (find_session (w_store w))(gid \<mapsto> w_nextS w)) \<and>
    (\<exists>pid. s_participants (w_sess (snd (HandleParticipantJoin e c (Inr req) w)) (w_nextS w)) =
        [pid \<mapsto> w_nextP w]) \<and>
    s_entities (w_sess (snd (HandleParticipantJoin e c (Inr req) w)) (w_nextS w)) = Map.empty \<and>
    s_AppKey (w_sess (snd (HandleParticipantJoin e c (Inr req) w)) (w_nextS w)) = h_appKey (w_hand w c) \<and>
    (\<forall>q. q \<noteq> w_nextS w \<longrightarrow> w_sess (snd (HandleParticipantJoin e c (Inr req) w)) q = w_sess w q)"
proof -
  have i: "inv n w" using reach_ok [OF assms(1)] assms(2) by (simp add: server_ok_def)
  note I = invD [OF i [unfolded inv_def]]
  let ?w2 = "w\<lparr>w_store := snd (GetByGlobalID (join_SessionId req) (w_store w))\<rparr>"
  have i2: "pre_inv {} n n ?w2" using inv_lookup [OF i] by (simp add: inv_def)
  have F2: "find_session (w_store ?w2) = find_session (w_store w)"
    using find_session_init by (simp add: GetByGlobalID_def Let_def)
  have none: "find_session (w_store w) '''' = None"
    using store_okD(1) [OF I(3), of "''''"] by (cases "find_session (w_store w) ''''") auto
  obtain sp w3 where C: "create_session e c ?w2 = (sp, w3)" by fastforce
  obtain gid u where N: "sp = w_nextS ?w2" "find_session (w_store ?w2) gid = None"
    "find_session (w_store w3) = (find_session (w_store ?w2))(gid \<mapsto> sp)"
    "w_part w3 = w_part ?w2" "w_nextP w3 = w_nextP ?w2" "w_hand w3 = w_hand ?w2"
    "w_sess w3 = (w_sess ?w2)(sp := StartDispatchFrames
      ((NewSession u (newUUID e))\<lparr>s_AppKey := h_appKey (w_hand ?w2 c)\<rparr>))"
    by (rule create_session_found [OF i2 assms(3,2) C])
  have f: "s_participants (w_sess w3 sp) = Map.empty" "s_entities (w_sess w3 sp) = Map.empty"
    "s_AppKey (w_sess w3 sp) = h_appKey (w_hand w c)"
    by (simp_all add: N(7) StartDispatchFrames_def NewSession_def)
  note K = inv_create [OF i2 assms(3,2) C]
  have ok: "session_ok n (w_part w3) (w_sess w3 sp)" by (rule store_ok_session(1) [OF invD(3) [OF K(1)] K(2)])
  have fresh: "p < w_nextP w3" if "s_participants (w_sess w3 sp) pid = Some p" for pid p
    using that by (simp add: f)
  have B: "HandleParticipantJoin e c (Inr req) w = join_session e c req sp w3"
    using C assms(5) by (simp add: join_fresh [OF I(1) assms(4)] none Let_def)
  have other: "w_sess w3 q = w_sess w q" if "q \<noteq> sp" for q
    using N(7) that by simp
  have sp: "w_nextS w = sp" using N(1) by simp
  have gid: "\<exists>gid. find_session (w_store w) gid = None \<and>
      find_session (w_store w3) = (find_session (w_store w))(gid \<mapsto> sp)"
    using N(2,3) F2 by auto
  show ?thesis
    by (rule join_session_effect [OF assms(3,2) ok fresh, where c = c and req = req])
      (use gid in \<open>simp_all add: B f sp N(5,6) other joined_def\<close>, blast)
qed

lemma newcomer: "reach None 1 (exec env0 (Connect ''alice'' ''key'') (init_world None))"
  "joined (exec env0 (Connect ''alice'' ''key'') (init_world None)) 0 = None"
proof -
  show "reach None 1 (exec env0 (Connect ''alice'' ''key'') (init_world None))"
    using reach_step [OF reach_init [of None] env0_ok, of "Connect ''alice'' ''key''"] by simp
  show "joined (exec env0 (Connect ''alice'' ''key'') (init_world None)) 0 = None"
    by (simp add: exec_def joined_def world_defs Let_def)
qed

lemma join_creates_session_witness:
  "joined (snd (HandleParticipantJoin env0 0 (Inr (carol_req ''''))
     (exec env0 (Connect ''alice'' ''key'') (init_world None)))) 0 = Some (0, 0)"
proof -
  have "w_nextS (exec env0 (Connect ''alice'' ''key'') (init_world None)) = 0"
    "w_nextP (exec env0 (Connect ''alice'' ''key'') (init_world None)) = 0"
    "(1 :: nat) < id_limit" "join_SessionId (carol_req '''') = ''''"
    by (simp_all add: exec_def world_defs Let_def id_limit_def carol_req_def)
  then show ?thesis
    using join_creates_session [OF newcomer(1) _ env0_ok newcomer(2), of "carol_req ''''"] by metis
qed

text \<open>The answer to a join tells the truth: unless it is refused, a join by id or with an
  empty id is first answered with a global session id under which the store finds the
  session the connection is in now, the UUID of that session, and the id under which the
  session lists the connection's participant.\<close>

theorem join_is_answered:
  assumes "reach d n w" and "n < id_limit" and "env_ok e" and "\<And>m. encodes e m"
    and "joined w c = None" and "is_running w c"
    and "join_SessionId req = '''' \<or> find_session (w_store w) (join_SessionId req) \<noteq> None"
    and "snd (HandleParticipantJoin e c (Inr req) w) = w'"
  shows "\<exists>l gid sp pid. joined w' c = Some (sp, w_nextP w) \<and> find_session (w_store w') gid = Some sp \<and>
    s_participants (w_sess w' sp) pid = Some (w_nextP w) \<and>
    w_out w' c = w_out w c @ ParticipantJoinResponse (join_RequestId req) gid (s_UUID (w_sess w' sp)) pid # l"
proof -
  have s: "server_ok n w" using reach_ok [OF assms(1)] assms(2) by simp
  then have i: "inv n w" and c: "c < w_nextC w"
    using assms(6) by (auto simp: server_ok_def loops_ok_def is_running_def split: loop.splits)
  note I = invD [OF i [unfolded inv_def]]
  let ?w2 = "w\<lparr>w_store := snd (GetByGlobalID (join_SessionId req) (w_store w))\<rparr>"
  have none: "find_session (w_store w) '''' = None"
    using store_okD(1) [OF I(3), of "''''"] by (cases "find_session (w_store w) ''''") auto
  have "\<exists>sp w3. HandleParticipantJoin e c (Inr req) w = join_session e c req sp w3 \<and>
      w_nextP w3 = w_nextP w \<and> w_out w3 = w_out w"
  proof (cases "find_session (w_store w) (join_SessionId req)")
    case (Some sp)
    then show ?thesis
      by (intro exI [where x = sp] exI [where x = ?w2]) (simp add: join_fresh [OF I(1) assms(5)] Let_def)
  next
    case None
    then have "join_SessionId req = ''''" using assms(7) by blast
    then show ?thesis
      by (intro exI [where x = "fst (create_session e c ?w2)"] exI [where x = "snd (create_session e c ?w2)"])
        (simp add: join_fresh [OF I(1) assms(5)] none Let_def case_prod_beta create_session_def)
  qed
  then obtain sp w3 where B: "HandleParticipantJoin e c (Inr req) w = join_session e c req sp w3"
    "w_nextP w3 = w_nextP w" "w_out w3 = w_out w" by blast
  note T = join_session_told [OF assms(4) assms(8) [unfolded B(1)], unfolded B(2,3)]
  have "inv (Suc n) w'"
    using HandleParticipantJoin_inv [OF i assms(3,2) c, of "Inr req"] assms(8) by simp
  note I' = invD [OF this [unfolded inv_def]]
  have C: "conn_ok w' c sp (w_nextP w)" using conns_okD(3) [OF I'(1) T(2)] .
  then have "find_session (w_store w') (GlobalSessionID (w_store w') (s_ID (w_sess w' sp))) = Some sp"
    using stored_find [OF I'(3)] by (auto elim: conn_okE)
  moreover have "s_participants (w_sess w' sp) (p_ID (w_part w' (w_nextP w))) = Some (w_nextP w)"
    using C by (auto elim: conn_okE)
  ultimately show ?thesis using T by blast
qed

lemma join_is_answered_witness:
  "\<exists>l gid sp pid. w_out (snd (HandleParticipantJoin env0 2 (Inr (carol_req ''tedx1'')) guest)) 2 =
    ParticipantJoinResponse 1 gid (s_UUID (w_sess (snd (HandleParticipantJoin env0 2 (Inr (carol_req ''tedx1'')) guest)) sp)) pid # l"
proof -
  have "is_running guest 2" by (simp add: guest_def exec_def is_running_def world_defs Let_def lobby_def)
  moreover have "w_out guest 2 = []" by (simp add: guest_facts lobby_def)
  moreover have "encodes env0 m" for m by (simp add: env0_def)
  ultimately show ?thesis
    using join_is_answered [OF guest_facts(1) guest_limit env0_ok _ guest_facts(2),
      where req = "carol_req ''tedx1''" and w' = "snd (HandleParticipantJoin env0 2 (Inr (carol_req ''tedx1'')) guest)"]
    by (simp add: guest_facts carol_req_def) blast
qed
text \<open>Leaving makes sessions unfindable at most.\<close>

lemma leave_store:
  assumes "inv n w" and "env_ok e" and "joined w c = Some (sp, pp)"
    and "find_session (w_store (leaveSession e c w)) v = Some q"
  shows "find_session (w_store w) v = Some q"
proof -
  note I = invD [OF assms(1) [unfolded inv_def]]
  obtain fid where C: "h_stopFrameHandling (w_hand w c) = Some (sp, fid)" "modules_at sp pp (h_Modules (w_hand w c))"
    using conns_okD(3) [OF I(1) assms(3)] by (rule conn_okE)
  let ?s = "left_state e c sp pp fid w"
  have "w_store (leaveSession e c w) =
      (if ParticipantCount ?s = 0 then fst (SessionStore_Remove ?s (w_store w)) else w_store w)"
    using leaveSession_effect [OF assms(3) C(2,1), of e] by (elim exE) (simp del: split_paired_Ex)
  then show ?thesis using assms(4) by (simp add: find_session_Remove split: if_splits)
qed

text \<open>C10: The two joins that are refused. Joining the session one is in changes nothing but the
  answer. Joining a session that does not exist is answered \<^verbatim>\<open>NOT_FOUND\<close>, but the connection has
  left its session by then, as if it had disconnected.\<close>

theorem join_refused:
  assumes "reach d n w" and "n \<le> id_limit" and "env_ok e" and "joined w c = Some (sp, pp)"
  shows "(join_SessionId req = GlobalSessionID (w_store w) (s_ID (w_sess w sp)) \<longrightarrow>
      HandleParticipantJoin e c (Inr req) w =
        (Nil_error, respond e c (ErrorResponse (join_RequestId req) SESSION_ALREADY_JOINED) w)) \<and>
    (join_SessionId req \<noteq> '''' \<longrightarrow> find_session (w_store w) (join_SessionId req) = None \<longrightarrow>
      (\<exists>st. find_session st = find_session (w_store (HandleDisconnect e c w)) \<and>
        HandleParticipantJoin e c (Inr req) w =
        (Nil_error, respond e c (ErrorResponse (join_RequestId req) NOT_FOUND)
          (HandleDisconnect e c w\<lparr>w_store := st\<rparr>))) \<and>
      joined (snd (HandleParticipantJoin e c (Inr req) w)) c = None)"
proof -
  have i: "inv n w" using reach_ok [OF assms(1,2)] by (simp add: server_ok_def)
  note I = invD [OF i [unfolded inv_def]]
  have J: "h_currentSession (w_hand w c) = Some sp" "h_currentParticipant (w_hand w c) = Some pp"
    using assms(4) by (auto simp: joined_def split: option.splits)
  have "\<exists>st. find_session st = find_session (w_store (leaveSession e c w)) \<and>
      HandleParticipantJoin e c (Inr req) w =
        (Nil_error, reply_error e c (join_RequestId req) NOT_FOUND (leaveSession e c w\<lparr>w_store := st\<rparr>))"
    if r: "join_SessionId req \<noteq> ''''" "find_session (w_store w) (join_SessionId req) = None"
  proof -
    have "sp \<in> stored w" by (rule inv_member(3) [OF i [unfolded inv_def] assms(4)])
    then have no: "GlobalSessionID (w_store w) (s_ID (w_sess w sp)) \<noteq> join_SessionId req"
      using stored_find [OF I(3)] r(2) by force
    note L = leave_store [OF i assms(3,4)]
    have "find_session (w_store (leaveSession e c w)) (join_SessionId req) = None"
      using L r(2) by (cases "find_session (w_store (leaveSession e c w)) (join_SessionId req)") auto
    then have "fst (GetByGlobalID (join_SessionId req) (w_store (leaveSession e c w))) = None"
      by (simp add: find_session_def)
    then show ?thesis
      using no r(1) find_session_init [of "w_store (leaveSession e c w)"]
      by (intro exI [where x = "snd (GetByGlobalID (join_SessionId req) (w_store (leaveSession e c w)))"])
        (simp add: HandleParticipantJoin_def DataTo_def J GetByGlobalID_def Let_def)
  qed
  moreover have "joined (reply_error e c rid er (leaveSession e c w\<lparr>w_store := st\<rparr>)) c = None" for rid er st
    using inv_leave(2) [OF i assms(3,4)]
      joined_hand [of "reply_error e c rid er (leaveSession e c w\<lparr>w_store := st\<rparr>)" "leaveSession e c w"]
    by simp
  ultimately show ?thesis
    by (auto simp: HandleDisconnect_def J reply_error_def HandleParticipantJoin_def DataTo_def)
qed

lemma join_refused_witness:
  "joined (snd (HandleParticipantJoin env0 0 (Inr (carol_req ''nowhere'')) lobby)) 0 = None"
proof -
  have "join_SessionId (carol_req ''nowhere'') \<noteq> ''''"
    "find_session (w_store lobby) (join_SessionId (carol_req ''nowhere'')) = None"
    by (simp_all add: carol_req_def find_session_def GetByGlobalID_def Let_def lobby_def store0_def init_once_def)
  then show ?thesis
    using join_refused [OF reach_lobby _ env0_ok lobby_joined(1), of "carol_req ''nowhere''"]
    by (simp add: id_limit_def)
qed

section \<open>The end of a session\<close>

text \<open>C11: A session lives as long as it has participants. When the only participant leaves, no
  global id finds the session any more, its frame loop is told to stop, and the gauge of its
  app key goes down by one; when another one leaves, the store does not change.\<close>

theorem last_leave_ends_session:
  assumes "reach d n w" and "n \<le> id_limit" and "env_ok e" and "joined w c = Some (sp, pp)"
  shows "if dom (s_participants (w_sess w sp)) = {p_ID (w_part w pp)}
    then (\<forall>v. find_session (w_store (HandleDisconnect e c w)) v =
          (if find_session (w_store w) v = Some sp then None else find_session (w_store w) v)) \<and>
      s_closeOnce (w_sess (HandleDisconnect e c w) sp) \<and>
      ss_sessionCount (w_store (HandleDisconnect e c w)) = (ss_sessionCount (w_store w))
        (s_AppKey (w_sess w sp) := ss_sessionCount (w_store w) (s_AppKey (w_sess w sp)) - 1)
    else w_store (HandleDisconnect e c w) = w_store w \<and>
      \<not> s_closeOnce (w_sess (HandleDisconnect e c w) sp)"
proof -
  have i: "inv n w" using reach_ok [OF assms(1,2)] by (simp add: server_ok_def)
  note I = invD [OF i [unfolded inv_def]]
  have H: "HandleDisconnect e c w = leaveSession e c w"
    using assms(4) by (auto simp: HandleDisconnect_def joined_def split: option.splits)
  obtain fid where C: "sp \<in> stored w" "s_participants (w_sess w sp) (p_ID (w_part w pp)) = Some pp"
    "h_stopFrameHandling (w_hand w c) = Some (sp, fid)" "s_frameHandlers (w_sess w sp) fid = Some c"
    "modules_at sp pp (h_Modules (w_hand w c))"
    using conns_okD(3) [OF I(1) assms(4)] by (rule conn_okE)
  define s where "s = left_state e c sp pp fid w"
  note L = left_state_ok [OF store_ok_session(1) [OF I(3) C(1)] assms(3) C(5,2,4), folded s_def]
  obtain q where W: "leaveSession e c w = (if ParticipantCount s = 0
     then w\<lparr>w_store := fst (SessionStore_Remove s (w_store w)), w_sess := (w_sess w)(sp := Close s),
            w_hand := (w_hand w)(c := (w_hand w c)\<lparr>h_currentParticipant := None, h_currentSession := None\<rparr>), w_out := q\<rparr>
     else w\<lparr>w_sess := (w_sess w)(sp := s),
            w_hand := (w_hand w)(c := (w_hand w c)\<lparr>h_currentParticipant := None, h_currentSession := None\<rparr>), w_out := q\<rparr>)"
    using leaveSession_effect [OF assms(4) C(5,3), of e] unfolding s_def by blast
  have last: "ParticipantCount s = 0 \<longleftrightarrow> dom (s_participants (w_sess w sp)) = {p_ID (w_part w pp)}"
    using C(2) by (auto simp: ParticipantCount_0 L(2))
  have F: "v = GlobalSessionID (w_store w) (s_ID (w_sess w sp)) \<longleftrightarrow> find_session (w_store w) v = Some sp" for v
    using store_okD(1) [OF I(3)] stored_find [OF I(3) C(1)] by blast
  have "\<not> s_closeOnce s"
    using store_ok_session(3) [OF I(3) C(1)] L(6) by simp
  then show ?thesis
    unfolding H W last [symmetric]
    by (simp add: find_session_Remove SessionStore_Remove_fields L(4,5) F Close_def)
qed

lemma last_leave_ends_session_witness:
  "find_session (w_store (HandleDisconnect env0 0 alone)) ''tedx1'' = None \<and>
    ss_sessionCount (w_store (HandleDisconnect env0 0 alone)) ''key'' = 0"
proof -
  have "dom (s_participants (w_sess alone 0)) = {p_ID (w_part alone 0)}" "(2 :: nat) \<le> id_limit"
    "find_session (w_store alone) ''tedx1'' = Some 0" "s_AppKey (w_sess alone 0) = ''key''"
    "ss_sessionCount (w_store alone) ''key'' = 1"
    by (simp_all add: alone_def session0_def id_limit_def find_session_def GetByGlobalID_def Let_def store0_def init_once_def)
  then show ?thesis
    using last_leave_ends_session [OF reach_alone _ env0_ok alone_joined] by simp
qed

end
