(* ===== verification/Relaying.thy ===== *)
theory Relaying
imports Joining
begin

text \<open>
  What the handlers of entities and components do in any reachable state, on every branch:
  the change of the session's tables, and for every connection of the server the messages
  that enter its queue. A message to "the others" reaches each connection on which another
  participant of the session answers, exactly once, and no other connection.
\<close>

section \<open>Who is sent what\<close>

text \<open>The sender's company in its session: what is needed to tell who hears a broadcast.\<close>

definition company :: "world \<Rightarrow> conn \<Rightarrow> sptr \<Rightarrow> pptr \<Rightarrow> bool" where
  "company w c sp pp \<longleftrightarrow>
    ids_match (w_part w) (w_sess w sp) \<and> one_each (w_part w) (w_sess w sp) \<and>
    s_participants (w_sess w sp) (p_ID (w_part w pp)) = Some pp \<and> p_Responder (w_part w pp) = c"

text \<open>The connections other than \<open>c\<close> on which a listed participant answers.\<close>

definition listed :: "world \<Rightarrow> sptr \<Rightarrow> u32 set \<Rightarrow> conn \<Rightarrow> bool" where
  "listed w sp ids d \<longleftrightarrow>
    (\<exists>i \<in> ids. \<exists>p. s_participants (w_sess w sp) i = Some p \<and> p_Responder (w_part w p) = d)"

lemma member_company:
  assumes "inv n w" and "joined w c = Some (sp, pp)"
  shows "company w c sp pp"
proof -
  note I = invD [OF assms(1) [unfolded inv_def]] and M = inv_member [OF assms(1) [unfolded inv_def] assms(2)]
  have ids: "ids_match (w_part w) (w_sess w sp)" using sess_okD(5) [OF session_okD(1) [OF M(2)]] .
  have "one_each (w_part w) (w_sess w sp)"
    unfolding one_each_def
  proof (intro allI impI)
    fix i j p q
    assume p: "s_participants (w_sess w sp) i = Some p" and q: "s_participants (w_sess w sp) j = Some q"
      and r: "p_Responder (w_part w p) = p_Responder (w_part w q)"
    have "p = q" using members_okD(1) [OF I(2) M(3) p] members_okD(1) [OF I(2) M(3) q] r
      by (metis option.inject prod.inject)
    then show "i = j" using ids_matchD [OF ids p] ids_matchD [OF ids q] by metis
  qed
  then show ?thesis using ids memberD(4,8) [OF M(1)] by (simp add: company_def)
qed

lemma company_cong:
  assumes "s_participants (w_sess w' sp) = s_participants (w_sess w sp)"
    and "\<And>p. p_ID (w_part w' p) = p_ID (w_part w p)"
    and "\<And>p. p_Responder (w_part w' p) = p_Responder (w_part w p)"
  shows "company w' c sp pp = company w c sp pp" and "hears w' sp d = hears w sp d"
    and "listed w' sp ids d = listed w sp ids d"
  by (simp_all only: company_def hears_def listed_def ids_match_def one_each_def assms)

lemma company_local:
  assumes "local_step sp' pp' w w'"
  shows "company w' c sp pp = company w c sp pp" and "hears w' sp d = hears w sp d"
    and "listed w' sp ids d = listed w sp ids d"
  by (rule company_cong; rule local_stepD [OF assms])+

lemma respond_out:
  "w_out (respond e c m w) d = w_out w d @ (if encodes e m \<and> d = c then [m] else [])"
  by (simp add: respond_def enqueue_def)

lemma company_sender:
  assumes "company w c sp pp" and "s_participants (w_sess w sp) i = Some p"
  shows "p \<noteq> pp \<longleftrightarrow> p_Responder (w_part w p) \<noteq> c"
proof -
  have C: "ids_match (w_part w) (w_sess w sp)" "one_each (w_part w) (w_sess w sp)"
    "s_participants (w_sess w sp) (p_ID (w_part w pp)) = Some pp" "p_Responder (w_part w pp) = c"
    using assms(1) by (simp_all add: company_def)
  have "i = p_ID (w_part w pp)" if "p_Responder (w_part w p) = c"
    using C(2) assms(2) C(3,4) that unfolding one_each_def by blast
  then have "p = pp" if "p_Responder (w_part w p) = c" using that C(3) assms(2) by simp
  then show ?thesis using C(4) by blast
qed

lemma broadcast_out:
  assumes "company w c sp pp" and "env_ok e"
  shows "w_out (broadcast e sp pp m w) d =
    w_out w d @ (if encodes e m \<and> hears w sp d \<and> d \<noteq> c then [m] else [])"
proof -
  have "one_each (w_part w) (w_sess w sp)" using assms(1) by (simp add: company_def)
  note L = card_listeners [OF this, of pp d]
  have "listeners (w_part w) (w_sess w sp) pp d = {} \<longleftrightarrow> \<not> (hears w sp d \<and> d \<noteq> c)"
    using company_sender [OF assms(1)] by (auto simp: listeners_def hears_def)
  then show ?thesis
    using L Broadcast_queue [OF env_okD(1) [OF assms(2)], of "encodes e" "w_part w" pp m "w_sess w sp" "w_out w" d]
    by (auto simp: broadcast_def numeral_eq_Suc)
qed

lemma broadcast_to_out:
  assumes "company w c sp pp"
  shows "w_out (broadcast_to e sp pp m ids w) d =
    w_out w d @ (if encodes e m \<and> listed w sp (set ids) d \<and> d \<noteq> c then [m] else [])"
proof -
  have o: "one_each (w_part w) (w_sess w sp)" and i: "ids_match (w_part w) (w_sess w sp)"
    using assms(1) by (simp_all add: company_def)
  let ?L = "set ids \<inter> listeners (w_part w) (w_sess w sp) pp d"
  have E: "?L = {} \<longleftrightarrow> \<not> (listed w sp (set ids) d \<and> d \<noteq> c)"
    using company_sender [OF assms(1)] by (auto simp: listeners_def listed_def)
  have "x = y" if "x \<in> ?L" "y \<in> ?L" for x y
    using that o unfolding listeners_def one_each_def by blast
  then have "?L = {} \<or> (\<exists>x. ?L = {x})" by blast
  then have "card ?L = (if ?L = {} then 0 else 1)" by auto
  then show ?thesis
    using E BroadcastTo_queue [OF i, of "encodes e" pp m ids "w_out w" d]
    by (auto simp: broadcast_to_def numeral_eq_Suc)
qed

text \<open>A handler that changes the state locally, then sends one message to its own connection
  and one to the others, unless a flag forbids it.\<close>

lemma announce_out:
  assumes "company w c sp pp" and "env_ok e" and "local_step sp pp w w1" and "w_out w1 = w_out w"
    and "\<And>m. encodes e m"
  shows "w_out (IfNotSet (FeatureFlags e) flag (broadcast e sp pp m) (respond e c r w1)) d =
      w_out w d @ (if d = c then [r] else if hears w sp d \<and> flag \<notin> FeatureFlags e then [m] else [])"
    and "w_out (IfNotSet (FeatureFlags e) flag (broadcast e sp pp m) w1) d =
      w_out w d @ (if d \<noteq> c \<and> hears w sp d \<and> flag \<notin> FeatureFlags e then [m] else [])"
proof -
  let ?w = "respond e c r w1"
  have L: "local_step sp pp w ?w" by (rule local_step_quiet [OF quiet_respond assms(3)])
  have C: "company ?w c sp pp" "company w1 c sp pp"
    using assms(1) by (simp_all only: company_local(1) [OF L] company_local(1) [OF assms(3)])
  show "w_out (IfNotSet (FeatureFlags e) flag (broadcast e sp pp m) ?w) d =
      w_out w d @ (if d = c then [r] else if hears w sp d \<and> flag \<notin> FeatureFlags e then [m] else [])"
    using broadcast_out [OF C(1) assms(2), of m d] company_local(2) [OF L] assms(4,5)
    by (cases "d = c") (simp_all add: IfNotSet_def respond_out)
  show "w_out (IfNotSet (FeatureFlags e) flag (broadcast e sp pp m) w1) d =
      w_out w d @ (if d \<noteq> c \<and> hears w sp d \<and> flag \<notin> FeatureFlags e then [m] else [])"
    using broadcast_out [OF C(2) assms(2), of m d] company_local(2) [OF assms(3)] assms(4,5)
    by (simp add: IfNotSet_def)
qed

section \<open>Adding an entity\<close>

text \<open>C23: Adding an entity creates one under an id that is not zero and not in use, owned by the
  sender's participant, with the pose, flag and persistence of the request; nothing else in
  the session's table of entities changes. The sender is answered with the id; everybody
  else in the session is told of the entity, once, unless the broadcast is switched off, and
  nobody outside is told anything.\<close>

theorem entity_add:
  assumes "reach d n w" and "n < id_limit" and "env_ok e" and "joined w c = Some (sp, pp)"
    and "\<And>m. encodes e m"
  shows "\<exists>w' en. HandleEntityAdd e c (Inr req) w = (Nil_error, w') \<and>
    EntityByID (e_ID en) (w_sess w sp) = None \<and> e_ID en \<noteq> 0 \<and>
    e_ParticipantID en = p_ID (w_part w pp) \<and> e_Persist en = eadd_Persist req \<and> e_Flag en = eadd_Flag req \<and>
    Pose_ToProtobuf (getPose en) = (case eadd_Pose req of None \<Rightarrow> Pose_ToProtobuf zeroPose | Some p \<Rightarrow> p) \<and>
    s_entities (w_sess w' sp) = (s_entities (w_sess w sp))(e_ID en \<mapsto> en) \<and>
    EntityIDs (w_part w' pp) = insert (e_ID en) (EntityIDs (w_part w pp)) \<and>
    (\<forall>k. w_out w' k = w_out w k @
      (if k = c then [EntityMessage (EntityAddResponse (eadd_RequestId req) (e_ID en))]
       else if hears w sp k \<and> FlagDisableEntityAddBroadcast \<notin> FeatureFlags e
       then [EntityMessage (EntityAddBroadcast (eadd_Timestamp req) (Entity_ToProtobuf en))] else []))"
proof -
  have i: "inv n w" using reach_ok [OF assms(1)] assms(2) by (simp add: server_ok_def)
  note M = inv_member(1) [OF i [unfolded inv_def] assms(4)]
  obtain k s1 where N: "NewEntityID (rangeU e) (w_sess w sp) = (k, s1)" by fastforce
  let ?en0 = "\<lparr>e_ID = k, e_ParticipantID = p_ID (w_part w pp), e_Persist = eadd_Persist req,
        e_Flag = eadd_Flag req, e_pose = zeroPose\<rparr>"
  define en where "en = (case eadd_Pose req of None \<Rightarrow> ?en0 | Some p \<Rightarrow> SetPose (Pose_of_request p) ?en0)"
  have en: "e_ID en = k" "e_ParticipantID en = p_ID (w_part w pp)" "e_Persist en = eadd_Persist req"
    "e_Flag en = eadd_Flag req"
    "Pose_ToProtobuf (getPose en) = (case eadd_Pose req of None \<Rightarrow> Pose_ToProtobuf zeroPose | Some p \<Rightarrow> p)"
    by (simp_all add: en_def getPose_def Pose_request_roundtrip split: option.split)
       (simp add: SetPose_def Pose_request_roundtrip)
  have s1: "\<exists>g. s1 = (w_sess w sp)\<lparr>s_entityIDs := g\<rparr>"
    using N by (auto simp: NewEntityID_def split: prod.splits)
  let ?w = "upd_part pp (Participant_AddEntity en) (upd_sess sp (\<lambda>_. AddEntity en s1) w)"
  have "same_members (w_sess w sp) (AddEntity en s1)"
    using s1 by (auto simp: same_members_def AddEntity_def)
  then have L: "local_step sp pp w ?w"
    using local_step_upd_part local_step_upd_sess local_step_trans by (metis Participant_entity_frame(1,2))
  note S = sess_ok_AddEntity [OF env_okD(1) [OF assms(3)] assms(2) memberD(3,4) [OF M] N en(1,2)]
  have "k \<in> dom (s_entities (AddEntity en s1))" using en(1) by (simp add: AddEntity_def)
  moreover have "0 \<notin> dom (s_entities (AddEntity en s1))" using covers_zero [OF sess_okD(2) [OF S(2)]] .
  ultimately have k0: "k \<noteq> 0" by metis
  define w' where "w' = snd (HandleEntityAdd e c (Inr req) w)"
  have H: "HandleEntityAdd e c (Inr req) w = (Nil_error, w')"
    and W: "w' = IfNotSet (FeatureFlags e) FlagDisableEntityAddBroadcast
      (broadcast e sp pp (EntityMessage (EntityAddBroadcast (eadd_Timestamp req) (Entity_ToProtobuf en))))
      (respond e c (EntityMessage (EntityAddResponse (eadd_RequestId req) (e_ID en))) ?w)"
    by (simp_all add: w'_def HandleEntityAdd_def DataTo_def with_joined_def assms(4) N Let_def en_def [symmetric])
  have "s_entities (w_sess w' sp) = (s_entities (w_sess w sp))(e_ID en \<mapsto> en)"
    "EntityIDs (w_part w' pp) = insert (e_ID en) (EntityIDs (w_part w pp))"
    using s1 by (auto simp: W AddEntity_def EntityIDs_def Participant_AddEntity_def)
  moreover have "w_out ?w = w_out w" by simp
  note O = announce_out(1) [OF member_company [OF i assms(4)] assms(3) L this assms(5)]
  ultimately show ?thesis
    using S(1) k0 en by (intro exI [where x = w'] exI [where x = en]) (simp add: H EntityByID_def W O)
qed

lemma entity_add_witness:
  "w_out (snd (HandleEntityAdd env0 0 (Inr \<lparr>eadd_RequestId = 9, eadd_Timestamp = None, eadd_Persist = True,
      eadd_Flag = 0, eadd_Pose = Some pose0\<rparr>) lobby)) 7 = []"
proof -
  have "\<not> hears lobby 0 7" "w_out lobby 7 = []"
    by (auto simp: hears_def lobby_def session0_def split: if_splits)
  then show ?thesis
    using entity_add [OF reach_lobby lobby_limit(2) env0_ok lobby_joined(1), where req = "\<lparr>eadd_RequestId = 9,
      eadd_Timestamp = None, eadd_Persist = True, eadd_Flag = 0, eadd_Pose = Some pose0\<rparr>"]
    by (force simp: env0_def)
qed
section \<open>Deleting an entity\<close>

text \<open>The modules never refuse the deletion and send nothing.\<close>

lemma module_delete_quiet:
  assumes "m_current m = Some (sp, pp)"
  shows "fst (mod_HandleMsg e c m (EntityDeleteRequest (Inr req)) w) = Nil_error"
    and "w_out (snd (mod_HandleMsg e c m (EntityDeleteRequest (Inr req)) w)) = w_out w"
  using assms
  by (simp_all add: mod_HandleMsg_def Vikja_HandleMsg_def Odal_HandleMsg_def Vikja_handleEntityDelete_def
      Odal_handleEntityDelete_def Dagaz_HandleMsg_def split: ModuleKind.split)

lemma modules_delete:
  assumes "\<forall>m \<in> set ms. m_current m = Some (sp, pp)" and "joined w c = Some (sp, pp)"
  shows "fst (run_modules e c ms (EntityDeleteRequest (Inr req)) w) = Nil_error \<and>
    w_out (snd (run_modules e c ms (EntityDeleteRequest (Inr req)) w)) = w_out w \<and>
    touches sp w (snd (run_modules e c ms (EntityDeleteRequest (Inr req)) w))"
  using assms
proof (induction ms arbitrary: w)
  case (Cons m ms)
  let ?msg = "EntityDeleteRequest (Inr req)"
  obtain out w1 where M: "mod_HandleMsg e c m ?msg w = (out, w1)" by fastforce
  have m: "m_current m = Some (sp, pp)" using Cons.prems by simp
  have 1: "out = Nil_error" "w_out w1 = w_out w"
    using module_delete_quiet [OF m, of e c req w] by (simp_all add: M)
  have T: "touches sp w w1" using mod_Msg_touches [OF m, of w e c ?msg] by (simp add: M)
  have "joined w1 c = Some (sp, pp)" using Cons.prems(2) joined_local [OF local_step_touches [OF T]] by simp
  note IH = Cons.IH [OF _ this]
  have "HandleWithModule e c m ?msg w = (Nil_error, w1)"
    using Cons.prems(2) by (simp add: HandleWithModule_def M 1(1))
  then show ?case using IH Cons.prems(1) 1(2) touches_trans [OF T] by simp
qed simp

text \<open>The core's part of the deletion.\<close>

definition deleted :: "sptr \<Rightarrow> pptr \<Rightarrow> Entity \<Rightarrow> world \<Rightarrow> world" where
  "deleted sp pp en w = upd_part pp (Participant_RemoveEntity en)
     (upd_sess sp (RemoveEntity en) (upd_ecs sp (DeleteByEntityID (e_ID en)) w))"

lemma deleted_local: "local_step sp pp w (deleted sp pp en w)"
proof -
  have "local_step sp pp w (upd_sess sp (RemoveEntity en) (upd_ecs sp (DeleteByEntityID (e_ID en)) w))"
    by (rule local_step_trans [OF local_step_upd_ecs local_step_upd_sess])
      (simp add: same_members_def RemoveEntity_def)
  then show ?thesis unfolding deleted_def by (rule local_step_trans) (rule local_step_upd_part; simp)
qed

lemma deleted_frame:
  "s_entities (w_sess (deleted sp pp en w) sp) = (s_entities (w_sess w sp))(e_ID en := None)"
  "EntityIDs (w_part (deleted sp pp en w) pp) = EntityIDs (w_part w pp) - {e_ID en}"
  "w_out (deleted sp pp en w) = w_out w"
  by (simp_all add: deleted_def upd_ecs_def RemoveEntity_def EntityIDs_def Participant_RemoveEntity_def)

text \<open>In a consistent session nothing is left on an entity that is not there.\<close>

lemma nothing_left:
  assumes "session_ok n H s" and "EntityByID i s = None"
  shows "components (s_entityComponents s) (t, i) = None" and "AssetInstance i (odal_in s) = None"
    and "EntityAction i name (vikja_in s) = None"
proof -
  note S = session_okD [OF assms(1)]
  have i: "i \<notin> dom (s_entities s)" using assms(2) by (simp add: EntityByID_dom)
  show "components (s_entityComponents s) (t, i) = None"
    using ecs_okD(3) [OF sess_okD(4) [OF S(1)], of t i] i
    by (cases "components (s_entityComponents s) (t, i)") auto
  have "action_entities (vikja_in s) \<subseteq> dom (s_entities s)" "asset_entities (odal_in s) \<subseteq> dom (s_entities s)"
    using S(3,4) by (simp_all add: vikja.tidy_def odal.tidy_def)
  then show "AssetInstance i (odal_in s) = None" "EntityAction i name (vikja_in s) = None"
    using i by (auto simp: action_entities_def asset_entities_def AssetInstance_def EntityAction_def split: option.split)
qed

lemma entity_delete_runs:
  assumes s: "server_ok n w" and n: "n < id_limit" and e: "env_ok e" and j: "joined w c = Some (sp, pp)"
  obtains w' where "handleMessage e c (EntityDeleteRequest (Inr req)) w = (Nil_error, w')"
    and "w_out w' = w_out (snd (handle_core e c (EntityDeleteRequest (Inr req)) w))"
    and "touches sp (snd (handle_core e c (EntityDeleteRequest (Inr req)) w)) w'"
    and "session_ok (Suc n) (w_part w') (w_sess w' sp)"
proof -
  let ?msg = "EntityDeleteRequest (Inr req)"
  have i: "inv n w" using s by (simp add: server_ok_def)
  note M = inv_member [OF i [unfolded inv_def] j]
  have c: "c < w_nextC w"
    using conns_okD(3) [OF invD(1) [OF i [unfolded inv_def]] j] by (auto elim: conn_okE)
  define w1 where "w1 = snd (handle_core e c ?msg w)"
  have core: "handle_core e c ?msg w = (Nil_error, w1)"
    by (simp add: w1_def handle_core_def HandleEntityDelete_def DataTo_def with_joined_def j Let_def split: option.split)
  have L: "local_step sp pp w w1"
    using handle_core_step [OF M(1) e n, of ?msg] by (simp add: core plain_def core_step_def)
  have j1: "joined w1 c = Some (sp, pp)" using joined_local [OF L] j by simp
  have ms: "\<forall>m \<in> set (h_Modules (w_hand w1 c)). m_current m = Some (sp, pp)"
    using M(4) local_stepD(14) [OF L] by (simp add: modules_at_def)
  define w' where "w' = snd (handleMessage e c ?msg w)"
  have "handleMessage e c ?msg w = run_modules e c (h_Modules (w_hand w1 c)) ?msg w1"
    by (simp add: handleMessage_def core j1)
  then have R: "handleMessage e c ?msg w = (Nil_error, w')" "w_out w' = w_out w1" "touches sp w1 w'"
    using modules_delete [OF ms j1, of e req] by (auto simp: w'_def intro: prod_eqI)
  have "inv (Suc n) w'" using handleMessage_inv [OF i e n c, of ?msg] by (simp add: w'_def)
  moreover have "joined w' c = Some (sp, pp)"
    using j1 joined_local [OF local_step_touches [OF R(3)]] by simp
  ultimately have "session_ok (Suc n) (w_part w') (w_sess w' sp)"
    using inv_member(2) by (metis inv_def)
  with R show thesis by (intro that) (simp_all add: w1_def)
qed

text \<open>C24: A request to delete an entity is refused with \<^verbatim>\<open>NOT_FOUND\<close> when there is none and
  with \<^verbatim>\<open>UNAUTHORIZED\<close> when it belongs to somebody else, and the table of entities stays as it is.
  Otherwise the entity is gone with all its components, actions and assets, its owner no
  longer lists it, the sender is answered and everybody else in the session told.\<close>

theorem entity_delete:
  assumes "reach d n w" and "n < id_limit" and "env_ok e" and "joined w c = Some (sp, pp)"
    and "\<And>m. encodes e m"
  shows "\<exists>w'. handleMessage e c (EntityDeleteRequest (Inr req)) w = (Nil_error, w') \<and>
    (case EntityByID (edel_EntityId req) (w_sess w sp) of
       None \<Rightarrow> s_entities (w_sess w' sp) = s_entities (w_sess w sp) \<and>
         w_out w' = (w_out w)(c := w_out w c @ [ErrorResponse (edel_RequestId req) NOT_FOUND])
     | Some en \<Rightarrow>
        if e_ParticipantID en \<noteq> p_ID (w_part w pp)
        then s_entities (w_sess w' sp) = s_entities (w_sess w sp) \<and>
          w_out w' = (w_out w)(c := w_out w c @ [ErrorResponse (edel_RequestId req) UNAUTHORIZED])
        else s_entities (w_sess w' sp) = (s_entities (w_sess w sp))(edel_EntityId req := None) \<and>
          EntityIDs (w_part w' pp) = EntityIDs (w_part w pp) - {edel_EntityId req} \<and>
          (\<forall>t. components (ecs_at w' sp) (t, edel_EntityId req) = None) \<and>
          AssetInstance (edel_EntityId req) (odal_in (w_sess w' sp)) = None \<and>
          (\<forall>name. EntityAction (edel_EntityId req) name (vikja_in (w_sess w' sp)) = None) \<and>
          (\<forall>k. w_out w' k = w_out w k @
            (if k = c then [EntityMessage (EntityDeleteResponse (edel_RequestId req))]
             else if hears w sp k \<and> FlagDisableEntityDeleteBroadcast \<notin> FeatureFlags e
             then [EntityMessage (EntityDeleteBroadcast (edel_Timestamp req) (edel_EntityId req))] else [])))"
proof -
  let ?msg = "EntityDeleteRequest (Inr req)" and ?i = "edel_EntityId req"
  have s: "server_ok n w" using reach_ok [OF assms(1)] assms(2) by simp
  then have i: "inv n w" by (simp add: server_ok_def)
  note M = inv_member(1) [OF i [unfolded inv_def] assms(4)]
  define w1 where "w1 = snd (handle_core e c ?msg w)"
  obtain w' where R: "handleMessage e c ?msg w = (Nil_error, w')" "w_out w' = w_out w1" "touches sp w1 w'"
    and ok: "session_ok (Suc n) (w_part w') (w_sess w' sp)"
    unfolding w1_def by (rule entity_delete_runs [OF s assms(2-4)])
  note T = touches_session(1) [OF R(3)] touchesD(1) [OF R(3)]
  consider (none) "EntityByID ?i (w_sess w sp) = None"
    | (other) en where "EntityByID ?i (w_sess w sp) = Some en" "e_ParticipantID en \<noteq> p_ID (w_part w pp)"
    | (own) en where "EntityByID ?i (w_sess w sp) = Some en" "e_ParticipantID en = p_ID (w_part w pp)"
    by (cases "EntityByID ?i (w_sess w sp)") auto
  then show ?thesis
  proof cases
    case own
    have id: "e_ID en = ?i" using member_entity(1) [OF M own(1)] .
    have W: "w1 = IfNotSet (FeatureFlags e) FlagDisableEntityDeleteBroadcast
        (broadcast e sp pp (EntityMessage (EntityDeleteBroadcast (edel_Timestamp req) ?i)))
        (respond e c (EntityMessage (EntityDeleteResponse (edel_RequestId req))) (deleted sp pp en w))"
      by (simp add: w1_def handle_core_def HandleEntityDelete_def DataTo_def with_joined_def assms(4) own Let_def
          id deleted_def)
    have e1: "s_entities (w_sess w' sp) = (s_entities (w_sess w sp))(?i := None)"
      "EntityIDs (w_part w' pp) = EntityIDs (w_part w pp) - {?i}"
      by (simp_all add: T W deleted_frame id)
    then have "EntityByID ?i (w_sess w' sp) = None" by (simp add: EntityByID_def)
    note G = nothing_left [OF ok this]
    have "w_out w' k = w_out w k @ (if k = c then [EntityMessage (EntityDeleteResponse (edel_RequestId req))]
             else if hears w sp k \<and> FlagDisableEntityDeleteBroadcast \<notin> FeatureFlags e
             then [EntityMessage (EntityDeleteBroadcast (edel_Timestamp req) ?i)] else [])" for k
      unfolding R(2) W
      by (rule announce_out(1) [OF member_company [OF i assms(4)] assms(3) deleted_local deleted_frame(3) assms(5)])
    then show ?thesis using own e1 G by (simp add: R(1) ecs_at_def)
  qed (simp_all add: R T w1_def handle_core_def HandleEntityDelete_def DataTo_def with_joined_def assms(4,5)
      reply_error_def respond_def enqueue_def)
qed

lemma entity_delete_witness:
  "AssetInstance 1 (odal_in (w_sess (snd (handleMessage env0 0
      (EntityDeleteRequest (Inr \<lparr>edel_RequestId = 3, edel_Timestamp = None, edel_EntityId = 1\<rparr>)) furnished)) 0)) = None"
proof -
  have "EntityByID 1 (w_sess furnished 0) = Some entity0" "p_ID (w_part furnished 0) = 1"
    "e_ParticipantID entity0 = 1"
    using furnished_facts(4) by (simp_all add: furnished_def acted_def lobby_def entity0_def)
  moreover have "(7 :: nat) < id_limit" by (simp add: id_limit_def)
  ultimately show ?thesis
    using entity_delete [OF reach_furnished _ env0_ok furnished_joined(1),
      where req = "\<lparr>edel_RequestId = 3, edel_Timestamp = None, edel_EntityId = 1\<rparr>"]
    by (auto simp: env0_def)
qed
section \<open>Moving an entity\<close>

lemma own_pose_update:
  assumes i: "inv n w" and j: "joined w c = Some (sp, pp)" and e: "env_ok e" and enc: "\<And>m. encodes e m"
    and E: "EntityByID (upose_EntityId req) (w_sess w sp) = Some en" "e_ParticipantID en = p_ID (w_part w pp)"
    and p: "upose_Pose req = Some p"
  shows "\<exists>w' en'. HandleEntityUpdatePose e c (Inr req) w = (Nil_error, w') \<and>
      s_entities (w_sess w' sp) = (s_entities (w_sess w sp))(upose_EntityId req \<mapsto> en') \<and>
      Pose_ToProtobuf (getPose en') = p \<and> e_ID en' = e_ID en \<and> e_Persist en' = e_Persist en \<and>
      e_ParticipantID en' = e_ParticipantID en \<and> e_Flag en' = e_Flag en \<and>
      (\<forall>k. w_out w' k = w_out w k @
        (if k \<noteq> c \<and> hears w sp k \<and> FlagDisableEntityUpdatePoseBroadcast \<notin> FeatureFlags e
         then [EntityMessage (EntityUpdatePoseBroadcast (upose_Timestamp req) (upose_EntityId req) p)] else []))"
proof -
  let ?i = "upose_EntityId req"
  let ?w = "upd_sess sp (UpdateEntity ?i (SetPose (Pose_of_request p))) w"
  define w' where "w' = snd (HandleEntityUpdatePose e c (Inr req) w)"
  have id: "e_ID en = ?i" using member_entity(1) [OF inv_member(1) [OF i [unfolded inv_def] j] E(1)] .
  have H: "HandleEntityUpdatePose e c (Inr req) w = (Nil_error, w')"
    and W: "w' = IfNotSet (FeatureFlags e) FlagDisableEntityUpdatePoseBroadcast
      (broadcast e sp pp (EntityMessage (EntityUpdatePoseBroadcast (upose_Timestamp req) ?i p))) ?w"
    by (simp_all add: w'_def HandleEntityUpdatePose_def DataTo_def with_joined_def j E p Let_def id
        Pose_request_roundtrip)
  have L: "local_step sp pp w ?w"
    by (rule local_step_upd_sess) (simp add: same_members_def UpdateEntity_def)
  have out: "w_out ?w = w_out w" by simp
  have "w_out w' k = w_out w k @
      (if k \<noteq> c \<and> hears w sp k \<and> FlagDisableEntityUpdatePoseBroadcast \<notin> FeatureFlags e
       then [EntityMessage (EntityUpdatePoseBroadcast (upose_Timestamp req) ?i p)] else [])" for k
    unfolding W by (rule announce_out(2) [OF member_company [OF i j] e L out enc])
  moreover have "s_entities (w_sess w' sp) = (s_entities (w_sess w sp))(?i \<mapsto> SetPose (Pose_of_request p) en)"
    using E(1) by (simp add: W UpdateEntity_def EntityByID_def)
  ultimately show ?thesis
    by (intro exI [where x = w'] exI [where x = "SetPose (Pose_of_request p) en"])
      (simp add: H Pose_request_roundtrip)
qed

text \<open>C25: The pose of an entity is changed by its owner only; a request for a missing or
  foreign entity is dropped without an answer. The owner's request sets exactly the pose it
  gives, and everybody else in the session is told of it. A request of the owner without a
  pose is a panic.\<close>

theorem update_pose:
  assumes "reach d n w" and "n < id_limit" and "env_ok e" and "joined w c = Some (sp, pp)"
    and "\<And>m. encodes e m"
  shows "case EntityByID (upose_EntityId req) (w_sess w sp) of
       None \<Rightarrow> HandleEntityUpdatePose e c (Inr req) w = (Nil_error, w)
     | Some en \<Rightarrow>
        if e_ParticipantID en \<noteq> p_ID (w_part w pp)
        then HandleEntityUpdatePose e c (Inr req) w = (Nil_error, w)
        else (case upose_Pose req of
            None \<Rightarrow> HandleEntityUpdatePose e c (Inr req) w = (Panicked, w)
          | Some p \<Rightarrow> \<exists>w' en'. HandleEntityUpdatePose e c (Inr req) w = (Nil_error, w') \<and>
              s_entities (w_sess w' sp) = (s_entities (w_sess w sp))(upose_EntityId req \<mapsto> en') \<and>
              Pose_ToProtobuf (getPose en') = p \<and> e_ID en' = e_ID en \<and> e_Persist en' = e_Persist en \<and>
              e_ParticipantID en' = e_ParticipantID en \<and> e_Flag en' = e_Flag en \<and>
              (\<forall>k. w_out w' k = w_out w k @
                (if k \<noteq> c \<and> hears w sp k \<and> FlagDisableEntityUpdatePoseBroadcast \<notin> FeatureFlags e
                 then [EntityMessage (EntityUpdatePoseBroadcast (upose_Timestamp req) (upose_EntityId req) p)]
                 else [])))"
proof -
  have i: "inv n w" using reach_ok [OF assms(1)] assms(2) by (simp add: server_ok_def)
  note own = own_pose_update [OF i assms(4,3,5)]
  let ?i = "upose_EntityId req"
  note D = HandleEntityUpdatePose_def DataTo_def with_joined_def assms(4)
  show ?thesis
  proof (cases "EntityByID ?i (w_sess w sp)")
    case (Some en)
    show ?thesis
    proof (cases "e_ParticipantID en = p_ID (w_part w pp)")
      case True
      show ?thesis
      proof (cases "upose_Pose req")
        case None
        then show ?thesis by (simp add: Some True D)
      next
        case pose: (Some p)
        show ?thesis using own [OF Some True pose] by (simp only: Some True pose option.case simp_thms if_False)
      qed
    qed (simp add: Some D)
  qed (simp add: D)
qed

lemma update_pose_witness:
  "HandleEntityUpdatePose env0 1 (Inr \<lparr>upose_Timestamp = None, upose_EntityId = 1, upose_Pose = Some pose0\<rparr>) lobby =
    (Nil_error, lobby) \<and>
   HandleEntityUpdatePose env0 0 (Inr \<lparr>upose_Timestamp = None, upose_EntityId = 1, upose_Pose = None\<rparr>) lobby =
    (Panicked, lobby)"
proof -
  have *: "EntityByID 1 (w_sess lobby 0) = Some entity0" "e_ParticipantID entity0 = 1"
    "p_ID (w_part lobby 0) = 1" "p_ID (w_part lobby 1) = 2"
    by (simp_all add: lobby_def EntityByID_def session0_def entity0_def)
  have en: "\<And>m. encodes env0 m" by (simp add: env0_def)
  show ?thesis
    using update_pose [OF reach_lobby lobby_limit(2) env0_ok lobby_joined(2) en,
        where req = "\<lparr>upose_Timestamp = None, upose_EntityId = 1, upose_Pose = Some pose0\<rparr>"]
      update_pose [OF reach_lobby lobby_limit(2) env0_ok lobby_joined(1) en,
        where req = "\<lparr>upose_Timestamp = None, upose_EntityId = 1, upose_Pose = None\<rparr>"]
    by (simp add: * del: One_nat_def)
qed

section \<open>Components and their subscribers\<close>

text \<open>\<^verbatim>\<open>Notify\<close> on the subscribers of a type, as broadcasts use it.\<close>

lemma notify_targeted_out:
  assumes "company w c sp pp" and "env_ok e" and "encodes e m"
  shows "w_out (Notify (rangeU e) t (\<lambda>ids. broadcast_to e sp pp m ids) (ecs_at w sp) w) d =
    w_out w d @ (if d \<noteq> c \<and> listed w sp (subscribed (ecs_at w sp) t) d then [m] else [])"
proof (cases "subscriptions (ecs_at w sp) t")
  case (Some S)
  have "finite S" by simp
  then show ?thesis
    using assms(2,3) broadcast_to_out [OF assms(1)] Some
    by (auto simp: Notify_def subscribed_def listed_def)
qed (simp add: Notify_def subscribed_def listed_def)

lemma notify_all_out:
  assumes "company w c sp pp" and "env_ok e" and "encodes e m"
  shows "w_out (Notify (rangeU e) t (\<lambda>_. broadcast e sp pp m) (ecs_at w sp) w) d =
    w_out w d @ (if subscribed (ecs_at w sp) t \<noteq> {} \<and> d \<noteq> c \<and> hears w sp d then [m] else [])"
  using assms(3) broadcast_out [OF assms(1,2)]
  by (auto simp: Notify_def subscribed_def split: option.split)

text \<open>C26: Updating a component of an existing entity replaces the component when it exists and
  changes nothing when it does not; in both cases exactly the other subscribers of its type
  are told of the update, once each, whether or not there was anything to update.\<close>

theorem component_update:
  assumes "reach d n w" and "n < id_limit" and "env_ok e" and "joined w c = Some (sp, pp)"
    and "\<And>m. encodes e m"
    and "comp_TypeId req \<noteq> 0" and "comp_EntityId req \<noteq> 0"
    and "EntityByID (comp_EntityId req) (w_sess w sp) = Some en"
    and "ec = \<lparr>ec_TypeId = comp_TypeId req, ec_EntityId = comp_EntityId req, ec_Data = comp_Data req\<rparr>"
  shows "\<exists>w'. HandleEntityComponentUpdate e c (Inr req) w = (Nil_error, w') \<and>
    components (ecs_at w' sp) = (if components (ecs_at w sp) (comp_TypeId req, comp_EntityId req) = None
      then components (ecs_at w sp)
      else (components (ecs_at w sp))((comp_TypeId req, comp_EntityId req) \<mapsto> ec)) \<and>
    (\<forall>k. w_out w' k = w_out w k @
      (if k \<noteq> c \<and> FlagDisableEntityComponentUpdateBroadcast \<notin> FeatureFlags e \<and>
          listed w sp (subscribed (ecs_at w sp) (comp_TypeId req)) k
       then [ComponentAnswer (ComponentUpdateBroadcast (comp_Timestamp req) ec)] else []))"
proof -
  have i: "inv n w" using reach_ok [OF assms(1)] assms(2) by (simp add: server_ok_def)
  note M = inv_member(1) [OF i [unfolded inv_def] assms(4)]
  have id: "e_ID en = comp_EntityId req" using member_entity(1) [OF M assms(8)] .
  have ec: "ec_TypeId ec = comp_TypeId req" "ec_EntityId ec = comp_EntityId req" by (simp_all add: assms(9))
  let ?w = "upd_ecs sp (\<lambda>s. snd (ECUpdate ec s)) w"
    and ?m = "ComponentAnswer (ComponentUpdateBroadcast (comp_Timestamp req) ec)"
  have L: "local_step sp pp w ?w" by (rule local_step_upd_ecs)
  have E: "ecs_at ?w sp = snd (ECUpdate ec (ecs_at w sp))" by (simp add: ecs_at_def upd_ecs_def)
  define w' where "w' = snd (HandleEntityComponentUpdate e c (Inr req) w)"
  have H: "HandleEntityComponentUpdate e c (Inr req) w = (Nil_error, w')"
    and W: "w' = IfNotSet (FeatureFlags e) FlagDisableEntityComponentUpdateBroadcast
      (\<lambda>w. Notify (rangeU e) (comp_TypeId req) (\<lambda>ids. broadcast_to e sp pp ?m ids) (ecs_at w sp) w) ?w"
    by (simp_all add: w'_def HandleEntityComponentUpdate_def DataTo_def with_joined_def assms(4,6-9) Let_def id)
  have C: "company ?w c sp pp" using member_company [OF i assms(4)] by (simp only: company_local(1) [OF L])
  have "w_out w' k = w_out w k @
      (if k \<noteq> c \<and> FlagDisableEntityComponentUpdateBroadcast \<notin> FeatureFlags e \<and>
          listed w sp (subscribed (ecs_at w sp) (comp_TypeId req)) k then [?m] else [])" for k
    using notify_targeted_out [OF C assms(3,5), where m = ?m and t = "comp_TypeId req" and d = k]
    by (cases "k = c"; simp add: W IfNotSet_def E company_local(3) [OF L]; simp add: upd_ecs_def)
  moreover have "ecs_at w' sp = ecs_at ?w sp"
    using quiet_frame(1) [OF quiet_IfNotSet [OF quiet_Notify [OF quiet_broadcast_to]]]
    by (simp add: W ecs_at_def)
  then have "components (ecs_at w' sp) = (if components (ecs_at w sp) (comp_TypeId req, comp_EntityId req) = None
      then components (ecs_at w sp)
      else (components (ecs_at w sp))((comp_TypeId req, comp_EntityId req) \<mapsto> ec))"
    by (simp add: E components_ECUpdate fst_ECUpdate ec)
  ultimately show ?thesis using H by blast
qed

lemma component_update_witness:
  "w_out (snd (HandleEntityComponentUpdate env0 0 (Inr (tag_req [66])) tagged)) 1 = w_out tagged 1 @
    [ComponentAnswer (ComponentUpdateBroadcast None \<lparr>ec_TypeId = 1, ec_EntityId = 1, ec_Data = [66]\<rparr>)]"
proof -
  have "EntityByID 1 (w_sess tagged 0) = Some entity0"
    "listed tagged 0 (subscribed (ecs_at tagged 0) 1) 1"
    by (simp_all add: tagged_def watched_def lobby_def EntityByID_def session0_def listed_def subscribed_def
        ecs_at_def tags_def)
  moreover have "(8 :: nat) < id_limit" by (simp add: id_limit_def)
  ultimately show ?thesis
    using component_update [OF reach_tagged _ env0_ok tagged_joined(1), where req = "tag_req [66]" and en = entity0]
    by (auto simp: tag_req_def env0_def)
qed
lemma component_add_effect:
  assumes i: "inv n w" and e: "env_ok e" and j: "joined w c = Some (sp, pp)" and enc: "\<And>m. encodes e m"
    and req: "comp_TypeId req \<noteq> 0" "comp_EntityId req \<noteq> 0"
    and en: "EntityByID (comp_EntityId req) (w_sess w sp) = Some en"
    and EC: "ec = \<lparr>ec_TypeId = comp_TypeId req, ec_EntityId = comp_EntityId req, ec_Data = comp_Data req\<rparr>"
  obtains w' where "HandleEntityComponentAdd e c (Inr req) w = (Nil_error, w')"
    and "components (ecs_at w' sp) = (if fst (ECAdd ec (ecs_at w sp)) = None
      then (components (ecs_at w sp))((comp_TypeId req, comp_EntityId req) \<mapsto> ec) else components (ecs_at w sp))"
    and "\<forall>er. fst (ECAdd ec (ecs_at w sp)) = Some er \<longrightarrow> w_out w' = (w_out w)(c := w_out w c @
      [ErrorResponse (comp_RequestId req) (if er = TypeAlreadyAdded then CONFLICT else NOT_FOUND)])"
    and "\<forall>k. fst (ECAdd ec (ecs_at w sp)) = None \<longrightarrow> w_out w' k = w_out w k @
      (if k = c then [ComponentAnswer (ComponentAddResponse (comp_RequestId req))]
       else if hears w sp k \<and> FlagDisableEntityComponentAddBroadcast \<notin> FeatureFlags e \<and>
         subscribed (ecs_at w sp) (comp_TypeId req) \<noteq> {}
       then [ComponentAnswer (ComponentAddBroadcast (comp_Timestamp req) ec)] else [])"
proof -
  note M = inv_member(1) [OF i [unfolded inv_def] j]
  have id: "e_ID en = comp_EntityId req" using member_entity(1) [OF M en] .
  have ec: "ec_TypeId ec = comp_TypeId req" "ec_EntityId ec = comp_EntityId req" by (simp_all add: EC)
  let ?w = "upd_ecs sp (\<lambda>_. snd (ECAdd ec (ecs_at w sp))) w" and ?t = "comp_TypeId req"
    and ?m = "ComponentAnswer (ComponentAddBroadcast (comp_Timestamp req) ec)"
    and ?r = "ComponentAnswer (ComponentAddResponse (comp_RequestId req))"
  have E: "ecs_at ?w sp = snd (ECAdd ec (ecs_at w sp))" "w_out ?w = w_out w"
    by (simp_all add: ecs_at_def upd_ecs_def)
  define w' where "w' = snd (HandleEntityComponentAdd e c (Inr req) w)"
  have H: "HandleEntityComponentAdd e c (Inr req) w = (Nil_error, w')"
    and W: "w' = (case fst (ECAdd ec (ecs_at w sp)) of
        Some er \<Rightarrow> reply_error e c (comp_RequestId req) (if er = TypeAlreadyAdded then CONFLICT else NOT_FOUND) ?w
      | None \<Rightarrow> IfNotSet (FeatureFlags e) FlagDisableEntityComponentAddBroadcast
          (\<lambda>w. Notify (rangeU e) ?t (\<lambda>_. broadcast e sp pp ?m) (ecs_at w sp) w) (respond e c ?r ?w))"
    by (simp_all add: w'_def HandleEntityComponentAdd_def DataTo_def with_joined_def j req en EC Let_def id
        case_prod_beta split: option.split)
  have ecs': "ecs_at w' sp = ecs_at ?w sp"
    using quiet_frame(1) [OF quiet_IfNotSet [OF quiet_Notify [OF quiet_broadcast]]]
    by (simp add: W ecs_at_def split: option.split)
  have L: "local_step sp pp w (respond e c ?r ?w)"
    by (rule local_step_quiet [OF quiet_respond local_step_upd_ecs])
  have C: "company (respond e c ?r ?w) c sp pp"
    using member_company [OF i j] by (simp only: company_local(1) [OF L])
  have E': "ecs_at (respond e c ?r ?w) sp = snd (ECAdd ec (ecs_at w sp))"
    using E(1) by (simp add: ecs_at_def)
  have comps: "components (ecs_at w' sp) = (if fst (ECAdd ec (ecs_at w sp)) = None
      then (components (ecs_at w sp))((?t, comp_EntityId req) \<mapsto> ec) else components (ecs_at w sp))"
    by (simp add: ecs' E components_ECAdd ec)
  have err: "w_out w' = (w_out w)(c := w_out w c @
      [ErrorResponse (comp_RequestId req) (if er = TypeAlreadyAdded then CONFLICT else NOT_FOUND)])"
    if "fst (ECAdd ec (ecs_at w sp)) = Some er" for er
    using that enc by (simp add: W reply_error_def respond_def enqueue_def E(2))
  have out: "w_out w' k = w_out w k @ (if k = c then [?r]
      else if hears w sp k \<and> FlagDisableEntityComponentAddBroadcast \<notin> FeatureFlags e \<and>
        subscribed (ecs_at w sp) ?t \<noteq> {} then [?m] else [])"
    if "fst (ECAdd ec (ecs_at w sp)) = None" for k
    using notify_all_out [OF C e enc, where m = ?m and t = ?t and d = k]
    by (cases "k = c"; simp add: W that IfNotSet_def E' company_local(2) [OF L] respond_out enc E(2))
  show thesis by (rule that [OF H comps]) (intro allI impI err out; assumption)+
qed

text \<open>C27: Adding a component to an existing entity is refused with \<^verbatim>\<open>NOT_FOUND\<close> when the
  type is not registered and with \<^verbatim>\<open>CONFLICT\<close> when the entity has such a component. Otherwise
  the component is added and the sender answered; and as soon as the type has a subscriber,
  the component is announced to everybody else in the session, subscribed or not.\<close>

theorem component_add:
  assumes "reach d n w" and "n < id_limit" and "env_ok e" and "joined w c = Some (sp, pp)"
    and "\<And>m. encodes e m"
    and "comp_TypeId req \<noteq> 0" and "comp_EntityId req \<noteq> 0"
    and "EntityByID (comp_EntityId req) (w_sess w sp) = Some en"
    and "ec = \<lparr>ec_TypeId = comp_TypeId req, ec_EntityId = comp_EntityId req, ec_Data = comp_Data req\<rparr>"
  shows "\<exists>w'. HandleEntityComponentAdd e c (Inr req) w = (Nil_error, w') \<and>
    (if nameIndex (ecs_at w sp) (comp_TypeId req) = None
     then components (ecs_at w' sp) = components (ecs_at w sp) \<and>
       w_out w' = (w_out w)(c := w_out w c @ [ErrorResponse (comp_RequestId req) NOT_FOUND])
     else if components (ecs_at w sp) (comp_TypeId req, comp_EntityId req) \<noteq> None
     then components (ecs_at w' sp) = components (ecs_at w sp) \<and>
       w_out w' = (w_out w)(c := w_out w c @ [ErrorResponse (comp_RequestId req) CONFLICT])
     else components (ecs_at w' sp) = (components (ecs_at w sp))((comp_TypeId req, comp_EntityId req) \<mapsto> ec) \<and>
       (\<forall>k. w_out w' k = w_out w k @
         (if k = c then [ComponentAnswer (ComponentAddResponse (comp_RequestId req))]
          else if hears w sp k \<and> FlagDisableEntityComponentAddBroadcast \<notin> FeatureFlags e \<and>
            subscribed (ecs_at w sp) (comp_TypeId req) \<noteq> {}
          then [ComponentAnswer (ComponentAddBroadcast (comp_Timestamp req) ec)] else [])))"
proof -
  have i: "inv n w" using reach_ok [OF assms(1)] assms(2) by (simp add: server_ok_def)
  let ?t = "comp_TypeId req"
  obtain w' where H: "HandleEntityComponentAdd e c (Inr req) w = (Nil_error, w')"
    and comps: "components (ecs_at w' sp) = (if fst (ECAdd ec (ecs_at w sp)) = None
      then (components (ecs_at w sp))((?t, comp_EntityId req) \<mapsto> ec) else components (ecs_at w sp))"
    and err: "\<forall>er. fst (ECAdd ec (ecs_at w sp)) = Some er \<longrightarrow> w_out w' = (w_out w)(c := w_out w c @
      [ErrorResponse (comp_RequestId req) (if er = TypeAlreadyAdded then CONFLICT else NOT_FOUND)])"
    and out: "\<forall>k. fst (ECAdd ec (ecs_at w sp)) = None \<longrightarrow> w_out w' k = w_out w k @
      (if k = c then [ComponentAnswer (ComponentAddResponse (comp_RequestId req))]
       else if hears w sp k \<and> FlagDisableEntityComponentAddBroadcast \<notin> FeatureFlags e \<and>
         subscribed (ecs_at w sp) ?t \<noteq> {}
       then [ComponentAnswer (ComponentAddBroadcast (comp_Timestamp req) ec)] else [])"
    by (rule component_add_effect [OF i assms(3-9)])
  have ec: "ec_TypeId ec = ?t" "ec_EntityId ec = comp_EntityId req" by (simp_all add: assms(9))
  note F = fst_ECAdd [of ec "ecs_at w sp", unfolded ec]
  consider (none) "nameIndex (ecs_at w sp) ?t = None"
    | (dup) "nameIndex (ecs_at w sp) ?t \<noteq> None" "components (ecs_at w sp) (?t, comp_EntityId req) \<noteq> None"
    | (new) "nameIndex (ecs_at w sp) ?t \<noteq> None" "components (ecs_at w sp) (?t, comp_EntityId req) = None"
    by blast
  then show ?thesis
  proof cases
    case none
    then have F': "fst (ECAdd ec (ecs_at w sp)) = Some TypeNotAdded" by (simp add: F)
    show ?thesis using none err [rule_format, OF F'] comps by (intro exI [where x = w']) (simp add: H F' del: fun_upd_apply)
  next
    case dup
    then have F': "fst (ECAdd ec (ecs_at w sp)) = Some TypeAlreadyAdded" by (simp add: F)
    show ?thesis
      by (intro exI [where x = w']) (simp only: H comps F' err [rule_format, OF F'] dup if_False if_True simp_thms option.distinct)
  next
    case new
    then have F': "fst (ECAdd ec (ecs_at w sp)) = None" by (simp add: F)
    show ?thesis
      by (intro exI [where x = w']) (simp only: H comps F' out [rule_format, OF F'] new if_False if_True simp_thms)
  qed
qed

lemma component_add_witness:
  "w_out (snd (HandleEntityComponentAdd env0 0 (Inr (tag_req [66])) tagged)) 0 =
    w_out tagged 0 @ [ErrorResponse 5 CONFLICT]"
proof -
  have "EntityByID 1 (w_sess tagged 0) = Some entity0" "nameIndex (ecs_at tagged 0) 1 = Some ''tag''"
    "components (ecs_at tagged 0) (1, 1) = Some tag"
    by (simp_all add: tagged_def watched_def lobby_def EntityByID_def session0_def components_def
        ecs_at_def tags_def)
  moreover have "(8 :: nat) < id_limit" by (simp add: id_limit_def)
  ultimately show ?thesis
    using component_add [OF reach_tagged _ env0_ok tagged_joined(1), where req = "tag_req [66]" and en = entity0]
    by (auto simp: tag_req_def env0_def)
qed

end
