(* ===== verification/Loops.thy ===== *)
theory Loops
imports Relaying
begin

text \<open>
  The loop of \<^verbatim>\<open>handler.Handle\<close> over time: the bound of its channel of disconnections,
  what a full channel does, what a failure leads to, and what is left behind when the loop
  stops without handling its disconnection. All three are statements about every run of
  events from a reachable state.
\<close>

section \<open>The channel of disconnections\<close>

definition channels_ok :: "world \<Rightarrow> bool" where
  "channels_ok w \<longleftrightarrow> (\<forall>c k. w_loop w c = Running k \<longrightarrow> k \<le> disconnectChanSize)"

lemma channels_set: "channels_ok w \<Longrightarrow> (\<And>k. l = Running k \<Longrightarrow> k \<le> disconnectChanSize) \<Longrightarrow> channels_ok (set_loop c l w)"
  by (auto simp: channels_ok_def set_loop_def)

lemma channels_disconnect: "channels_ok w \<Longrightarrow> channels_ok (disconnect c w)"
  by (auto simp: disconnect_def intro!: channels_set split: loop.split)

lemma channels_handled: "channels_ok (snd r) \<Longrightarrow> channels_ok (handled c r)"
  by (auto simp: handled_def intro!: channels_set channels_disconnect split: prod.split outcome.split)

lemma channels_cong: "w_loop w' = w_loop w \<Longrightarrow> channels_ok w' = channels_ok w"
  by (simp add: channels_ok_def)

lemma reach_channels:
  assumes "reach d n w" and "n \<le> id_limit"
  shows "channels_ok w"
  using assms
proof (induction rule: reach.induct)
  case reach_init
  show ?case by (simp add: channels_ok_def init_world_def)
next
  case (reach_step n w e ev)
  have s: "server_ok n w" using reach_ok [OF reach_step(1)] reach_step.prems by simp
  have i: "inv n w" and n: "n < id_limit" using s reach_step.prems by (simp_all add: server_ok_def)
  have ch: "channels_ok w" using reach_step by simp
  show ?case
  proof (cases ev)
    case (Connect cid key)
    have "channels_ok (upd_hand (w_nextC w) h (w\<lparr>w_nextC := m\<rparr>))" for h m
      using ch by (simp add: channels_ok_def)
    then show ?thesis by (auto simp: exec_def Connect accept_conn_def Let_def intro: channels_set)
  next
    case (Message c msg)
    show ?thesis
    proof (cases "is_running w c")
      case True
      then have "w_loop w c \<noteq> NotStarted" by (auto simp: is_running_def)
      then have "c < w_nextC w" using s by (simp add: server_ok_def loops_ok_def)
      then have "w_loop (snd (handleMessage e c msg w)) = w_loop w"
        using handleMessage_inv [OF i reach_step(2) n, of c msg] by simp
      then have "channels_ok (snd (handleMessage e c msg w))"
        using ch channels_cong by blast
      then show ?thesis using channels_handled by (simp add: exec_def Message True)
    qed (simp add: exec_def Message ch)
  next
    case (SyncClockTick c)
    have "channels_ok (snd (SendSyncClock e c w))"
      using ch channels_cong [of "snd (SendSyncClock e c w)" w] by (simp add: SendSyncClock_def)
    then show ?thesis using ch channels_handled by (simp add: exec_def SyncClockTick)
  next
    case (TakeDisconnect c)
    have "channels_ok (HandleDisconnect e c w)"
      using ch channels_cong HandleDisconnect_loop [OF i reach_step(2)] by metis
    then show ?thesis
      using ch by (auto simp: exec_def TakeDisconnect handleDisconnect_def intro: channels_set split: loop.split nat.split)
  next
    case TakeReceipt
    then show ?thesis using ch by (simp add: exec_def channels_ok_def)
  qed (use ch in \<open>auto simp: exec_def intro!: channels_set channels_disconnect split: loop.split\<close>)
qed

text \<open>C13: The channel of pending disconnections never holds more than eight entries, and once it
  is full the loop cannot survive another failure of its own: a message whose handling fails,
  or the idle timeout, then blocks the loop on its own channel, and no event after that
  changes it or its connection's handler again.\<close>

theorem full_channel_blocks:
  assumes "reach d n w" and "n + length es < id_limit" and "env_ok e" and "\<forall>(e, ev) \<in> set es. env_ok e"
  shows "(w_loop w c = Running k \<longrightarrow> k \<le> disconnectChanSize) \<and>
    (w_loop w c = Running disconnectChanSize \<longrightarrow>
      (ev = IdleTimeout c \<or> (\<exists>msg err. ev = Message c msg \<and> fst (handleMessage e c msg w) = Failed err)) \<longrightarrow>
      w_loop (exec e ev w) c = Blocked \<and> w_loop (run es (exec e ev w)) c = Blocked \<and>
      w_hand (run es (exec e ev w)) c = w_hand (exec e ev w) c)"
proof -
  have n: "n < id_limit" using assms(2) by simp
  have s: "server_ok n w" using reach_ok [OF assms(1)] n by simp
  then have i: "inv n w" by (simp add: server_ok_def)
  have "w_loop (exec e ev w) c = Blocked \<and> w_loop (run es (exec e ev w)) c = Blocked \<and>
      w_hand (run es (exec e ev w)) c = w_hand (exec e ev w) c"
    if l: "w_loop w c = Running disconnectChanSize"
      and ev: "ev = IdleTimeout c \<or> (\<exists>msg err. ev = Message c msg \<and> fst (handleMessage e c msg w) = Failed err)"
  proof -
    have c: "c < w_nextC w" using s l by (simp add: server_ok_def loops_ok_def)
    have B: "w_loop (exec e ev w) c = Blocked"
      using ev
    proof (elim disjE exE conjE)
      assume "ev = IdleTimeout c"
      then show ?thesis by (simp add: exec_def disconnect_def l set_loop_def)
    next
      fix msg err assume "ev = Message c msg" and f: "fst (handleMessage e c msg w) = Failed err"
      moreover obtain w1 where w1: "handleMessage e c msg w = (Failed err, w1)"
        using f by (cases "handleMessage e c msg w") simp
      moreover have "w_loop w1 c = Running disconnectChanSize"
        using handleMessage_inv [OF i assms(3) n c, of msg] l by (simp add: w1)
      ultimately show ?thesis
        by (simp add: exec_def is_running_def l handled_def disconnect_def set_loop_def)
    qed
    have "server_ok (Suc n) (exec e ev w)" by (rule exec_inv [OF s assms(3) n])
    moreover have "stuck (exec e ev w) c" by (simp add: stuck_def is_running_def B)
    ultimately show ?thesis
      using run_stuck [of "Suc n" "exec e ev w" es c] assms(2,4) B by simp
  qed
  then show ?thesis using reach_channels [OF assms(1)] n by (simp add: channels_ok_def)
qed

text \<open>Eight messages that cannot be decoded, one after the other.\<close>

definition garbled :: "(Env \<times> event) list" where
  "garbled = replicate 8 (env0, Message 0 (PingRequest (Inl ErrDataTo)))"

lemma garbled_alone: "run garbled alone = set_loop 0 (Running 8) alone"
  by (simp add: garbled_def numeral_eq_Suc alone_def exec_def is_running_def handleMessage_def handle_core_def
      HandlePing_def DataTo_def handled_def disconnect_def set_loop_def disconnectChanSize_def)

lemma full_channel_blocks_witness:
  "w_loop (exec env0 (Message 0 (PingRequest (Inl ErrDataTo))) (run garbled alone)) 0 = Blocked"
proof -
  have "reach None 10 (run garbled alone)"
    using reach_run [OF reach_alone, of garbled] by (simp add: garbled_def)
  moreover have "10 + length ([] :: (Env \<times> event) list) < id_limit" by (simp add: id_limit_def)
  moreover have "w_loop (run garbled alone) 0 = Running disconnectChanSize"
    by (simp add: garbled_alone set_loop_def disconnectChanSize_def)
  moreover have "fst (handleMessage env0 0 (PingRequest (Inl ErrDataTo)) (run garbled alone)) = Failed ErrDataTo"
    by (simp add: handleMessage_def handle_core_def HandlePing_def DataTo_def)
  ultimately show ?thesis
    using full_channel_blocks [where w = "run garbled alone" and es = "[]" and e = env0 and n = 10 and c = 0
        and ev = "Message 0 (PingRequest (Inl ErrDataTo))"] env0_ok
    by (metis empty_iff list.set(1))
qed

section \<open>Participants left behind\<close>

text \<open>C14: A loop that stopped in any other way than by handling its disconnection (it crashed on
  a panic, blocked, or ended with its context) while its connection was in a session leaves
  the participant behind: whatever happens from then on, the connection counts as joined, and
  its participant and therefore the session stay.\<close>

theorem abandoned_participant_stays:
  assumes "reach d n w" and "n + length es \<le> id_limit" and "\<forall>(e, ev) \<in> set es. env_ok e"
    and "w_loop w c \<in> {Crashed, Blocked, Ended}" and "joined w c = Some (sp, pp)"
  shows "w_loop (run es w) c = w_loop w c \<and> joined (run es w) c = Some (sp, pp) \<and>
    s_participants (w_sess (run es w) sp) (p_ID (w_part (run es w) pp)) = Some pp \<and>
    (\<exists>v. find_session (w_store (run es w)) v = Some sp)"
proof -
  have s: "server_ok n w" using reach_ok [OF assms(1)] assms(2) by simp
  have "stuck w c" using assms(4) by (auto simp: stuck_def is_running_def)
  note R = run_stuck [OF s assms(3,2) this]
  have j: "joined (run es w) c = Some (sp, pp)" using assms(5) joined_at [OF R(1)] by simp
  have "inv (n + length es) (run es w)" using R(3) by (simp add: server_ok_def)
  then have "conn_ok (run es w) c sp pp"
    using conns_okD(3) [OF invD(1) j] by (simp add: inv_def)
  then have "s_participants (w_sess (run es w) sp) (p_ID (w_part (run es w) pp)) = Some pp"
    "sp \<in> stored (run es w)" by (auto elim: conn_okE)
  with R(2) j show ?thesis by (auto simp: stored_def)
qed

lemma abandoned_participant_stays_witness:
  "joined (exec env0 (TakeDisconnect 0) (exec env0 (Message 0 (EntityUpdatePose
     (Inr \<lparr>upose_Timestamp = None, upose_EntityId = 1, upose_Pose = None\<rparr>))) lobby)) 0 = Some (0, 0)"
proof -
  let ?w = "exec env0 (Message 0 (EntityUpdatePose
     (Inr \<lparr>upose_Timestamp = None, upose_EntityId = 1, upose_Pose = None\<rparr>))) lobby"
  have w: "?w = set_loop 0 Crashed lobby"
    by (simp add: lobby_def exec_def is_running_def handleMessage_def handle_core_def HandleEntityUpdatePose_def
        DataTo_def with_joined_def joined_def handler0_def EntityByID_def session0_def entity0_def handled_def)
  have "reach None (Suc 5) ?w" by (rule reach_step [OF reach_lobby env0_ok])
  moreover have "joined ?w 0 = Some (0, 0)" unfolding w using joined_hand [of "set_loop 0 Crashed lobby" lobby]
    by (simp add: set_loop_def)
  moreover have "w_loop ?w 0 = Crashed" unfolding w by (simp add: set_loop_def)
  ultimately show ?thesis
    using abandoned_participant_stays [where w = ?w and es = "[(env0, TakeDisconnect 0)]" and c = 0 and n = 6] env0_ok
    by (simp add: id_limit_def)
qed

text \<open>C12: As long as the channel has room, a failure leads to the end of the connection: once a
  message has failed, the connection was idle for too long or one of its goroutines has
  failed, taking the disconnection from the channel ends the loop, and the connection is in
  no session.\<close>

theorem failure_ends_connection:
  assumes "reach d n w" and "n < id_limit" and "env_ok e" and "env_ok e'"
    and "w_loop w c = Running k" and "k < disconnectChanSize"
    and "ev = IdleTimeout c \<or> ev = GoroutineError c \<or>
      (\<exists>msg err. ev = Message c msg \<and> fst (handleMessage e c msg w) = Failed err)"
  shows "w_loop (exec e ev w) c = Running (Suc k) \<and>
    w_loop (exec e' (TakeDisconnect c) (exec e ev w)) c = Ended \<and>
    joined (exec e' (TakeDisconnect c) (exec e ev w)) c = None"
proof -
  have s: "server_ok n w" using reach_ok [OF assms(1)] assms(2) by simp
  then have i: "inv n w" and c: "c < w_nextC w" using assms(5) by (simp_all add: server_ok_def loops_ok_def)
  have L: "w_loop (exec e ev w) c = Running (Suc k)"
    using assms(7)
  proof (elim disjE exE conjE)
    fix msg err assume "ev = Message c msg" and f: "fst (handleMessage e c msg w) = Failed err"
    moreover obtain w1 where w1: "handleMessage e c msg w = (Failed err, w1)"
      using f by (cases "handleMessage e c msg w") simp
    moreover have "w_loop w1 c = Running k"
      using handleMessage_inv [OF i assms(3,2) c, of msg] assms(5) by (simp add: w1)
    ultimately show ?thesis
      using assms(5,6) by (simp add: exec_def is_running_def handled_def disconnect_def set_loop_def)
  qed (use assms(5,6) in \<open>simp_all add: exec_def disconnect_def set_loop_def\<close>)
  let ?w = "exec e ev w"
  have "inv (Suc n) ?w" using exec_inv [OF s assms(3,2), of ev] by (simp add: server_ok_def)
  then have "joined (HandleDisconnect e' c ?w) c = None"
    using inv_leave(2) [OF _ assms(4)] not_joined(2) [OF invD(1), of "{}" "Suc n" "Suc n" ?w c]
    by (cases "joined ?w c") (auto simp: HandleDisconnect_def inv_def)
  then show ?thesis
    using L joined_at [of "set_loop c Ended (HandleDisconnect e' c ?w)" c "HandleDisconnect e' c ?w"]
    by (simp add: exec_def [of e' "TakeDisconnect c"] handleDisconnect_def set_loop_def)
qed

lemma failure_ends_connection_witness:
  "joined (exec env0 (TakeDisconnect 0) (exec env0 (IdleTimeout 0) lobby)) 0 = None"
  using failure_ends_connection [OF reach_lobby lobby_limit(2) env0_ok env0_ok, of 0 0 "IdleTimeout 0"]
  by (simp add: lobby_def disconnectChanSize_def)

end
