(* ===== verification/Receipts.thy ===== *)
theory Receipts
imports Loops "HOL-Library.Multiset"
begin

text \<open>
  \<^verbatim>\<open>receipt/handler.go\<close> and \<^verbatim>\<open>receipt/metrics.go\<close>: the loop that takes the receipts
  from the channel that \<^verbatim>\<open>HandleReceipt\<close> fills, verifies them, and posts the valid ones to
  the network credit service, each in a goroutine of its own. The hash, the recovery of a
  public key and the post itself are parameters. Proved: every receipt taken is accounted
  for, and the channel is a queue between the connections and the loop.
\<close>

section \<open>Verification and metrics\<close>

text \<open>The two ways in which a receipt is invalid; the second wraps the error of the library.\<close>

datatype VerifyError = HashMismatch | BadSignature string

text \<open>\<open>keccak\<close> and \<open>ecrecover\<close> are the functions of the Ethereum library; \<open>ecrecover\<close> returns an
  error or none, its key is not used.\<close>

definition VerifyPayload ::
  "(bytes \<Rightarrow> bytes) \<Rightarrow> (bytes \<Rightarrow> bytes \<Rightarrow> string option) \<Rightarrow> ReceiptPayload \<Rightarrow> VerifyError option" where
  "VerifyPayload keccak ecrecover payload =
    (let hash = keccak (map of_char (rp_Receipt payload))
     in if hash \<noteq> rp_Hash payload then Some HashMismatch
        else map_option BadSignature (ecrecover (rp_Hash payload) (rp_Signature payload)))"

text \<open>The counters by their labels, and the latencies that were observed.\<close>

record ReceiptMetrics =
  receiptSend :: "string \<Rightarrow> nat"
  receiptSendError :: "string \<times> string \<Rightarrow> nat"
  receiptSendLatency :: "string \<Rightarrow> int list"
  receiptVerificationError :: "string \<Rightarrow> nat"

definition noReceiptMetrics :: ReceiptMetrics where
  "noReceiptMetrics = \<lparr>receiptSend = (\<lambda>_. 0), receiptSendError = (\<lambda>_. 0), receiptSendLatency = (\<lambda>_. []),
     receiptVerificationError = (\<lambda>_. 0)\<rparr>"

text \<open>The function that is measured started and ended at the given readings of the clock and
  returned an error of the given type, or none.\<close>

definition instrumentReceiptSend ::
  "string \<Rightarrow> instant \<Rightarrow> instant \<Rightarrow> string option \<Rightarrow> ReceiptMetrics \<Rightarrow> ReceiptMetrics" where
  "instrumentReceiptSend endpoint start now err m =
    (let m1 = m\<lparr>receiptSendLatency := (receiptSendLatency m)
                (endpoint := receiptSendLatency m endpoint @ [time_Sub now start])\<rparr>;
         m2 = m1\<lparr>receiptSend := (receiptSend m1)(endpoint := Suc (receiptSend m1 endpoint))\<rparr>
     in case err of
          None \<Rightarrow> m2
        | Some t \<Rightarrow> m2\<lparr>receiptSendError := (receiptSendError m2)
            ((endpoint, t) := Suc (receiptSendError m2 (endpoint, t)))\<rparr>)"

definition instrumentReceiptVerification ::
  "(VerifyError \<Rightarrow> string) \<Rightarrow> VerifyError option \<Rightarrow> ReceiptMetrics \<Rightarrow> ReceiptMetrics" where
  "instrumentReceiptVerification errType res m =
    (case res of
       None \<Rightarrow> m
     | Some err \<Rightarrow> m\<lparr>receiptVerificationError := (receiptVerificationError m)
         (errType err := Suc (receiptVerificationError m (errType err)))\<rparr>)"

section \<open>The loop\<close>

text \<open>
  The state of the receipt handler: whether its loop runs, the goroutines of
  \<^verbatim>\<open>ForwardToNCS\<close> that have not finished, each with its payload, and the metrics. For the
  statements it also records what was taken from the channel and what was posted.
\<close>

record receipt_loop =
  rh_running :: bool
  rh_posting :: "ReceiptPayload list"
  rh_metrics :: ReceiptMetrics
  rh_taken :: "ReceiptPayload list"
  rh_posted :: "(ReceiptPayload \<times> string option) list"

definition idle_loop :: receipt_loop where
  "idle_loop = \<lparr>rh_running = True, rh_posting = [], rh_metrics = noReceiptMetrics, rh_taken = [], rh_posted = []\<rparr>"

text \<open>What comes from outside: the library functions, the type of an error, the endpoint.\<close>

record ReceiptEnv =
  keccak :: "bytes \<Rightarrow> bytes"
  ecrecover :: "bytes \<Rightarrow> bytes \<Rightarrow> string option"
  errType :: "VerifyError \<Rightarrow> string"
  NCSEndpoint :: string

definition ForwardToNCS :: "ReceiptPayload \<Rightarrow> receipt_loop \<Rightarrow> receipt_loop" where
  "ForwardToNCS payload h = h\<lparr>rh_posting := rh_posting h @ [payload]\<rparr>"

text \<open>The end of the goroutine at position \<open>k\<close>: its post returned.\<close>

definition PostReceipt ::
  "ReceiptEnv \<Rightarrow> nat \<Rightarrow> instant \<Rightarrow> instant \<Rightarrow> string option \<Rightarrow> receipt_loop \<Rightarrow> receipt_loop" where
  "PostReceipt v k start now err h =
    (if k < length (rh_posting h)
     then h\<lparr>rh_posting := take k (rh_posting h) @ drop (Suc k) (rh_posting h),
            rh_metrics := instrumentReceiptSend (NCSEndpoint v) start now err (rh_metrics h),
            rh_posted := rh_posted h @ [(rh_posting h ! k, err)]\<rparr>
     else h)"

text \<open>One turn of the loop: a payload arrives.\<close>

definition HandleReceipts :: "ReceiptEnv \<Rightarrow> ReceiptPayload \<Rightarrow> receipt_loop \<Rightarrow> receipt_loop" where
  "HandleReceipts v payload h =
    (let res = VerifyPayload (keccak v) (ecrecover v) payload;
         h1 = h\<lparr>rh_taken := rh_taken h @ [payload],
                rh_metrics := instrumentReceiptVerification (errType v) res (rh_metrics h)\<rparr>
     in case res of Some err \<Rightarrow> h1 | None \<Rightarrow> ForwardToNCS payload h1)"

datatype receipt_event =
    Arrives ReceiptPayload
  | Posted nat instant instant "string option"
  | Cancelled

fun receipt_step :: "ReceiptEnv \<Rightarrow> receipt_event \<Rightarrow> receipt_loop \<Rightarrow> receipt_loop" where
  "receipt_step v (Arrives p) h = (if rh_running h then HandleReceipts v p h else h)"
| "receipt_step v (Posted k start now err) h = PostReceipt v k start now err h"
| "receipt_step v Cancelled h = h\<lparr>rh_running := False\<rparr>"

definition receipt_run :: "ReceiptEnv \<Rightarrow> receipt_event list \<Rightarrow> receipt_loop" where
  "receipt_run v evs = fold (receipt_step v) evs idle_loop"

section \<open>Every receipt is accounted for\<close>

definition valid_receipt :: "ReceiptEnv \<Rightarrow> ReceiptPayload \<Rightarrow> bool" where
  "valid_receipt v p \<longleftrightarrow> keccak v (map of_char (rp_Receipt p)) = rp_Hash p \<and>
    ecrecover v (rp_Hash p) (rp_Signature p) = None"

lemma VerifyPayload_valid: "VerifyPayload (keccak v) (ecrecover v) p = None \<longleftrightarrow> valid_receipt v p"
  by (auto simp: VerifyPayload_def valid_receipt_def Let_def)

definition accounted :: "ReceiptEnv \<Rightarrow> receipt_loop \<Rightarrow> bool" where
  "accounted v h \<longleftrightarrow>
    mset (filter (valid_receipt v) (rh_taken h)) = mset (rh_posting h) + mset (map fst (rh_posted h)) \<and>
    (\<forall>t. receiptVerificationError (rh_metrics h) t =
      length (filter (\<lambda>p. \<exists>err. VerifyPayload (keccak v) (ecrecover v) p = Some err \<and> errType v err = t) (rh_taken h))) \<and>
    receiptSend (rh_metrics h) (NCSEndpoint v) = length (rh_posted h) \<and>
    length (receiptSendLatency (rh_metrics h) (NCSEndpoint v)) = length (rh_posted h) \<and>
    (\<forall>t. receiptSendError (rh_metrics h) (NCSEndpoint v, t) = length (filter (\<lambda>x. snd x = Some t) (rh_posted h)))"

lemma mset_remove_nth:
  "k < length xs \<Longrightarrow> mset xs = mset (take k xs @ drop (Suc k) xs) + {#xs ! k#}"
  by (subst id_take_nth_drop [of k xs]) simp_all

lemma accounted_step:
  assumes "accounted v h"
  shows "accounted v (receipt_step v ev h)"
proof (cases ev)
  case (Arrives p)
  show ?thesis
  proof (cases "VerifyPayload (keccak v) (ecrecover v) p")
    case None
    then have "valid_receipt v p" by (simp add: VerifyPayload_valid)
    then show ?thesis
      using assms None
      by (auto simp: Arrives accounted_def HandleReceipts_def ForwardToNCS_def instrumentReceiptVerification_def Let_def)
  next
    case (Some err)
    then have "\<not> valid_receipt v p" by (metis VerifyPayload_valid option.distinct(1))
    then show ?thesis
      using assms Some
      by (auto simp: Arrives accounted_def HandleReceipts_def instrumentReceiptVerification_def Let_def)
  qed
next
  case (Posted k start now err)
  show ?thesis
  proof (cases "k < length (rh_posting h)")
    case True
    then show ?thesis
      using assms mset_remove_nth [OF True]
      by (auto simp: Posted accounted_def PostReceipt_def instrumentReceiptSend_def Let_def split: option.split)
  qed (simp add: Posted PostReceipt_def assms)
qed (use assms in \<open>simp add: accounted_def\<close>)

lemma receipt_run_accounted: "accounted v (receipt_run v evs)"
  unfolding receipt_run_def
proof (rule fold_invariant_on [where I = "accounted v"])
  show "accounted v idle_loop"
    by (simp add: accounted_def idle_loop_def noReceiptMetrics_def)
qed (rule accounted_step)
text \<open>C21: Every receipt that the loop took is accounted for: a valid one is being posted or was
  posted, each exactly as often as it arrived, an invalid one is never posted and counted
  under the type of its error; every finished post is counted, and again if it failed, with
  one latency each. When no post is pending, the number of posts is the number of the
  valid receipts.\<close>

theorem receipts_accounted:
  "(\<forall>p. count (mset (rh_posting (receipt_run v evs))) p +
      count (mset (map fst (rh_posted (receipt_run v evs)))) p =
      (if valid_receipt v p then count (mset (rh_taken (receipt_run v evs))) p else 0)) \<and>
    (\<Sum>p\<leftarrow>rh_taken (receipt_run v evs). if valid_receipt v p then 1 else 0) =
      receiptSend (rh_metrics (receipt_run v evs)) (NCSEndpoint v) + length (rh_posting (receipt_run v evs)) \<and>
    length (receiptSendLatency (rh_metrics (receipt_run v evs)) (NCSEndpoint v)) =
      receiptSend (rh_metrics (receipt_run v evs)) (NCSEndpoint v) \<and>
    receiptSendError (rh_metrics (receipt_run v evs)) (NCSEndpoint v, t) =
      length (filter (\<lambda>x. snd x = Some t) (rh_posted (receipt_run v evs))) \<and>
    receiptVerificationError (rh_metrics (receipt_run v evs)) t =
      length (filter (\<lambda>p. \<exists>err. VerifyPayload (keccak v) (ecrecover v) p = Some err \<and> errType v err = t)
        (rh_taken (receipt_run v evs)))"
proof -
  let ?h = "receipt_run v evs"
  have A: "mset (filter (valid_receipt v) (rh_taken ?h)) = mset (rh_posting ?h) + mset (map fst (rh_posted ?h))"
    "\<And>t. receiptVerificationError (rh_metrics ?h) t =
      length (filter (\<lambda>p. \<exists>err. VerifyPayload (keccak v) (ecrecover v) p = Some err \<and> errType v err = t) (rh_taken ?h))"
    "receiptSend (rh_metrics ?h) (NCSEndpoint v) = length (rh_posted ?h)"
    "length (receiptSendLatency (rh_metrics ?h) (NCSEndpoint v)) = length (rh_posted ?h)"
    "\<And>t. receiptSendError (rh_metrics ?h) (NCSEndpoint v, t) = length (filter (\<lambda>x. snd x = Some t) (rh_posted ?h))"
    using receipt_run_accounted [of v evs] by (simp_all add: accounted_def)
  have "count (mset (rh_posting ?h)) p + count (mset (map fst (rh_posted ?h))) p =
      (if valid_receipt v p then count (mset (rh_taken ?h)) p else 0)" for p
    using arg_cong [OF A(1), of "\<lambda>m. count m p"] by simp
  moreover have "length (filter (valid_receipt v) (rh_taken ?h)) = length (rh_posted ?h) + length (rh_posting ?h)"
    using arg_cong [OF A(1), of size] by (simp only: size_union size_mset length_map add.commute)
  moreover have "(\<Sum>p\<leftarrow>ps. if valid_receipt v p then 1 else 0) = length (filter (valid_receipt v) ps)" for ps
    by (induction ps) simp_all
  ultimately show ?thesis using A(2-5) by simp
qed

section \<open>From the connections to the loop\<close>

text \<open>What a message adds to the channel of receipts.\<close>

definition accepted_receipt :: "world \<Rightarrow> event \<Rightarrow> ReceiptPayload list" where
  "accepted_receipt w ev =
    (case ev of
       Message c (ReceiptRequest (Inr req)) \<Rightarrow>
         if is_running w c \<and> rec_Receipt req \<noteq> '''' \<and> rec_Hash req \<noteq> [] \<and> rec_Signature req \<noteq> [] \<and>
           length (w_receipts w) < receiptChanSize
         then [\<lparr>rp_Receipt = rec_Receipt req, rp_Hash = rec_Hash req, rp_Signature = rec_Signature req\<rparr>]
         else []
     | _ \<Rightarrow> [])"

lemma leave_receipts: "w_receipts (leaveSession e c w) = w_receipts w"
proof -
  have loop: "w_receipts (fold (leave_entity e sp pp) ids w) = w_receipts w" for sp pp ids w
    by (rule fold_frame) (simp add: leave_entity_def upd_ecs_def split: option.split)
  have mods: "w_receipts (fold (mod_HandleDisconnect e) ms w) = w_receipts w" for ms w
  proof (rule fold_frame)
    fix m :: Module and w :: world
    show "w_receipts (mod_HandleDisconnect e m w) = w_receipts w"
    proof (cases "m_current m")
      case None
      then show ?thesis
        by (simp add: mod_HandleDisconnect_def Vikja_HandleDisconnect_def Odal_HandleDisconnect_def
            Dagaz_HandleDisconnect_def split: ModuleKind.split)
    next
      case (Some a)
      then show ?thesis using touchesD(8) [OF mod_Disc_touches, of m "fst a" "snd a"] by simp
    qed
  qed
  show ?thesis
    by (simp add: leaveSession_def Let_def loop mods upd_ecs_def case_prod_beta split: option.split)
qed

lemma join_session_receipts: "w_receipts (snd (join_session e c req sp w)) = w_receipts w"
proof -
  have I: "w_receipts (snd (snd (InitModules sp pp ms w))) = w_receipts w" for sp pp ms w
    using touchesD(8) [OF InitModules_touches] .
  have E: "w_receipts (snd (enter_session e c sp w)) = w_receipts w"
    using arg_cong [OF enter_session_world [of e c sp w], of w_receipts] by simp
  show ?thesis using E by (simp add: join_session_def Let_def case_prod_beta I)
qed

lemma join_receipts: "w_receipts (snd (HandleParticipantJoin e c data w)) = w_receipts w"
proof (cases data)
  case (Inr req)
  have C: "w_receipts (snd (create_session e c w)) = w_receipts w" for w
    by (simp add: create_session_def Let_def case_prod_beta)
  show ?thesis
    by (simp add: Inr HandleParticipantJoin_def DataTo_def Let_def case_prod_beta leave_receipts
        join_session_receipts C split: option.split)
qed (simp add: HandleParticipantJoin_def DataTo_def)

lemma modules_receipts: "w_receipts (snd (run_modules e c ms msg w)) = w_receipts w"
proof (induction ms arbitrary: w)
  case (Cons m ms)
  obtain out w1 where H: "HandleWithModule e c m msg w = (out, w1)" by fastforce
  have "w_receipts (snd (mod_HandleMsg e c m msg w)) = w_receipts w"
  proof (cases "m_current m")
    case None
    then show ?thesis
      by (simp add: mod_HandleMsg_def Vikja_HandleMsg_def Odal_HandleMsg_def Vikja_handleParticipantJoin_def
          Odal_handleParticipantJoin_def Vikja_handleEntityDelete_def Odal_handleEntityDelete_def
          Vikja_handleSetEntityAction_def Odal_handleAssetInstanceAdd_def
          Dagaz_Msg_not_joined split: ModuleKind.split Msg.split sum.split option.split)
  next
    case (Some a)
    then show ?thesis using touchesD(8) [OF mod_Msg_touches, of m "fst a" "snd a"] by simp
  qed
  then have "w_receipts w1 = w_receipts w"
    using H by (auto simp: HandleWithModule_def split: if_splits prod.splits outcome.splits)
  then show ?case using Cons [of w1] by (cases out) (simp_all add: H)
qed simp

lemma plain_receipts:
  assumes "inv n w" and "env_ok e" and "n < id_limit" and "plain msg"
  shows "w_receipts (snd (handle_core e c msg w)) = w_receipts w"
proof (cases "joined w c")
  case None
  then have "idle w (snd (handle_core e c msg w))"
    using handle_core_idle [OF _ assms(4), of w c e]
      not_joined [OF invD(1) [OF assms(1) [unfolded inv_def]], of c] by simp
  then show ?thesis by (auto simp: idle_def)
next
  case (Some a)
  then have "core_step n msg (fst a) (snd a) w (snd (handle_core e c msg w))"
    using inv_member(1) [OF assms(1) [unfolded inv_def]] handle_core_step [OF _ assms(2,3,4)] by simp
  then show ?thesis by (auto simp: core_step_def dest: local_stepD(16))
qed

lemma handleMessage_receipts:
  assumes "inv n w" and "env_ok e" and "n < id_limit" and "is_running w c"
  shows "w_receipts (snd (handleMessage e c msg w)) = w_receipts w @ accepted_receipt w (Message c msg)"
proof -
  obtain out w1 where C: "handle_core e c msg w = (out, w1)" by fastforce
  have M: "w_receipts (snd (handleMessage e c msg w)) = w_receipts w1"
    by (cases out) (simp_all add: handleMessage_def C modules_receipts)
  have "w_receipts w1 = w_receipts w @ accepted_receipt w (Message c msg)"
  proof (cases msg)
    case (ReceiptRequest data)
    then show ?thesis
      using C assms(4) by (cases data)
        (auto simp: handle_core_def HandleReceipt_def DataTo_def accepted_receipt_def split: if_splits)
  next
    case (ParticipantJoinRequest data)
    then show ?thesis
      using C join_receipts [of e c data w] by (simp add: handle_core_def accepted_receipt_def)
  qed (use C plain_receipts [OF assms(1-3), of msg c] in \<open>simp_all add: accepted_receipt_def plain_def\<close>)
  then show ?thesis using M by simp
qed

text \<open>The server and the receipt loop together: when the loop takes a receipt, it is the oldest
  one in the channel.\<close>

definition exec_server ::
  "ReceiptEnv \<Rightarrow> Env \<Rightarrow> event \<Rightarrow> world \<times> receipt_loop \<Rightarrow> world \<times> receipt_loop" where
  "exec_server v e ev = (\<lambda>(w, h).
    if ev = TakeReceipt
    then (case w_receipts w of
            [] \<Rightarrow> (w, h)
          | p # ps \<Rightarrow> if rh_running h then (exec e ev w, HandleReceipts v p h) else (w, h))
    else (exec e ev w, h))"

lemma HandleReceipts_taken: "rh_taken (HandleReceipts v p h) = rh_taken h @ [p]"
  by (simp add: HandleReceipts_def ForwardToNCS_def Let_def split: option.split)

lemma exec_receipts:
  assumes "server_ok n w" and "env_ok e" and "n < id_limit" and "ev \<noteq> TakeReceipt"
  shows "w_receipts (exec e ev w) = w_receipts w @ accepted_receipt w ev"
proof (cases ev)
  case (Message c msg)
  have i: "inv n w" using assms(1) by (simp add: server_ok_def)
  have R: "w_receipts (handled c r) = w_receipts (snd r)" for r
    by (simp add: handled_def disconnect_def set_loop_def split: prod.split outcome.split loop.split)
  show ?thesis
  proof (cases "is_running w c")
    case True
    then show ?thesis using handleMessage_receipts [OF i assms(2,3) True] by (simp add: exec_def Message R)
  next
    case False
    then show ?thesis
      by (simp add: exec_def Message accepted_receipt_def split: Msg.split sum.split)
  qed
next
  case (TakeDisconnect c)
  then show ?thesis
    by (simp add: exec_def accepted_receipt_def handleDisconnect_def HandleDisconnect_def set_loop_def
        leave_receipts split: loop.split nat.split)
qed (use assms(4) in \<open>simp_all add: exec_def accepted_receipt_def accept_conn_def handled_def SendSyncClock_def
      disconnect_def set_loop_def Let_def split: loop.split\<close>)

text \<open>C20: The channel of receipts is a queue: in every event, what the loop has taken so far,
  followed by what is in the channel, only grows, and only by the receipt that the event
  accepted. So receipts are taken in the order in which they were accepted, none is lost or
  taken twice. The channel never holds more than 128.\<close>

theorem receipts_are_queued:
  assumes "reach d n w" and "n < id_limit" and "env_ok e" and "exec_server v e ev (w, h) = (w', h')"
  shows "rh_taken h' @ w_receipts w' = rh_taken h @ w_receipts w @ accepted_receipt w ev \<and>
    length (w_receipts w') \<le> 128"
proof -
  have s: "server_ok n w" using reach_ok [OF assms(1)] assms(2) by simp
  then have l: "length (w_receipts w) \<le> receiptChanSize"
    using invD(4) by (auto simp: server_ok_def inv_def)
  show ?thesis
  proof (cases "ev = TakeReceipt")
    case True
    then show ?thesis
      using assms(4) l by (auto simp: exec_server_def exec_def accepted_receipt_def HandleReceipts_taken
          receiptChanSize_def split: list.splits if_splits)
  next
    case False
    have "inv (Suc n) (exec e ev w)" using exec_inv [OF s assms(3,2)] by (simp add: server_ok_def)
    then have "length (w_receipts (exec e ev w)) \<le> 128"
      using invD(4) by (auto simp: inv_def receiptChanSize_def)
    then show ?thesis
      using assms(4) False exec_receipts [OF s assms(3,2) False] by (auto simp: exec_server_def)
  qed
qed

definition receipt0 :: ReceiptPayload where
  "receipt0 = \<lparr>rp_Receipt = ''r'', rp_Hash = [1], rp_Signature = [2]\<rparr>"

definition receipt_env0 :: ReceiptEnv where
  "receipt_env0 = \<lparr>keccak = (\<lambda>_. [1]), ecrecover = (\<lambda>_ _. None), errType = (\<lambda>_. ''''), NCSEndpoint = ''ncs''\<rparr>"

lemma receipts_are_queued_witness:
  "accepted_receipt lobby (Message 0 (ReceiptRequest (Inr \<lparr>rec_RequestId = 1, rec_Receipt = ''r'', rec_Hash = [1],
      rec_Signature = [2]\<rparr>))) = [receipt0] \<and>
   w_receipts (fst (exec_server receipt_env0 env0 (Message 0 (ReceiptRequest (Inr \<lparr>rec_RequestId = 1,
      rec_Receipt = ''r'', rec_Hash = [1], rec_Signature = [2]\<rparr>))) (lobby, idle_loop))) = [receipt0]"
proof -
  let ?ev = "Message 0 (ReceiptRequest (Inr \<lparr>rec_RequestId = 1, rec_Receipt = ''r'', rec_Hash = [1], rec_Signature = [2]\<rparr>))"
  obtain w' h' where E: "exec_server receipt_env0 env0 ?ev (lobby, idle_loop) = (w', h')" by fastforce
  have A: "accepted_receipt lobby ?ev = [receipt0]" "w_receipts lobby = []"
    by (simp_all add: accepted_receipt_def lobby_def is_running_def receipt0_def receiptChanSize_def)
  have "h' = idle_loop" using E by (simp add: exec_server_def)
  then have "rh_taken h' = []" by (simp add: idle_loop_def)
  then show ?thesis
    using receipts_are_queued [OF reach_lobby lobby_limit(2) env0_ok E] A E
    by (simp add: idle_loop_def)
qed

lemma receipts_accounted_witness:
  "receiptSend (rh_metrics (receipt_run receipt_env0
     [Arrives receipt0, Arrives (receipt0\<lparr>rp_Hash := []\<rparr>), Posted 0 5 9 None])) ''ncs'' = 1 \<and>
   receiptVerificationError (rh_metrics (receipt_run receipt_env0
     [Arrives receipt0, Arrives (receipt0\<lparr>rp_Hash := []\<rparr>), Posted 0 5 9 None])) '''' = 1"
  using receipts_accounted [of receipt_env0 "[Arrives receipt0, Arrives (receipt0\<lparr>rp_Hash := []\<rparr>), Posted 0 5 9 None]" "''''"]
  by (simp add: receipt_run_def idle_loop_def HandleReceipts_def VerifyPayload_def receipt_env0_def receipt0_def
      ForwardToNCS_def PostReceipt_def valid_receipt_def instrumentReceiptVerification_def)

end
