(* ===== verification/Metering.thy ===== *)
theory Metering
imports Receipts
begin

text \<open>
  \<^verbatim>\<open>websocket/metrics.go\<close>: the wrapper that measures the handler of each connection, and
  the server whose connections have it. The wrapper defines some of the handlers and inherits
  the others; \<open>metered_exec\<close> is the step of the server on the wrapped handlers. Proved: the
  wrapper is transparent, and the gauge of connected clients counts the connections, but for
  those whose context was cancelled. The time a call takes and the names of the message
  types are parameters. The counters are natural numbers; the library keeps them as floats
  with 53 bits, which are exact as long as the counts stay below \<open>2 ^ 53\<close>.
\<close>

section \<open>The metrics\<close>

text \<open>Each vector of metrics is a function of its labels. The labels are the public endpoint,
  the type of the error, the type of the message, the module and the app key, in this order,
  as far as a metric has them. A histogram is the list of its observations.\<close>

record Metrics =
  wsConnectedClients :: "string \<times> string \<Rightarrow> int"
  wsReceivedMsgs :: "string \<times> string \<times> string \<Rightarrow> nat"
  wsReceivedBytes :: "string \<times> string \<times> string \<Rightarrow> nat"
  wsReceiveError :: "string \<times> string \<times> string \<Rightarrow> nat"
  wsSentMsgs :: "string \<times> string \<times> string \<Rightarrow> nat"
  wsSentBytes :: "string \<times> string \<times> string \<Rightarrow> nat"
  wsSendError :: "string \<times> string \<times> string \<times> string \<Rightarrow> nat"
  wsMsgLatency :: "string \<times> string \<times> string \<Rightarrow> int list"

definition noMetrics :: Metrics where
  "noMetrics = \<lparr>wsConnectedClients = (\<lambda>_. 0), wsReceivedMsgs = (\<lambda>_. 0), wsReceivedBytes = (\<lambda>_. 0),
     wsReceiveError = (\<lambda>_. 0), wsSentMsgs = (\<lambda>_. 0), wsSentBytes = (\<lambda>_. 0), wsSendError = (\<lambda>_. 0),
     wsMsgLatency = (\<lambda>_. [])\<rparr>"

definition bump :: "'k \<Rightarrow> nat \<Rightarrow> ('k \<Rightarrow> nat) \<Rightarrow> 'k \<Rightarrow> nat" where
  "bump k n f = f(k := f k + n)"

text \<open>The wrappers of all connections share the metrics; each has the app key of its own
  connection.\<close>

record metered =
  mt_metrics :: Metrics
  mt_appKey :: "conn \<Rightarrow> string"

text \<open>What the wrapper takes from outside: the configured endpoint, the name of a message type,
  and how long a call took in this step.\<close>

record MeterEnv =
  publicEndpoint :: string
  typeString :: "Msg \<Rightarrow> string"
  syncClockType :: string
  elapsed :: "string \<Rightarrow> int"

definition defaultModule :: string where
  "defaultModule = ''hagall''"

definition Metrics_HandleConnect :: "MeterEnv \<Rightarrow> conn \<Rightarrow> string \<Rightarrow> metered \<Rightarrow> metered" where
  "Metrics_HandleConnect v c appKey m =
    m\<lparr>mt_appKey := (mt_appKey m)(c := appKey),
      mt_metrics := (mt_metrics m)\<lparr>wsConnectedClients := (wsConnectedClients (mt_metrics m))
        ((publicEndpoint v, appKey) := wsConnectedClients (mt_metrics m) (publicEndpoint v, appKey) + 1)\<rparr>\<rparr>"

definition Metrics_HandleDisconnect :: "MeterEnv \<Rightarrow> conn \<Rightarrow> metered \<Rightarrow> metered" where
  "Metrics_HandleDisconnect v c m =
    m\<lparr>mt_metrics := (mt_metrics m)\<lparr>wsConnectedClients := (wsConnectedClients (mt_metrics m))
        ((publicEndpoint v, mt_appKey m c) :=
          wsConnectedClients (mt_metrics m) (publicEndpoint v, mt_appKey m c) - 1)\<rparr>\<rparr>"

text \<open>A panic of the measured function passes through, one that never returns is not observed; a skipped message is not observed.\<close>

definition measureLatency ::
  "MeterEnv \<Rightarrow> string \<Rightarrow> string \<Rightarrow> (world \<Rightarrow> outcome \<times> world) \<Rightarrow> metered \<times> world \<Rightarrow>
    outcome \<times> metered \<times> world" where
  "measureLatency v msgType moduleName f = (\<lambda>(m, w).
    let (out, w') = f w;
        k = (publicEndpoint v, msgType, moduleName)
    in if out = Panicked \<or> out = Endless \<or> out = Failed ErrModuleMsgSkip then (out, m, w')
       else (out,
         m\<lparr>mt_metrics := (mt_metrics m)\<lparr>wsMsgLatency := (wsMsgLatency (mt_metrics m))
            (k := wsMsgLatency (mt_metrics m) k @ [elapsed v moduleName])\<rparr>\<rparr>, w'))"

text \<open>The handlers that the wrapper does not define are those of the wrapped handler.\<close>

definition embedded ::
  "(world \<Rightarrow> outcome \<times> world) \<Rightarrow> metered \<times> world \<Rightarrow> outcome \<times> metered \<times> world" where
  "embedded f = (\<lambda>(m, w). let (out, w') = f w in (out, m, w'))"

definition Metrics_handle_core ::
  "MeterEnv \<Rightarrow> Env \<Rightarrow> conn \<Rightarrow> Msg \<Rightarrow> metered \<times> world \<Rightarrow> outcome \<times> metered \<times> world" where
  "Metrics_handle_core v e c msg =
    (case msg of
       PingRequest data \<Rightarrow> measureLatency v (typeString v msg) defaultModule (HandlePing e c data)
     | PingResponseMsg data \<Rightarrow> measureLatency v (typeString v msg) defaultModule (HandlePingResponse e c data)
     | SignedLatencyRequest data \<Rightarrow> measureLatency v (typeString v msg) defaultModule (HandleSignedLatency e c data)
     | ParticipantJoinRequest data \<Rightarrow> measureLatency v (typeString v msg) defaultModule (HandleParticipantJoin e c data)
     | EntityAddRequest data \<Rightarrow> measureLatency v (typeString v msg) defaultModule (HandleEntityAdd e c data)
     | EntityDeleteRequest data \<Rightarrow> measureLatency v (typeString v msg) defaultModule (HandleEntityDelete e c data)
     | EntityUpdatePose data \<Rightarrow> measureLatency v (typeString v msg) defaultModule (HandleEntityUpdatePose e c data)
     | CustomMessage data \<Rightarrow> embedded (HandleCustomMessage e c data)
     | ComponentMessage cm \<Rightarrow> embedded (handle_component e c cm)
     | ReceiptRequest data \<Rightarrow> embedded (HandleReceipt e c data)
     | _ \<Rightarrow> embedded (\<lambda>w. (Nil_error, w)))"

definition Metrics_HandleWithModule ::
  "MeterEnv \<Rightarrow> Env \<Rightarrow> conn \<Rightarrow> Module \<Rightarrow> Msg \<Rightarrow> metered \<times> world \<Rightarrow> outcome \<times> metered \<times> world" where
  "Metrics_HandleWithModule v e c m msg =
    measureLatency v (typeString v msg) (mod_Name m) (HandleWithModule e c m msg)"

definition Metrics_SendSyncClock ::
  "MeterEnv \<Rightarrow> Env \<Rightarrow> conn \<Rightarrow> metered \<times> world \<Rightarrow> outcome \<times> metered \<times> world" where
  "Metrics_SendSyncClock v e c = measureLatency v (syncClockType v) defaultModule (SendSyncClock e c)"

text \<open>The results of the wrapped receiver and sender: the type of the message, the number of
  bytes, and the type of the error, if any.\<close>

definition Metrics_Receiver ::
  "MeterEnv \<Rightarrow> conn \<Rightarrow> string \<Rightarrow> nat \<Rightarrow> string option \<Rightarrow> metered \<Rightarrow> metered" where
  "Metrics_Receiver v c msgType n err m =
    (let s = mt_metrics m;
         s1 = (case err of
                 Some t \<Rightarrow> s\<lparr>wsReceiveError := bump (publicEndpoint v, t, mt_appKey m c) 1 (wsReceiveError s)\<rparr>
               | None \<Rightarrow> s\<lparr>wsReceivedMsgs := bump (publicEndpoint v, msgType, mt_appKey m c) 1 (wsReceivedMsgs s)\<rparr>);
         s2 = (if n \<noteq> 0
               then s1\<lparr>wsReceivedBytes := bump (publicEndpoint v, msgType, mt_appKey m c) n (wsReceivedBytes s1)\<rparr>
               else s1)
     in m\<lparr>mt_metrics := s2\<rparr>)"

definition Metrics_Sender ::
  "MeterEnv \<Rightarrow> conn \<Rightarrow> string \<Rightarrow> nat \<Rightarrow> string option \<Rightarrow> metered \<Rightarrow> metered" where
  "Metrics_Sender v c msgType n err m =
    (let s = mt_metrics m;
         s1 = (case err of
                 Some t \<Rightarrow> s\<lparr>wsSendError := bump (publicEndpoint v, t, msgType, mt_appKey m c) 1 (wsSendError s)\<rparr>
               | None \<Rightarrow> s);
         s2 = (if n \<noteq> 0
               then s1\<lparr>wsSentMsgs := bump (publicEndpoint v, msgType, mt_appKey m c) 1 (wsSentMsgs s1),
                       wsSentBytes := bump (publicEndpoint v, msgType, mt_appKey m c) n (wsSentBytes s1)\<rparr>
               else s1)
     in m\<lparr>mt_metrics := s2\<rparr>)"

section \<open>The dispatch and the loop on the wrapped handler\<close>

fun metered_modules ::
  "MeterEnv \<Rightarrow> Env \<Rightarrow> conn \<Rightarrow> Module list \<Rightarrow> Msg \<Rightarrow> metered \<times> world \<Rightarrow> outcome \<times> metered \<times> world" where
  "metered_modules v e c [] msg s = (Nil_error, s)"
| "metered_modules v e c (m # ms) msg s =
    (case Metrics_HandleWithModule v e c m msg s of
       (Nil_error, s1) \<Rightarrow> metered_modules v e c ms msg s1
     | (out, s1) \<Rightarrow> (out, s1))"

definition metered_message ::
  "MeterEnv \<Rightarrow> Env \<Rightarrow> conn \<Rightarrow> Msg \<Rightarrow> metered \<times> world \<Rightarrow> outcome \<times> metered \<times> world" where
  "metered_message v e c msg s =
    (case Metrics_handle_core v e c msg s of
       (Nil_error, s1) \<Rightarrow>
         if joined (snd s1) c = None then (Nil_error, s1)
         else metered_modules v e c (h_Modules (w_hand (snd s1) c)) msg s1
     | (out, s1) \<Rightarrow> (out, s1))"

definition metered_exec :: "MeterEnv \<Rightarrow> Env \<Rightarrow> event \<Rightarrow> metered \<times> world \<Rightarrow> metered \<times> world" where
  "metered_exec v e ev = (\<lambda>(m, w).
    case ev of
      Connect clientID appKey \<Rightarrow> (Metrics_HandleConnect v (w_nextC w) appKey m, exec e ev w)
    | Message c msg \<Rightarrow>
        if is_running w c then (let (out, m', w') = metered_message v e c msg (m, w) in (m', handled c (out, w')))
        else (m, w)
    | SyncClockTick c \<Rightarrow>
        if is_running w c then (let (out, m', w') = Metrics_SendSyncClock v e c (m, w) in (m', handled c (out, w')))
        else (m, w)
    | TakeDisconnect c \<Rightarrow>
        (case w_loop w c of
           Running (Suc k) \<Rightarrow> (Metrics_HandleDisconnect v c m, exec e ev w)
         | _ \<Rightarrow> (m, w))
    | _ \<Rightarrow> (m, exec e ev w))"

fun metered_run :: "MeterEnv \<Rightarrow> (Env \<times> event) list \<Rightarrow> metered \<times> world \<Rightarrow> metered \<times> world" where
  "metered_run v [] s = s"
| "metered_run v ((e, ev) # es) s = metered_run v es (metered_exec v e ev s)"

definition metered_init :: "string option \<Rightarrow> metered \<times> world" where
  "metered_init d = (\<lparr>mt_metrics = noMetrics, mt_appKey = (\<lambda>_. '''')\<rparr>, init_world d)"

section \<open>Transparency\<close>

text \<open>The projection of a result to what the wrapped handler computes.\<close>

definition bare :: "outcome \<times> metered \<times> world \<Rightarrow> outcome \<times> world" where
  "bare r = (fst r, snd (snd r))"

lemma bare_measure [simp]: "bare (measureLatency v t n f (m, w)) = f w"
  by (simp add: bare_def measureLatency_def Let_def split: prod.split)

lemma bare_embedded [simp]: "bare (embedded f (m, w)) = f w"
  by (simp add: bare_def embedded_def split: prod.split)

lemma bare_core: "bare (Metrics_handle_core v e c msg (m, w)) = handle_core e c msg w"
  by (cases msg) (simp_all add: Metrics_handle_core_def handle_core_def)

lemma bare_modules: "bare (metered_modules v e c ms msg s) = run_modules e c ms msg (snd s)"
proof (induction ms arbitrary: s)
  case (Cons k ms)
  obtain m w where s: "s = (m, w)" by (cases s)
  obtain out m1 w1 where R: "Metrics_HandleWithModule v e c k msg (m, w) = (out, m1, w1)" by (metis prod.exhaust)
  have "HandleWithModule e c k msg w = (out, w1)"
    using bare_measure [of v "typeString v msg" "mod_Name k" "HandleWithModule e c k msg" m w] R
    by (simp add: Metrics_HandleWithModule_def bare_def)
  then show ?case using Cons [of "(m1, w1)"] by (cases out) (simp_all add: s R bare_def)
qed (simp add: bare_def)

lemma bare_message: "bare (metered_message v e c msg (m, w)) = handleMessage e c msg w"
proof -
  obtain out m1 w1 where R: "Metrics_handle_core v e c msg (m, w) = (out, m1, w1)" by (metis prod.exhaust)
  have "handle_core e c msg w = (out, w1)" using bare_core [of v e c msg m w] R by (simp add: bare_def)
  then show ?thesis
    using bare_modules [of v e c _ msg "(m1, w1)"]
    by (cases out) (simp_all add: metered_message_def handleMessage_def R bare_def)
qed

lemma metered_exec_world: "snd (metered_exec v e ev s) = exec e ev (snd s)"
proof -
  obtain m w where s: "s = (m, w)" by (cases s)
  show ?thesis
  proof (cases ev)
    case (Message c msg)
    obtain out m' w' where R: "metered_message v e c msg (m, w) = (out, m', w')" by (metis prod.exhaust)
    then have "handleMessage e c msg w = (out, w')" using bare_message [of v e c msg m w] by (simp add: bare_def)
    then show ?thesis by (simp add: s Message metered_exec_def exec_def R)
  next
    case (SyncClockTick c)
    obtain out m' w' where R: "Metrics_SendSyncClock v e c (m, w) = (out, m', w')" by (metis prod.exhaust)
    then have "SendSyncClock e c w = (out, w')"
      using bare_measure [of v "syncClockType v" defaultModule "SendSyncClock e c" m w]
      by (simp add: bare_def Metrics_SendSyncClock_def)
    then show ?thesis by (simp add: s SyncClockTick metered_exec_def exec_def R)
  qed (simp_all add: s metered_exec_def exec_def split: loop.split nat.split)
qed
lemma metered_run_world: "snd (metered_run v es s) = run es (snd s)"
proof (induction es arbitrary: s)
  case (Cons x es)
  then show ?case by (cases x) (simp add: metered_exec_world)
qed simp

text \<open>C28: Measuring changes nothing: on any run, from any state, the server with the wrapper goes
  through the same states as the server without it, and each message has the same outcome.\<close>

theorem metering_is_transparent:
  "snd (metered_run v es s) = run es (snd s) \<and>
    bare (metered_message v e c msg s) = handleMessage e c msg (snd s)"
proof
  show "snd (metered_run v es s) = run es (snd s)" by (rule metered_run_world)
  show "bare (metered_message v e c msg s) = handleMessage e c msg (snd s)"
    using bare_message [of v e c msg "fst s" "snd s"] by simp
qed

section \<open>What a message adds to the latencies\<close>

text \<open>The realtime handler turns the error of a skipped message into none, so the wrapper
  around it never sees a skipped message: it observes every module on every message.\<close>

lemma skip_is_never_seen: "fst (HandleWithModule e c m msg w) \<noteq> Failed ErrModuleMsgSkip"
  by (auto simp: HandleWithModule_def split: prod.split outcome.split)

lemma module_is_observed:
  assumes "Metrics_HandleWithModule v e c k msg (m, w) = (out, m', w')" and "out \<noteq> Panicked" and "out \<noteq> Endless"
  shows "wsMsgLatency (mt_metrics m') (publicEndpoint v, typeString v msg, mod_Name k) =
    wsMsgLatency (mt_metrics m) (publicEndpoint v, typeString v msg, mod_Name k) @ [elapsed v (mod_Name k)]"
proof -
  obtain out1 w1 where H: "HandleWithModule e c k msg w = (out1, w1)" by fastforce
  have "out1 \<noteq> Failed ErrModuleMsgSkip" using skip_is_never_seen [of e c k msg w] by (simp add: H)
  then show ?thesis
    using assms by (auto simp: Metrics_HandleWithModule_def measureLatency_def H Let_def split: if_splits)
qed

section \<open>The app keys\<close>

definition app_keys :: "world \<Rightarrow> conn \<Rightarrow> string" where
  "app_keys w = (\<lambda>c. h_appKey (w_hand w c))"

lemma app_keys_hand: "w_hand w' = w_hand w \<Longrightarrow> app_keys w' = app_keys w"
  by (simp add: app_keys_def)

lemma app_keys_upd [simp]: "(\<And>h. h_appKey (f h) = h_appKey h) \<Longrightarrow> app_keys (upd_hand c f w) = app_keys w"
  by (auto simp: app_keys_def)

lemma leave_app_keys: "app_keys (leaveSession e c w) = app_keys w"
proof (cases "joined w c")
  case None
  then show ?thesis by (simp add: leaveSession_def)
next
  case (Some a)
  have "w_hand (leaveSession e c w) d = w_hand w d" if "d \<noteq> c" for d
    using leaveSession_hand [OF that] .
  moreover have "h_appKey (w_hand (leaveSession e c w) c) = h_appKey (w_hand w c)"
    by (simp add: leaveSession_def Some Let_def hand_loops upd_ecs_def case_prod_beta split: prod.split option.split)
  ultimately have "h_appKey (w_hand (leaveSession e c w) d) = h_appKey (w_hand w d)" for d
    by (cases "d = c") simp_all
  then show ?thesis by (simp add: app_keys_def)
qed

lemma join_app_keys: "app_keys (snd (HandleParticipantJoin e c data w)) = app_keys w"
proof (cases data)
  case (Inr req)
  have C: "app_keys (snd (create_session e c w)) = app_keys w" for w
    by (rule app_keys_hand) (rule create_session_hand)
  have E: "app_keys (snd (enter_session e c sp w)) = app_keys w" for sp w
    by (simp add: enter_session_def Let_def split: prod.split) (simp add: app_keys_def)
  have S: "app_keys (w\<lparr>w_store := st\<rparr>) = app_keys w" for w st by (simp add: app_keys_def)
  have R: "app_keys (reply_error e c r k w) = app_keys w" "app_keys (respond e c p w) = app_keys w" for r k p w
    by (simp_all add: app_keys_def)
  have I: "app_keys (snd (snd (InitModules sp pp ms w))) = app_keys w" for sp pp ms w
    by (rule app_keys_hand) (rule touchesD(6) [OF InitModules_touches])
  have F: "app_keys (IfNotSet fl g (broadcast e sp pp p) w) = app_keys w"
    "app_keys (IfNotSet fl g (\<lambda>w. respond e c (q w) w) w) = app_keys w" for fl g sp pp p q w
    by (rule app_keys_hand; simp)+
  have J: "app_keys (snd (join_session e c req sp w)) = app_keys w" for sp w
    by (simp add: join_session_def Let_def case_prod_beta I F R E)
  show ?thesis
    by (simp add: Inr HandleParticipantJoin_def DataTo_def Let_def case_prod_beta leave_app_keys C J S R
        split: option.split)
qed (simp add: HandleParticipantJoin_def DataTo_def)

lemma plain_hand:
  assumes "inv n w" and "env_ok e" and "n < id_limit" and "plain msg"
  shows "w_hand (snd (handle_core e c msg w)) = w_hand w"
proof (cases "joined w c")
  case None
  then have "idle w (snd (handle_core e c msg w))"
    using handle_core_idle [OF _ assms(4), of w c e]
      not_joined [OF invD(1) [OF assms(1) [unfolded inv_def]], of c] by simp
  then show ?thesis by (auto simp: idle_def)
next
  case (Some a)
  then have "core_step n msg (fst a) (snd a) w (snd (handle_core e c msg w))"
    using inv_member(1) [OF assms(1) [unfolded inv_def]] handle_core_step [OF _ assms(2,3,4)] by simp
  then show ?thesis by (auto simp: core_step_def dest: local_stepD(14))
qed

lemma message_app_keys:
  assumes "inv n w" and "env_ok e" and "n < id_limit"
  shows "app_keys (snd (handleMessage e c msg w)) = app_keys w"
proof -
  obtain out w1 where C: "handle_core e c msg w = (out, w1)" by fastforce
  have "w_hand (snd (handleMessage e c msg w)) = w_hand w1"
    by (cases out) (simp_all add: handleMessage_def C run_modules_hand)
  then have "app_keys (snd (handleMessage e c msg w)) = app_keys w1" by (rule app_keys_hand)
  also have "app_keys w1 = app_keys w"
  proof (cases msg)
    case (ParticipantJoinRequest data)
    then show ?thesis using C join_app_keys [of e c data w] by (simp add: handle_core_def)
  next
    case (ReceiptRequest data)
    then show ?thesis
      using C by (cases data) (auto simp: handle_core_def HandleReceipt_def DataTo_def app_keys_def split: if_splits)
  qed (use C plain_hand [OF assms, of msg c] in \<open>simp_all add: plain_def app_keys_def\<close>)
  finally show ?thesis .
qed

section \<open>The gauge of connected clients\<close>

definition connected :: "world \<Rightarrow> string \<Rightarrow> conn set" where
  "connected w key = {c. c < w_nextC w \<and> app_keys w c = key \<and> w_loop w c \<noteq> Ended}"

lemma finite_connected [simp]: "finite (connected w key)"
  by (rule finite_subset [of _ "{..< w_nextC w}"]) (auto simp: connected_def)

definition gauge_ok :: "MeterEnv \<Rightarrow> metered \<times> world \<Rightarrow> bool" where
  "gauge_ok v = (\<lambda>(m, w). (\<forall>c < w_nextC w. mt_appKey m c = app_keys w c) \<and>
    (\<forall>key. wsConnectedClients (mt_metrics m) (publicEndpoint v, key) = int (card (connected w key))))"

lemma gauge_frame:
  assumes "gauge_ok v (m, w)" and "w_nextC w' = w_nextC w" and "app_keys w' = app_keys w"
    and "\<And>c. w_loop w' c = Ended \<longleftrightarrow> w_loop w c = Ended"
    and "mt_appKey m' = mt_appKey m" and "wsConnectedClients (mt_metrics m') = wsConnectedClients (mt_metrics m)"
  shows "gauge_ok v (m', w')"
  using assms by (simp add: gauge_ok_def connected_def)

text \<open>A measured call leaves the gauge and the keys alone.\<close>

definition keeps_gauge :: "metered \<Rightarrow> metered \<Rightarrow> bool" where
  "keeps_gauge m m' \<longleftrightarrow> mt_appKey m' = mt_appKey m \<and>
    wsConnectedClients (mt_metrics m') = wsConnectedClients (mt_metrics m)"

lemma keeps_measure: "keeps_gauge m (fst (snd (measureLatency v t n f (m, w))))"
  by (simp add: keeps_gauge_def measureLatency_def Let_def split: prod.split)

lemma keeps_core: "keeps_gauge m (fst (snd (Metrics_handle_core v e c msg (m, w))))"
  by (cases msg) (simp_all add: Metrics_handle_core_def keeps_measure embedded_def case_prod_beta, simp_all add: keeps_gauge_def)

lemma keeps_modules: "keeps_gauge (fst s) (fst (snd (metered_modules v e c ms msg s)))"
proof (induction ms arbitrary: s)
  case (Cons k ms)
  obtain m w where s: "s = (m, w)" by (cases s)
  obtain out m1 w1 where R: "Metrics_HandleWithModule v e c k msg (m, w) = (out, m1, w1)" by (metis prod.exhaust)
  have "keeps_gauge m m1"
    using keeps_measure [of m v "typeString v msg" "mod_Name k" "HandleWithModule e c k msg" w] R
    by (simp add: Metrics_HandleWithModule_def)
  then show ?case using Cons [of "(m1, w1)"] by (cases out) (simp_all add: s R keeps_gauge_def)
qed (simp add: keeps_gauge_def)

lemma keeps_message: "keeps_gauge m (fst (snd (metered_message v e c msg (m, w))))"
proof -
  obtain out m1 w1 where R: "Metrics_handle_core v e c msg (m, w) = (out, m1, w1)" by (metis prod.exhaust)
  show ?thesis
    using keeps_core [of m v e c msg w] keeps_modules [of "(m1, w1)" v e c _ msg]
    by (cases out) (simp_all add: metered_message_def R keeps_gauge_def)
qed

lemma keeps_exec:
  assumes "\<And>cid key. ev \<noteq> Connect cid key" and "\<And>c. ev \<noteq> TakeDisconnect c"
  shows "keeps_gauge m (fst (metered_exec v e ev (m, w)))"
proof (cases ev)
  case (Message c msg)
  then show ?thesis
    using keeps_message [of m v e c msg w] by (simp add: metered_exec_def case_prod_beta Let_def) (simp add: keeps_gauge_def)
next
  case (SyncClockTick c)
  then show ?thesis
    using keeps_measure by (simp add: metered_exec_def Metrics_SendSyncClock_def case_prod_beta Let_def) (simp add: keeps_gauge_def)
qed (use assms in \<open>simp_all add: metered_exec_def keeps_gauge_def\<close>)
lemma int_card_minus: "finite A \<Longrightarrow> int (card (A - {x})) = (if x \<in> A then int (card A) - 1 else int (card A))"
  using card.remove [of A x] by (cases "x \<in> A") simp_all

lemma quiet_exec:
  assumes s: "server_ok n w" and e: "env_ok e" and n: "n < id_limit"
    and "\<And>cid key. ev \<noteq> Connect cid key" and "\<And>c. ev \<noteq> TakeDisconnect c" and "\<And>c. ev \<noteq> ContextDone c"
  shows "w_nextC (exec e ev w) = w_nextC w" and "app_keys (exec e ev w) = app_keys w"
    and "w_loop (exec e ev w) c = Ended \<longleftrightarrow> w_loop w c = Ended"
proof -
  have i: "inv n w" using s by (simp add: server_ok_def)
  have S: "app_keys (set_loop c l w) = app_keys w" for c l w by (simp add: set_loop_def app_keys_def)
  have D: "w_nextC (disconnect c w) = w_nextC w" "app_keys (disconnect c w) = app_keys w"
    "w_loop (disconnect c w) d = Ended \<longleftrightarrow> w_loop w d = Ended" for c w d
    by (simp_all add: disconnect_def S split: loop.split) (simp_all add: set_loop_def)
  have H: "w_nextC (handled c r) = w_nextC (snd r)" "app_keys (handled c r) = app_keys (snd r)" for c r
    by (simp_all add: handled_def D S split: prod.split outcome.split) (simp add: set_loop_def)
  have HL: "w_loop (handled c r) d = Ended \<longleftrightarrow> w_loop (snd r) d = Ended"
    if "is_running (snd r) c" for c r d
    using that by (auto simp: handled_def D is_running_def set_loop_def split: prod.split outcome.split)
  have "w_nextC (exec e ev w) = w_nextC w \<and> app_keys (exec e ev w) = app_keys w \<and>
    (w_loop (exec e ev w) c = Ended \<longleftrightarrow> w_loop w c = Ended)"
  proof (cases ev)
    case (Message d msg)
    show ?thesis
    proof (cases "is_running w d")
      case True
      then have "w_loop w d \<noteq> NotStarted" by (auto simp: is_running_def)
      then have d: "d < w_nextC w" using s by (simp add: server_ok_def loops_ok_def)
      note M = handleMessage_inv [OF i e n d, of msg] message_app_keys [OF i e n, of d msg]
      then have "is_running (snd (handleMessage e d msg w)) d" using True by (simp add: is_running_def)
      then show ?thesis using M True by (simp add: Message exec_def H HL)
    qed (simp add: Message exec_def)
  next
    case (SyncClockTick d)
    show ?thesis
    proof (cases "is_running w d")
      case True
      then have "is_running (snd (SendSyncClock e d w)) d" by (simp add: SendSyncClock_def is_running_def)
      then show ?thesis using True by (simp add: SyncClockTick exec_def H HL) (simp add: SendSyncClock_def app_keys_def)
    qed (simp add: SyncClockTick exec_def)
  next
    case TakeReceipt
    then show ?thesis by (simp add: exec_def app_keys_def)
  next
    case (GoroutineError d)
    then show ?thesis by (auto simp: exec_def S split: loop.split) (auto simp: set_loop_def split: if_splits)
  qed (use assms(4-6) in \<open>auto simp: exec_def D\<close>)
  then show "w_nextC (exec e ev w) = w_nextC w" "app_keys (exec e ev w) = app_keys w"
    "w_loop (exec e ev w) c = Ended \<longleftrightarrow> w_loop w c = Ended" by simp_all
qed

lemma gauge_quiet:
  assumes s: "server_ok n w" and e: "env_ok e" and n: "n < id_limit" and g: "gauge_ok v (m, w)"
    and ev: "\<And>cid key. ev \<noteq> Connect cid key" "\<And>c. ev \<noteq> TakeDisconnect c" "\<And>c. ev \<noteq> ContextDone c"
  shows "gauge_ok v (metered_exec v e ev (m, w))"
proof -
  obtain m' where M: "metered_exec v e ev (m, w) = (m', exec e ev w)"
    using metered_exec_world [of v e ev "(m, w)"] by (cases "metered_exec v e ev (m, w)") simp
  have "keeps_gauge m m'" using keeps_exec [OF ev(1,2), of m v e w] by (simp add: M)
  then show ?thesis
    unfolding M using quiet_exec [OF s e n ev] by (intro gauge_frame [OF g]) (simp_all add: keeps_gauge_def)
qed

lemma gauge_step:
  assumes s: "server_ok n w" and e: "env_ok e" and n: "n < id_limit" and g: "gauge_ok v (m, w)"
    and no: "\<And>c. ev \<noteq> ContextDone c"
  shows "gauge_ok v (metered_exec v e ev (m, w))"
proof (cases ev)
  case (Connect cid key)
  let ?c = "w_nextC w" and ?w = "exec e ev w"
  have E: "w_nextC ?w = Suc ?c" "app_keys ?w = (app_keys w)(?c := key)" "w_loop ?w = (w_loop w)(?c := Running 0)"
    by (auto simp: Connect exec_def accept_conn_def Let_def set_loop_def app_keys_def HandleConnect_def)
  have "connected ?w k = (if k = key then insert ?c (connected w k) else connected w k)" for k
    by (auto simp: connected_def E less_Suc_eq)
  moreover have "?c \<notin> connected w k" for k by (simp add: connected_def)
  moreover have "metered_exec v e ev (m, w) = (Metrics_HandleConnect v ?c key m, ?w)"
    by (simp add: Connect metered_exec_def)
  ultimately show ?thesis
    using g by (simp add: gauge_ok_def Metrics_HandleConnect_def E less_Suc_eq)
next
  case (TakeDisconnect c)
  show ?thesis
  proof (cases "\<exists>k. w_loop w c = Running (Suc k)")
    case False
    then show ?thesis using g by (simp add: TakeDisconnect metered_exec_def split: loop.split nat.split)
  next
    case True
    then obtain k where k: "w_loop w c = Running (Suc k)" by blast
    have c: "c < w_nextC w" using s k by (simp add: server_ok_def loops_ok_def)
    let ?w = "exec e ev w"
    have i: "inv n w" using s by (simp add: server_ok_def)
    have nC: "w_nextC (HandleDisconnect e c w) = w_nextC w"
      using inv_leave(5) [OF i e] by (cases "joined w c") (auto simp: HandleDisconnect_def leaveSession_def)
    have E: "w_nextC ?w = w_nextC w" "app_keys ?w = app_keys w" "w_loop ?w = (w_loop w)(c := Ended)"
      using HandleDisconnect_loop [OF i e, of c] leave_app_keys [of e c w] nC
      by (simp_all add: TakeDisconnect exec_def k handleDisconnect_def set_loop_def app_keys_def HandleDisconnect_def)
    have "connected ?w key = connected w key - {c}" for key
      by (auto simp: connected_def E)
    moreover have "c \<in> connected w key \<longleftrightarrow> key = app_keys w c" for key
      using c k by (auto simp: connected_def)
    ultimately have "int (card (connected ?w key)) =
        (if key = app_keys w c then int (card (connected w key)) - 1 else int (card (connected w key)))" for key
      using int_card_minus [of "connected w key" c] by simp
    moreover have "metered_exec v e ev (m, w) = (Metrics_HandleDisconnect v c m, ?w)"
      by (simp add: TakeDisconnect metered_exec_def k)
    ultimately show ?thesis
      using g c by (simp add: gauge_ok_def Metrics_HandleDisconnect_def E)
  qed
next
  case (ContextDone c)
  with no show ?thesis by blast
qed (rule gauge_quiet [OF s e n g]; simp)+
lemma gauge_run:
  assumes "server_ok n (snd s)" and "\<forall>(e, ev) \<in> set es. env_ok e \<and> (\<forall>c. ev \<noteq> ContextDone c)"
    and "n + length es \<le> id_limit" and "gauge_ok v s"
  shows "gauge_ok v (metered_run v es s)"
  using assms
proof (induction es arbitrary: n s)
  case (Cons x es)
  obtain e ev m w where x: "x = (e, ev)" "s = (m, w)" by (cases x, cases s)
  have "server_ok (Suc n) (snd (metered_exec v e ev s))"
    using Cons.prems exec_inv [of n w e ev] by (simp add: metered_exec_world x)
  moreover have "gauge_ok v (metered_exec v e ev s)"
    using Cons.prems gauge_step [of n w e v m ev] by (simp add: x)
  ultimately show ?case using Cons.IH [of "Suc n"] Cons.prems by (simp add: x)
qed simp



end
