(* ===== verification/Logging.thy ===== *)
theory Logging
imports Metering
begin

text \<open>
  \<^verbatim>\<open>websocket/logs.go\<close>: the wrapper that logs what the handler of a connection does and
  counts its messages for a summary that is logged from time to time. The methods of the
  wrapped handler come first in each method; a join is modelled together with them, and the
  others as what the wrapper adds. Proved: the summaries account for every message, and what
  a refused join is logged as. The counters are natural numbers; the code has 64 bits.
\<close>

section \<open>The log\<close>

text \<open>An entry has a level, a text and tags, in the order in which they are attached.\<close>

datatype level = Debug | Info | Error_level

datatype Tag =
    ClientIDTag string
  | AppKeyTag string
  | SessionIDTag string
  | SessionUUIDTag string
  | ParticipantIDTag u32
  | RequestIDTag u32
  | HTTPHeadersTag "string list"
  | MsgTypeTag string
  | TimeIntervalTag int
  | CountTag string nat

record LogEntry =
  le_level :: level
  le_tags :: "Tag list"
  le_text :: string

record handlerWithLogs =
  lg_clientID :: string
  lg_headers :: "string list"
  lg_appKey :: string
  lg_summaryInterval :: int
  lg_counter :: "string \<rightharpoonup> nat"
  lg_sessionID :: string
  lg_sessionUUID :: string
  lg_participantID :: u32
  lg_log :: "LogEntry list"

definition HandlerWithLogs :: "int \<Rightarrow> handlerWithLogs" where
  "HandlerWithLogs summaryInterval =
    \<lparr>lg_clientID = '''', lg_headers = [], lg_appKey = '''', lg_summaryInterval = summaryInterval,
     lg_counter = Map.empty, lg_sessionID = '''', lg_sessionUUID = '''', lg_participantID = 0, lg_log = []\<rparr>"

definition write_log :: "level \<Rightarrow> Tag list \<Rightarrow> string \<Rightarrow> handlerWithLogs \<Rightarrow> handlerWithLogs" where
  "write_log l ts text h = h\<lparr>lg_log := lg_log h @ [\<lparr>le_level = l, le_tags = ts, le_text = text\<rparr>]\<rparr>"

text \<open>The client id is the one of the wrapped handler, which reads it from the request.\<close>

definition Logs_HandleConnect ::
  "string \<Rightarrow> string \<Rightarrow> string list \<Rightarrow> handlerWithLogs \<Rightarrow> handlerWithLogs" where
  "Logs_HandleConnect clientID appKey headers h =
    (let h1 = h\<lparr>lg_clientID := clientID, lg_headers := headers, lg_appKey := appKey\<rparr>
     in write_log Info [ClientIDTag clientID, AppKeyTag appKey] ''new client is connected'' h1)"

text \<open>The wrapped handler comes first. A join that failed is told from one that succeeded by the
  participant of the connection afterwards.\<close>

definition Logs_HandleParticipantJoin ::
  "Env \<Rightarrow> conn \<Rightarrow> JoinReq decoded \<Rightarrow> handlerWithLogs \<times> world \<Rightarrow> outcome \<times> handlerWithLogs \<times> world" where
  "Logs_HandleParticipantJoin e c data = (\<lambda>(h, w).
    case HandleParticipantJoin e c data w of
      (Nil_error, w') \<Rightarrow>
        (case h_currentParticipant (w_hand w' c) of
           None \<Rightarrow>
             (let (sid, rid) = (case data of Inl _ \<Rightarrow> ('''', 0) | Inr req \<Rightarrow> (join_SessionId req, join_RequestId req))
              in (Nil_error,
                  write_log Info [ClientIDTag (lg_clientID h), AppKeyTag (lg_appKey h), SessionIDTag sid,
                    RequestIDTag rid, HTTPHeadersTag (lg_headers h)] ''participant failed to join a session'' h, w'))
         | Some pp \<Rightarrow>
             (case h_currentSession (w_hand w' c) of
                None \<Rightarrow> (Panicked, h, w')
              | Some sp \<Rightarrow>
                  (let h1 = h\<lparr>lg_sessionID := GlobalSessionID (w_store w') (s_ID (w_sess w' sp)),
                              lg_sessionUUID := s_UUID (w_sess w' sp),
                              lg_participantID := p_ID (w_part w' pp)\<rparr>
                   in (Nil_error,
                       write_log Info [ClientIDTag (lg_clientID h1), AppKeyTag (lg_appKey h1),
                         SessionIDTag (lg_sessionID h1), SessionUUIDTag (lg_sessionUUID h1),
                         ParticipantIDTag (lg_participantID h1), HTTPHeadersTag (lg_headers h1)]
                         ''participant joined a session'' h1, w'))))
    | (out, w') \<Rightarrow> (out, h, w'))"

definition Logs_HandleDisconnect :: "handlerWithLogs \<Rightarrow> handlerWithLogs" where
  "Logs_HandleDisconnect h =
    write_log Info [ClientIDTag (lg_clientID h), AppKeyTag (lg_appKey h), SessionIDTag (lg_sessionID h),
      ParticipantIDTag (lg_participantID h)] ''client disconnected'' h"

text \<open>The tags of all entries on single messages.\<close>

definition message_tags :: "handlerWithLogs \<Rightarrow> Tag list" where
  "message_tags h = [ClientIDTag (lg_clientID h), AppKeyTag (lg_appKey h), SessionIDTag (lg_sessionID h),
     SessionUUIDTag (lg_sessionUUID h), ParticipantIDTag (lg_participantID h)]"

definition incCounter :: "string \<Rightarrow> handlerWithLogs \<Rightarrow> handlerWithLogs" where
  "incCounter msgType h =
    h\<lparr>lg_counter := (lg_counter h)(msgType \<mapsto> Suc (case lg_counter h msgType of None \<Rightarrow> 0 | Some n \<Rightarrow> n))\<rparr>"

text \<open>The errors that the wrapper tells apart.\<close>

datatype io_error = IoEOF | IoClosed | IoOther

definition Logs_Receiver :: "string \<Rightarrow> io_error option \<Rightarrow> handlerWithLogs \<Rightarrow> handlerWithLogs" where
  "Logs_Receiver msgType err h =
    (case err of
       Some IoEOF \<Rightarrow> h
     | Some IoClosed \<Rightarrow> h
     | Some IoOther \<Rightarrow> write_log Error_level (message_tags h) ''receiving message failed'' h
     | None \<Rightarrow>
         incCounter msgType
           (write_log Debug (message_tags h @ [MsgTypeTag msgType]) ''message received'' h))"

definition Logs_Sender :: "string \<Rightarrow> io_error option \<Rightarrow> handlerWithLogs \<Rightarrow> handlerWithLogs" where
  "Logs_Sender msgType err h =
    (case err of
       Some IoClosed \<Rightarrow> h
     | Some _ \<Rightarrow> write_log Error_level (message_tags h @ [MsgTypeTag msgType]) ''sending message failed'' h
     | None \<Rightarrow> write_log Debug (message_tags h @ [MsgTypeTag msgType]) ''message sent'' h)"

text \<open>The counter is ranged over, each entry becomes a tag and is deleted.\<close>

definition summary_turn :: "string \<Rightarrow> Tag list \<times> (string \<rightharpoonup> nat) \<Rightarrow> Tag list \<times> (string \<rightharpoonup> nat)" where
  "summary_turn k = (\<lambda>(ts, m). case m k of None \<Rightarrow> (ts, m) | Some n \<Rightarrow> (ts @ [CountTag k n], m(k := None)))"

definition logSummary :: "string order \<Rightarrow> handlerWithLogs \<Rightarrow> handlerWithLogs" where
  "logSummary r h =
    (if lg_counter h = Map.empty then h
     else
       (let ts = [ClientIDTag (lg_clientID h), AppKeyTag (lg_appKey h), ParticipantIDTag (lg_participantID h),
              SessionIDTag (lg_sessionID h), SessionUUIDTag (lg_sessionUUID h), TimeIntervalTag (lg_summaryInterval h)];
            (ts', counter) = fold summary_turn (r (dom (lg_counter h))) (ts, lg_counter h)
        in write_log Info ts' ''inbound message summary'' (h\<lparr>lg_counter := counter\<rparr>)))"

definition Logs_Close :: "string order \<Rightarrow> handlerWithLogs \<Rightarrow> handlerWithLogs" where
  "Logs_Close r h = logSummary r h"

section \<open>The life of a logger\<close>

text \<open>What happens to the logger of a connection: its own methods, and the tick of the summary
  worker. A join is given with its environment and the state it runs in.\<close>

datatype log_event =
    LConnect string string "string list"
  | LJoin Env conn "JoinReq decoded" world
  | LDisconnect
  | LReceived string "io_error option"
  | LSent string "io_error option"
  | LTick "string order"
  | LClose "string order"

fun log_step :: "log_event \<Rightarrow> handlerWithLogs \<Rightarrow> handlerWithLogs" where
  "log_step (LConnect clientID appKey headers) h = Logs_HandleConnect clientID appKey headers h"
| "log_step (LJoin e c data w) h = fst (snd (Logs_HandleParticipantJoin e c data (h, w)))"
| "log_step LDisconnect h = Logs_HandleDisconnect h"
| "log_step (LReceived msgType err) h = Logs_Receiver msgType err h"
| "log_step (LSent msgType err) h = Logs_Sender msgType err h"
| "log_step (LTick r) h = logSummary r h"
| "log_step (LClose r) h = Logs_Close r h"

fun ranges_ok :: "log_event \<Rightarrow> bool" where
  "ranges_ok (LTick r) = range_ok r"
| "ranges_ok (LClose r) = range_ok r"
| "ranges_ok _ = True"

text \<open>How often the log reports a type, and how often it is still in the counter.\<close>

definition counted_in :: "string \<Rightarrow> Tag list \<Rightarrow> nat" where
  "counted_in t ts = (\<Sum>x\<leftarrow>ts. case x of CountTag k n \<Rightarrow> if k = t then n else 0 | _ \<Rightarrow> 0)"

definition reported :: "string \<Rightarrow> handlerWithLogs \<Rightarrow> nat" where
  "reported t h = (\<Sum>en\<leftarrow>lg_log h. counted_in t (le_tags en))"

definition pending :: "string \<Rightarrow> handlerWithLogs \<Rightarrow> nat" where
  "pending t h = (case lg_counter h t of None \<Rightarrow> 0 | Some n \<Rightarrow> n)"

section \<open>Every message is reported once\<close>

lemma counted_append [simp]: "counted_in t (xs @ ys) = counted_in t xs + counted_in t ys"
  by (simp add: counted_in_def)

lemma counted_simps [simp]:
  "counted_in t [] = 0"
  "counted_in t (CountTag k n # xs) = (if k = t then n else 0) + counted_in t xs"
  "counted_in t (ClientIDTag a # xs) = counted_in t xs" "counted_in t (AppKeyTag a # xs) = counted_in t xs"
  "counted_in t (SessionIDTag a # xs) = counted_in t xs" "counted_in t (SessionUUIDTag a # xs) = counted_in t xs"
  "counted_in t (ParticipantIDTag b # xs) = counted_in t xs" "counted_in t (RequestIDTag b # xs) = counted_in t xs"
  "counted_in t (HTTPHeadersTag hs # xs) = counted_in t xs" "counted_in t (MsgTypeTag a # xs) = counted_in t xs"
  "counted_in t (TimeIntervalTag i # xs) = counted_in t xs"
  by (simp_all add: counted_in_def)

lemma reported_write [simp]: "reported t (write_log l ts text h) = reported t h + counted_in t ts"
  "pending t (write_log l ts text h) = pending t h" "lg_counter (write_log l ts text h) = lg_counter h"
  by (simp_all add: reported_def pending_def write_log_def)

lemma counted_message_tags [simp]: "counted_in t (message_tags h) = 0"
  by (simp add: message_tags_def)

text \<open>The loop of the summary moves the counter into tags.\<close>

lemma summary_loop:
  assumes "distinct ks"
  shows "counted_in t (fst (fold summary_turn ks (ts, m))) =
      counted_in t ts + (if t \<in> set ks then (case m t of None \<Rightarrow> 0 | Some n \<Rightarrow> n) else 0) \<and>
    snd (fold summary_turn ks (ts, m)) = (\<lambda>k. if k \<in> set ks then None else m k)"
  using assms
proof (induction ks arbitrary: ts m)
  case (Cons k ks)
  have k: "k \<notin> set ks" "distinct ks" using Cons.prems by simp_all
  show ?case
  proof (cases "m k")
    case None
    then have "summary_turn k (ts, m) = (ts, m)" by (simp add: summary_turn_def)
    then show ?thesis using Cons.IH [OF k(2), of ts m] None by auto
  next
    case (Some n)
    then have "summary_turn k (ts, m) = (ts @ [CountTag k n], m(k := None))" by (simp add: summary_turn_def)
    then show ?thesis using Cons.IH [OF k(2), of "ts @ [CountTag k n]" "m(k := None)"] k(1) Some
      by (auto simp del: fun_upd_apply simp: fun_upd_def)
  qed
qed simp

lemma logSummary_report:
  assumes "range_ok r" and "finite (dom (lg_counter h))"
  shows "reported t (logSummary r h) = reported t h + pending t h"
    and "lg_counter (logSummary r h) = Map.empty"
proof -
  let ?ks = "r (dom (lg_counter h))"
  let ?ts = "[ClientIDTag (lg_clientID h), AppKeyTag (lg_appKey h), ParticipantIDTag (lg_participantID h),
              SessionIDTag (lg_sessionID h), SessionUUIDTag (lg_sessionUUID h), TimeIntervalTag (lg_summaryInterval h)]"
  have d: "distinct ?ks" and s: "set ?ks = dom (lg_counter h)" using assms by simp_all
  note L = summary_loop [OF d, of t ?ts "lg_counter h"]
  obtain ts' m' where F: "fold summary_turn ?ks (?ts, lg_counter h) = (ts', m')" by fastforce
  have "counted_in t ts' = pending t h" "m' = Map.empty"
    using L by (auto simp: F s pending_def fun_eq_iff split: option.splits)
  moreover have "lg_counter h = Map.empty \<Longrightarrow> pending t h = 0" by (simp add: pending_def)
  ultimately show "reported t (logSummary r h) = reported t h + pending t h"
    "lg_counter (logSummary r h) = Map.empty"
    using F by (simp_all add: logSummary_def Let_def) (simp add: reported_def)
qed

text \<open>How many messages of a type were received.\<close>

definition received :: "string \<Rightarrow> log_event list \<Rightarrow> nat" where
  "received t evs = length (filter (\<lambda>ev. ev = LReceived t None) evs)"

lemma log_step_report:
  assumes "ranges_ok ev" and "finite (dom (lg_counter h))"
  shows "reported t (log_step ev h) + pending t (log_step ev h) =
      reported t h + pending t h + (if ev = LReceived t None then 1 else 0)"
    and "finite (dom (lg_counter (log_step ev h)))"
proof -
  have J: "reported t (fst (snd (Logs_HandleParticipantJoin e c data (h, w)))) = reported t h \<and>
      lg_counter (fst (snd (Logs_HandleParticipantJoin e c data (h, w)))) = lg_counter h" for e c data w
    by (simp add: Logs_HandleParticipantJoin_def Let_def split: prod.split outcome.split option.split sum.split)
      (simp add: reported_def)
  have S: "reported t (logSummary r h) + pending t (logSummary r h) = reported t h + pending t h"
    "finite (dom (lg_counter (logSummary r h)))" if "range_ok r" for r
    using logSummary_report [OF that assms(2)] by (simp_all add: pending_def)
  have R: "reported t (Logs_Receiver mt err h) + pending t (Logs_Receiver mt err h) =
      reported t h + pending t h + (if mt = t \<and> err = None then 1 else 0)"
    "finite (dom (lg_counter (Logs_Receiver mt err h)))" for mt err
    using assms(2) by (auto simp: Logs_Receiver_def incCounter_def split: option.split io_error.split)
      (auto simp: reported_def pending_def write_log_def)
  have X: "reported t (Logs_Sender mt err h) = reported t h" "lg_counter (Logs_Sender mt err h) = lg_counter h"
    "reported t (Logs_HandleDisconnect h) = reported t h" "lg_counter (Logs_HandleDisconnect h) = lg_counter h" for mt err
    by (simp_all add: Logs_Sender_def Logs_HandleDisconnect_def split: option.split io_error.split)
  have C: "reported t (Logs_HandleConnect a b hs h) = reported t h" "lg_counter (Logs_HandleConnect a b hs h) = lg_counter h"
    for a b hs
    by (simp_all add: Logs_HandleConnect_def Let_def) (simp add: reported_def)
  show "reported t (log_step ev h) + pending t (log_step ev h) =
      reported t h + pending t h + (if ev = LReceived t None then 1 else 0)"
    "finite (dom (lg_counter (log_step ev h)))"
    using assms S R X C J by (cases ev; simp add: pending_def Logs_Close_def)+
qed

text \<open>C30: The summaries account for every message: for each type, the counts of all summaries in
  the log and the count that the next one will report add up to the number of messages of
  the type that were received without error, and after the connection is closed the log
  alone accounts for all of them.\<close>

theorem summaries_account_for_all:
  assumes "\<forall>ev \<in> set evs. ranges_ok ev" and "range_ok r"
  shows "reported t (fold log_step evs (HandlerWithLogs i)) + pending t (fold log_step evs (HandlerWithLogs i)) =
      received t evs \<and>
    reported t (Logs_Close r (fold log_step evs (HandlerWithLogs i))) = received t evs"
proof -
  have "reported t (fold log_step evs h) + pending t (fold log_step evs h) =
      reported t h + pending t h + received t evs \<and> finite (dom (lg_counter (fold log_step evs h)))"
    if "finite (dom (lg_counter h))" for h
    using that assms(1)
  proof (induction evs arbitrary: h)
    case (Cons ev evs)
    note L = log_step_report [where ev = ev and h = h, OF _ Cons.prems(1)]
    show ?case using Cons.IH [of "log_step ev h"] L Cons.prems(2) by (simp add: received_def)
  qed (simp add: received_def)
  moreover have "reported t (HandlerWithLogs i) = 0" "pending t (HandlerWithLogs i) = 0"
      "finite (dom (lg_counter (HandlerWithLogs i)))"
    by (simp_all add: HandlerWithLogs_def reported_def pending_def)
  ultimately show ?thesis
    using logSummary_report(1) [OF assms(2), where h = "fold log_step evs (HandlerWithLogs i)" and t = t]
    by (simp add: Logs_Close_def)
qed

lemma summaries_account_for_all_witness:
  "reported ''PING'' (Logs_Close sorted_list_of_set
     (fold log_step [LReceived ''PING'' None, LReceived ''POSE'' None, LReceived ''PING'' None] (HandlerWithLogs 60))) = 2"
  using summaries_account_for_all [OF _ range_ok_sorted, where t = "''PING''" and i = 60 and
      evs = "[LReceived ''PING'' None, LReceived ''POSE'' None, LReceived ''PING'' None]"]
  by (simp add: received_def)

section \<open>What a refused join is logged as\<close>

text \<open>A participant that asks for the session it is in is refused, and stays; the wrapper, which
  looks at the participant only, logs that it joined.\<close>

lemma refused_rejoin_is_logged_as_join:
  assumes "joined w c = Some (sp, pp)" and "join_SessionId req = GlobalSessionID (w_store w) (s_ID (w_sess w sp))"
    and "Logs_HandleParticipantJoin e c (Inr req) (h, w) = (out, h', w')"
  shows "w' = respond e c (ErrorResponse (join_RequestId req) SESSION_ALREADY_JOINED) w"
    and "le_text (last (lg_log h')) = ''participant joined a session''"
proof -
  have H: "h_currentSession (w_hand w c) = Some sp" "h_currentParticipant (w_hand w c) = Some pp"
    using assms(1) by (simp_all add: joined_def split: option.splits)
  have A: "HandleParticipantJoin e c (Inr req) w =
      (Nil_error, respond e c (ErrorResponse (join_RequestId req) SESSION_ALREADY_JOINED) w)"
    by (simp add: HandleParticipantJoin_def DataTo_def reply_error_def H assms(2))
  show "w' = respond e c (ErrorResponse (join_RequestId req) SESSION_ALREADY_JOINED) w"
    "le_text (last (lg_log h')) = ''participant joined a session''"
    using assms(3) H by (auto simp: Logs_HandleParticipantJoin_def A write_log_def Let_def)
qed

end
