(* ===== verification/Server.thy ===== *)
theory Server
imports Http Logging
begin

text \<open>
  \<^verbatim>\<open>cmd/main.go\<close> and \<^verbatim>\<open>ListenAndServe\<close> of \<^verbatim>\<open>http/http.go\<close>: the configuration and its
  validation, the loading of the private key, the routes of the public and of the admin
  server, and the goroutines that serve and shut down. Proved: when the server starts; that
  only a request with an accepted token reaches the relay or starts a smoke test; and when
  \<open>ListenAndServe\<close> returns. The handlers of libraries, the WebSocket server, the file
  system and the parsing of URIs and keys are parameters.
\<close>

section \<open>The configuration\<close>

text \<open>Durations are nanoseconds.\<close>

record hdsConfig =
  hds_Endpoint :: string
  hds_RegistrationInterval :: int
  hds_HealthCheckTTL :: int
  hds_RegistrationRetries :: int

record eventsConfig =
  ev_Endpoint :: string
  ev_FlushInterval :: int
  ev_BatchSize :: int
  ev_QueueSize :: int

record clockCheckerConfig =
  cc_InitialDelay :: int
  cc_SecondCheckDelay :: int
  cc_CheckInterval :: int
  cc_WarningThreshold :: int
  cc_ErrorThreshold :: int
  cc_NTPServerAddress :: string

record config =
  cf_Addr :: string
  cf_AdminAddr :: string
  cf_PublicEndpoint :: string
  cf_PrivateKey :: string
  cf_PrivateKeyFile :: string
  cf_LogLevel :: string
  cf_LogIndent :: bool
  cf_SyncClockInterval :: int
  cf_ClientIdleTimeout :: int
  cf_FrameDuration :: int
  cf_LogSummaryInterval :: int
  cf_HDS :: hdsConfig
  cf_Events :: eventsConfig
  cf_FeatureFlags :: "string list"
  cf_NCSEndpoint :: string
  cf_Version :: bool
  cf_Help :: bool
  cf_ClockChecker :: clockCheckerConfig

definition second :: int where "second = 1000000000"

text \<open>The configuration before the options are read. The name of the log level, the defaults of the
  events (whose endpoint is replaced) and those of the clock checker are the libraries'.\<close>

definition default_config :: "string \<Rightarrow> eventsConfig \<Rightarrow> clockCheckerConfig \<Rightarrow> config" where
  "default_config InfoLevel events clockChecker =
    \<lparr>cf_Addr = '':4000'', cf_AdminAddr = '':18190'', cf_PublicEndpoint = ''http://localhost:4000'',
     cf_PrivateKey = '''', cf_PrivateKeyFile = '''', cf_LogLevel = InfoLevel, cf_LogIndent = False,
     cf_SyncClockInterval = second * 5, cf_ClientIdleTimeout = 60 * second * 5,
     cf_FrameDuration = 15 * (second div 1000), cf_LogSummaryInterval = 60 * second,
     cf_HDS = \<lparr>hds_Endpoint = ''https://hds.auki.network'', hds_RegistrationInterval = second * 15,
       hds_HealthCheckTTL = 60 * second * 2, hds_RegistrationRetries = 3\<rparr>,
     cf_Events = events\<lparr>ev_Endpoint :=
       ''https://znw4vaxw00.execute-api.us-east-1.amazonaws.com/log-prod_serverless_lambda_stage/log''\<rparr>,
     cf_FeatureFlags = [], cf_NCSEndpoint = ''http://localhost:4040'', cf_Version = False, cf_Help = False,
     cf_ClockChecker = clockChecker\<rparr>"

section \<open>Starting up\<close>

datatype startup_error =
    InvalidPublicEndpoint string
  | BothPrivateKeys
  | NoPrivateKey
  | PrivateKeyFileError string string
  | EmptyPrivateKey
  | PrivateKeyError string

text \<open>White space of ASCII.\<close>

definition isSpace :: "char \<Rightarrow> bool" where
  "isSpace c \<longleftrightarrow> c \<in> {CHR '' '', CHR 0x09, CHR 0x0A, CHR 0x0B, CHR 0x0C, CHR 0x0D}"

definition TrimSpace :: "string \<Rightarrow> string" where
  "TrimSpace s = rev (dropWhile isSpace (rev (dropWhile isSpace s)))"

definition TrimPrefix :: "string \<Rightarrow> string \<Rightarrow> string" where
  "TrimPrefix s p = (if take (length p) s = p then drop (length p) s else s)"

definition validateConfig :: "(string \<Rightarrow> string option) \<Rightarrow> config \<Rightarrow> startup_error option" where
  "validateConfig ParseRequestURI conf =
    (case ParseRequestURI (cf_PublicEndpoint conf) of
       Some err \<Rightarrow> Some (InvalidPublicEndpoint err)
     | None \<Rightarrow>
         if length (cf_PrivateKey conf) \<noteq> 0 \<and> length (cf_PrivateKeyFile conf) \<noteq> 0
         then Some BothPrivateKeys
         else if length (cf_PrivateKey conf) = 0 \<and> length (cf_PrivateKeyFile conf) = 0
         then Some NoPrivateKey
         else None)"

definition loadPrivateKey ::
  "(string \<Rightarrow> string + string) \<Rightarrow> (string \<Rightarrow> string + 'k) \<Rightarrow> config \<Rightarrow> startup_error + 'k" where
  "loadPrivateKey ReadFile HexToECDSA conf =
    (let parse = (\<lambda>privateKey.
           let privateKey = TrimPrefix (TrimSpace privateKey) ''0x'' in
           if length privateKey = 0 then Inl EmptyPrivateKey
           else (case HexToECDSA privateKey of Inl err \<Rightarrow> Inl (PrivateKeyError err) | Inr k \<Rightarrow> Inr k))
     in if length (cf_PrivateKeyFile conf) \<noteq> 0 then
          (case ReadFile (cf_PrivateKeyFile conf) of
             Inl err \<Rightarrow> Inl (PrivateKeyFileError (cf_PrivateKeyFile conf) err)
           | Inr bs \<Rightarrow> parse bs)
        else parse (cf_PrivateKey conf))"

text \<open>The first part of \<^verbatim>\<open>main\<close>, after the options were read.\<close>

datatype 'k startup = Exited | Fatal startup_error | Started config 'k

definition start_up ::
  "(string \<Rightarrow> string option) \<Rightarrow> (string \<Rightarrow> string + string) \<Rightarrow> (string \<Rightarrow> string + 'k) \<Rightarrow> config \<Rightarrow> 'k startup" where
  "start_up ParseRequestURI ReadFile HexToECDSA conf =
    (if cf_Version conf then Exited
     else (case validateConfig ParseRequestURI conf of
       Some err \<Rightarrow> Fatal err
     | None \<Rightarrow>
         (let conf1 = conf\<lparr>cf_PublicEndpoint := TrimSpace (cf_PublicEndpoint conf)\<rparr>
          in case loadPrivateKey ReadFile HexToECDSA conf1 of
               Inl err \<Rightarrow> Fatal err
             | Inr key \<Rightarrow> Started conf1 key)))"

section \<open>The routes\<close>

text \<open>Handlers of the libraries, by name, act on the response only as far as this server is
  concerned. \<open>websocket_Server\<close> is the server of the WebSocket library with its two callbacks.\<close>

record Library =
  library :: "string \<Rightarrow> Request \<Rightarrow> ResponseWriter \<Rightarrow> ResponseWriter"
  websocket_Server :: "(Request \<Rightarrow> Site \<Rightarrow> string option \<times> Site) \<Rightarrow> (Request \<Rightarrow> Site \<Rightarrow> Site) \<Rightarrow> Site Handler"

definition foreign :: "(Request \<Rightarrow> ResponseWriter \<Rightarrow> ResponseWriter) \<Rightarrow> 's Handler" where
  "foreign h r = (\<lambda>(s, rw). (s, h r rw))"

text \<open>The documented contract of the WebSocket server: a request is refused before the handshake
  function is called, or by the handshake function, or it is handed to the handler.\<close>

definition websocket_ok :: "Library \<Rightarrow> bool" where
  "websocket_ok L \<longleftrightarrow> (\<forall>handshake handler r s rw.
    fst (websocket_Server L handshake handler r (s, rw)) = s \<or>
    (\<exists>err s1. handshake r s = (Some err, s1) \<and> fst (websocket_Server L handshake handler r (s, rw)) = s1) \<or>
    (\<exists>s1. handshake r s = (None, s1) \<and> fst (websocket_Server L handshake handler r (s, rw)) = handler r s1))"

text \<open>The handler of a connection; the events that follow are events of the relay.\<close>

definition serve_connection :: "Env \<Rightarrow> HttpEnv \<Rightarrow> Request \<Rightarrow> Site \<Rightarrow> Site" where
  "serve_connection e v r s =
    s\<lparr>st_world := exec e (Connect (rq_Header r (HeaderPosemeshClientID v)) (GetAppKey v (GetUserToken v r)))
        (st_world s)\<rparr>"

definition version :: string where "version = ''v0.5.0''"

definition service :: "Library \<Rightarrow> Env \<Rightarrow> HttpEnv \<Rightarrow> (string \<times> Site Handler) list" where
  "service L e v =
    [(''/registrations'', foreign (library L ''HandleServerRegistration'')),
     (''/health'', HandleWithCORS (foreign (library L ''HandleHealthCheck''))),
     (''/version'', HandleWithCORS (HandleVersion version)),
     (''/pms/metrics'', foreign (library L ''HandleWithEncryption'')),
     (''/smoke-test'', VerifyAuthTokenHandler v (HandleSmokeTest v)),
     (''/ready'', HandleWithCORS (HandleReadyCheck (IsRegistered v))),
     (''/'', HandleWithCORS (websocket_Server L (VerifyAuthToken v) (serve_connection e v))),
     (''/ping'', foreign (library L ''Echo''))]"

definition admin :: "Library \<Rightarrow> HttpEnv \<Rightarrow> (string \<times> Site Handler) list" where
  "admin L v =
    [(''/metrics'', foreign (library L ''Metrics'')),
     (''/health'', HandleHealthCheck),
     (''/debug/pprof/'', foreign (library L ''Index'')),
     (''/debug/pprof/cmdline'', foreign (library L ''Cmdline'')),
     (''/debug/pprof/profile'', foreign (library L ''Profile'')),
     (''/debug/pprof/symbol'', foreign (library L ''Symbol'')),
     (''/debug/pprof/trace'', foreign (library L ''Trace'')),
     (''/debug/pprof/goroutine'', foreign (library L ''goroutine'')),
     (''/debug/pprof/heap'', foreign (library L ''heap'')),
     (''/debug/pprof/threadcreate'', foreign (library L ''threadcreate'')),
     (''/debug/pprof/block'', foreign (library L ''block'')),
     (''/ready'', HandleReadyCheck (IsRegistered v))]"

section \<open>Listening\<close>

text \<open>\<^verbatim>\<open>ListenAndServe\<close> of the package: one goroutine per server, and one that shuts the
  servers down in turn when the context is cancelled. The events: the context is cancelled, the
  shutdown of the next server returns, and the serving call of a server returns.\<close>

datatype serve_error = ErrServerClosed | Canceled | ServeError string

datatype listen_log = StartingServer string | StoppingServer string | ServerStopped string string | ShutdownFailed string string

record Listeners =
  ls_cancelled :: bool
  ls_shutdowns :: nat
  ls_servers :: "(string \<times> bool) list"
  ls_log :: "listen_log list"

datatype listen_event = CtxDone | ShutdownReturned "string option" | ServeReturned nat "serve_error option"

definition ListenAndServe :: "string list \<Rightarrow> Listeners" where
  "ListenAndServe addrs =
    \<lparr>ls_cancelled = False, ls_shutdowns = 0, ls_servers = map (\<lambda>a. (a, True)) addrs,
     ls_log = map StartingServer addrs\<rparr>"

definition serve_log :: "string \<Rightarrow> serve_error option \<Rightarrow> listen_log" where
  "serve_log addr err =
    (case err of
       None \<Rightarrow> StoppingServer addr
     | Some ErrServerClosed \<Rightarrow> StoppingServer addr
     | Some Canceled \<Rightarrow> StoppingServer addr
     | Some (ServeError x) \<Rightarrow> ServerStopped addr x)"

fun listen_step :: "listen_event \<Rightarrow> Listeners \<Rightarrow> Listeners" where
  "listen_step CtxDone l = l\<lparr>ls_cancelled := True\<rparr>"
| "listen_step (ShutdownReturned err) l =
    (if ls_cancelled l \<and> ls_shutdowns l < length (ls_servers l)
     then l\<lparr>ls_shutdowns := Suc (ls_shutdowns l),
            ls_log := (case err of None \<Rightarrow> ls_log l
              | Some x \<Rightarrow> ls_log l @ [ShutdownFailed (fst (ls_servers l ! ls_shutdowns l)) x])\<rparr>
     else l)"
| "listen_step (ServeReturned i err) l =
    (if i < length (ls_servers l) \<and> snd (ls_servers l ! i)
     then l\<lparr>ls_servers := (ls_servers l)[i := (fst (ls_servers l ! i), False)],
            ls_log := ls_log l @ [serve_log (fst (ls_servers l ! i)) err]\<rparr>
     else l)"

text \<open>The call returns when the goroutines of all servers are done.\<close>

definition listen_returned :: "Listeners \<Rightarrow> bool" where
  "listen_returned l \<longleftrightarrow> (\<forall>(addr, running) \<in> set (ls_servers l). \<not> running)"

section \<open>When the server starts\<close>

lemma loadPrivateKey_cong:
  "cf_PrivateKey c' = cf_PrivateKey c \<Longrightarrow> cf_PrivateKeyFile c' = cf_PrivateKeyFile c \<Longrightarrow>
    loadPrivateKey rf hx c' = loadPrivateKey rf hx c"
  by (simp add: loadPrivateKey_def cong: sum.case_cong)

lemma loadPrivateKey_ok:
  "loadPrivateKey rf hx conf = Inr key \<longleftrightarrow>
    (\<exists>text. (if cf_PrivateKeyFile conf = '''' then text = cf_PrivateKey conf else rf (cf_PrivateKeyFile conf) = Inr text) \<and>
      TrimPrefix (TrimSpace text) ''0x'' \<noteq> '''' \<and> hx (TrimPrefix (TrimSpace text) ''0x'') = Inr key)"
  by (auto simp: loadPrivateKey_def Let_def split: sum.splits if_splits)

text \<open>The server starts exactly when its version was not asked for, the public endpoint is a
  valid URI, one of the private key and the private key file is given but not both, and the key,
  trimmed and without its prefix \<^verbatim>\<open>0x\<close>, is not empty and parses. It then runs with this key, and
  with its configuration unchanged but for white space around the public endpoint.\<close>

theorem starts_with_one_key:
  "start_up parseURI readFile hexKey conf = Started conf' key \<longleftrightarrow>
    \<not> cf_Version conf \<and> parseURI (cf_PublicEndpoint conf) = None \<and>
    (cf_PrivateKey conf = '''') \<noteq> (cf_PrivateKeyFile conf = '''') \<and>
    (\<exists>text. (if cf_PrivateKeyFile conf = '''' then text = cf_PrivateKey conf
        else readFile (cf_PrivateKeyFile conf) = Inr text) \<and>
      TrimPrefix (TrimSpace text) ''0x'' \<noteq> '''' \<and> hexKey (TrimPrefix (TrimSpace text) ''0x'') = Inr key) \<and>
    conf' = conf\<lparr>cf_PublicEndpoint := TrimSpace (cf_PublicEndpoint conf)\<rparr>"
proof -
  have V: "validateConfig parseURI conf = None \<longleftrightarrow>
      parseURI (cf_PublicEndpoint conf) = None \<and> (cf_PrivateKey conf = '''') \<noteq> (cf_PrivateKeyFile conf = '''')"
    by (auto simp: validateConfig_def split: option.splits)
  have K: "loadPrivateKey readFile hexKey (conf\<lparr>cf_PublicEndpoint := x\<rparr>) = loadPrivateKey readFile hexKey conf" for x
    by (rule loadPrivateKey_cong) simp_all
  have "start_up parseURI readFile hexKey conf = Started conf' key \<longleftrightarrow>
      \<not> cf_Version conf \<and> validateConfig parseURI conf = None \<and> loadPrivateKey readFile hexKey conf = Inr key \<and>
      conf' = conf\<lparr>cf_PublicEndpoint := TrimSpace (cf_PublicEndpoint conf)\<rparr>"
    by (auto simp: start_up_def Let_def K split: option.split sum.split)
  then show ?thesis by (auto simp: V loadPrivateKey_ok)
qed

section \<open>Who reaches the relay\<close>

definition harmless :: "Site Handler \<Rightarrow> bool" where
  "harmless h \<longleftrightarrow> (\<forall>r s rw. fst (h r (s, rw)) = s)"

lemma harmless_handlers [simp]: "harmless (foreign f)" "harmless (HandleVersion t)" "harmless (HandleReadyCheck b)"
  "harmless h \<Longrightarrow> harmless (HandleWithCORS h)"
  by (simp_all add: harmless_def foreign_def HandleVersion_def HandleReadyCheck_def HandleWithCORS_def Let_def)

lemma routes_of_service:
  assumes "(p, h) \<in> set (service L e v)"
  shows "harmless h \<or> (p = ''/smoke-test'' \<and> h = VerifyAuthTokenHandler v (HandleSmokeTest v)) \<or>
    (p = ''/'' \<and> h = HandleWithCORS (websocket_Server L (VerifyAuthToken v) (serve_connection e v)))"
proof -
  have "list_all (\<lambda>(p, h). harmless h \<or> (p = ''/smoke-test'' \<and> h = VerifyAuthTokenHandler v (HandleSmokeTest v)) \<or>
    (p = ''/'' \<and> h = HandleWithCORS (websocket_Server L (VerifyAuthToken v) (serve_connection e v)))) (service L e v)"
    by (simp add: service_def)
  then show ?thesis using assms by (fastforce simp: list_all_iff)
qed

lemma websocket_result:
  assumes "websocket_ok L"
  shows "fst (websocket_Server L handshake handler r (s, rw)) \<in> {s, snd (handshake r s)} \<or>
    (fst (handshake r s) = None \<and>
      fst (websocket_Server L handshake handler r (s, rw)) = handler r (snd (handshake r s)))"
  using assms [unfolded websocket_ok_def, rule_format, of handshake handler r s rw] by auto

lemma service_paths: "(''/'', h) \<in> set (service L e v) \<Longrightarrow> (q, g) \<in> set (service L e v) \<Longrightarrow>
    best_match (service L e v) path = Some (''/'', h) \<Longrightarrow> q \<noteq> ''/'' \<Longrightarrow> q \<noteq> path"
proof
  assume q: "(q, g) \<in> set (service L e v)" and b: "best_match (service L e v) path = Some (''/'', h)"
    and n: "q \<noteq> ''/''" and p: "q = path"
  have "length q \<le> length ''/''" using best_match_Some [OF b] q p by (auto simp: matches_def)
  then show False using q n by (auto simp: service_def)
qed

lemma websocket_route:
  assumes "websocket_ok L" and "rq_Method r \<noteq> ''OPTIONS''"
  shows "fst (HandleWithCORS (websocket_Server L (VerifyAuthToken v) (serve_connection e v)) r (s, emptyResponse)) \<in>
    (case VerifyUserAuth v (GetUserToken v r) of
       None \<Rightarrow> {s, serve_connection e v r s}
     | Some err \<Rightarrow> {s, warn (AuthRefused (rq_Header r (HeaderPosemeshClientID v)) err) s})"
proof -
  let ?h = "websocket_Server L (VerifyAuthToken v) (serve_connection e v)"
  obtain rw where X: "HandleWithCORS ?h r (s, emptyResponse) = ?h r (s, rw)"
    using cors_passes [OF assms(2), where s = s and h = ?h] by (elim exE conjE) (rule that)
  show ?thesis
    using websocket_result [OF assms(1), of "VerifyAuthToken v" "serve_connection e v" r s rw]
    unfolding X by (auto simp: VerifyAuthToken_def split: option.splits)
qed

text \<open>C22: The relay is guarded: a request changes the state of the relay only by starting a
  connection, and only if it is not a preflight request, its path is not the one of another
  service, and the discovery service accepts its token; the connection then has the client id
  and the app key of the request. A smoke test is started only for an accepted token, too; a
  token that is not accepted is reported once.\<close>

theorem relay_is_guarded:
  assumes "websocket_ok L"
  shows "fst (ServeMux (service L e v) r (s, emptyResponse)) \<in>
    (if VerifyUserAuth v (GetUserToken v r) = None
     then {s} \<union>
       (if rq_Method r \<noteq> ''OPTIONS'' \<and> rq_Path r \<notin> fst ` set (service L e v) - {''/''}
        then {s\<lparr>st_world := exec e (Connect (rq_Header r (HeaderPosemeshClientID v)) (GetAppKey v (GetUserToken v r)))
                 (st_world s)\<rparr>} else {}) \<union>
       {s\<lparr>st_smoketests := st_smoketests s @ [t]\<rparr> | t. rq_Path r = ''/smoke-test'' \<and>
          Option.bind (rq_Body r) (unmarshalSmokeTest v) = Some t}
     else {s, warn (AuthRefused (rq_Header r (HeaderPosemeshClientID v))
       (the (VerifyUserAuth v (GetUserToken v r)))) s})"
proof (cases "best_match (service L e v) (rq_Path r)")
  case None
  then show ?thesis by (simp add: ServeMux_def)
next
  case (Some ph)
  obtain p h where ph: "ph = (p, h)" by fastforce
  note B = best_match_Some [OF Some [unfolded ph]]
  have F: "fst (ServeMux (service L e v) r (s, emptyResponse)) = fst (h r (s, emptyResponse))"
    using Some by (simp add: ServeMux_def ph)
  consider "fst (h r (s, emptyResponse)) = s"
    | "p = ''/smoke-test''" "h = VerifyAuthTokenHandler v (HandleSmokeTest v)"
    | "p = ''/''" "h = HandleWithCORS (websocket_Server L (VerifyAuthToken v) (serve_connection e v))"
    using routes_of_service [of p h L e v] B unfolding harmless_def by blast
  then show ?thesis
  proof cases
    case 1
    then show ?thesis by (simp add: F)
  next
    case 2
    have "rq_Path r = ''/smoke-test''" using B by (simp add: 2 matches_def)
    then show ?thesis
      by (auto simp: F 2 VerifyAuthTokenHandler_def HandleSmokeTest_def split: option.split)
  next
    case 3
    have P: "rq_Path r \<notin> fst ` set (service L e v) - {''/''}"
      using service_paths [of h L e v] B Some by (fastforce simp: ph 3(1))
    show ?thesis
    proof (cases "rq_Method r = ''OPTIONS''")
      case True
      then show ?thesis by (simp add: F 3(2) cors_preflight)
    next
      case False
      note W = websocket_route [OF assms False, of v e s, folded 3(2), folded F]
      show ?thesis
      proof (cases "VerifyUserAuth v (GetUserToken v r)")
        case None
        then have "fst (ServeMux (service L e v) r (s, emptyResponse)) \<in> {s, serve_connection e v r s}"
          using W by simp
        moreover have "(rq_Method r \<noteq> ''OPTIONS'' \<and> rq_Path r \<notin> fst ` set (service L e v) - {''/''}) = True"
          using P False by simp
        ultimately show ?thesis by (simp only: None simp_thms if_True serve_connection_def) blast
      next
        case (Some err)
        then show ?thesis using W by (simp only: Some option.distinct if_False option.sel) simp
      qed
    qed
  qed
qed

section \<open>Shutting down\<close>

lemma listen_shape: "map fst (ls_servers (fold listen_step evs (ListenAndServe addrs))) = addrs"
proof -
  have "map fst (ls_servers (listen_step ev l)) = map fst (ls_servers l)" for ev l
    by (cases ev) (auto simp: map_update list_update_same_conv)
  then have "map fst (ls_servers (fold listen_step evs l)) = map fst (ls_servers l)" for l
    by (induction evs arbitrary: l) simp_all
  then show ?thesis by (simp add: ListenAndServe_def comp_def)
qed

text \<open>A server runs until its serving call has returned; so the function returns when that is
  so for all of them. In particular one that cannot listen does not stop the others.\<close>

lemma server_running:
  assumes "i < length addrs"
  shows "snd (ls_servers (fold listen_step evs (ListenAndServe addrs)) ! i) \<longleftrightarrow>
    (\<forall>ev \<in> set evs. \<forall>err. ev \<noteq> ServeReturned i err)"
proof (induction evs rule: rev_induct)
  case Nil
  then show ?case using assms by (simp add: ListenAndServe_def)
next
  case (snoc ev evs)
  have "length (ls_servers (fold listen_step evs (ListenAndServe addrs))) = length addrs"
    using listen_shape [of evs addrs] by (metis length_map)
  then show ?case using snoc assms by (cases ev) (auto simp: nth_list_update)
qed

lemma listen_returned_iff:
  "listen_returned (fold listen_step evs (ListenAndServe addrs)) \<longleftrightarrow>
    (\<forall>i < length addrs. \<exists>err. ServeReturned i err \<in> set evs)"
proof -
  have L: "length (ls_servers (fold listen_step evs (ListenAndServe addrs))) = length addrs"
    using listen_shape [of evs addrs] by (metis length_map)
  have "listen_returned l \<longleftrightarrow> (\<forall>i < length (ls_servers l). \<not> snd (ls_servers l ! i))" for l
    by (auto simp: listen_returned_def all_set_conv_all_nth split_beta)
  then show ?thesis using L server_running [of _ addrs evs] by fastforce
qed

text \<open>The serving calls of \<^verbatim>\<open>net/http\<close> return as soon as a shutdown begins, so the
  function may return, and the program end, while the shutdowns still wait for open requests.\<close>

lemma returns_before_shutdown:
  "let l = fold listen_step [CtxDone, ServeReturned 0 (Some ErrServerClosed), ServeReturned 1 (Some ErrServerClosed)]
      (ListenAndServe ['':4000'', '':18190''])
   in listen_returned l \<and> ls_shutdowns l = 0"
  by (simp add: ListenAndServe_def listen_returned_def)

text \<open>A library that satisfies the contract: it refuses what is not a \<^verbatim>\<open>GET\<close>.\<close>

definition library0 :: Library where
  "library0 = \<lparr>library = (\<lambda>_ _ rw. WriteHeader StatusOK rw),
     websocket_Server = (\<lambda>handshake handler r (s, rw).
       if rq_Method r \<noteq> ''GET'' then (s, WriteHeader StatusBadRequest rw)
       else (case handshake r s of
               (Some err, s1) \<Rightarrow> (s1, WriteHeader 403 rw)
             | (None, s1) \<Rightarrow> (handler r s1, rw)))\<rparr>"

lemma library0_ok: "websocket_ok library0"
  unfolding websocket_ok_def library0_def by (auto split: prod.split option.split)

definition http0 :: HttpEnv where
  "http0 = \<lparr>GetUserToken = (\<lambda>r. rq_Header r ''Authorization''),
     VerifyUserAuth = (\<lambda>token. if token = ''good'' then None else Some ''unauthorized''),
     HeaderPosemeshClientID = ''client-id'', GetAppKey = (\<lambda>_. ''key''), IsRegistered = True,
     unmarshalSmokeTest = (\<lambda>_. None), InternalServerError = WriteHeader 500, BadRequest = WriteHeader 400\<rparr>"

definition site0 :: Site where
  "site0 = \<lparr>st_world = init_world None, st_warnings = [], st_smoketests = [], st_results = []\<rparr>"

definition intruder :: Request where
  "intruder = \<lparr>rq_Method = ''GET'', rq_Path = ''/'', rq_Header = (\<lambda>_. ''bad''), rq_Body = None\<rparr>"

lemma relay_is_guarded_witness:
  "st_world (fst (ServeMux (service library0 env0 http0) intruder (site0, emptyResponse))) = init_world None"
proof -
  have "fst (ServeMux (service library0 env0 http0) intruder (site0, emptyResponse)) \<in>
      {site0, warn (AuthRefused ''bad'' ''unauthorized'') site0}"
    using relay_is_guarded [OF library0_ok, of env0 http0 intruder site0]
    by (simp add: http0_def intruder_def)
  then show ?thesis by (auto simp: site0_def warn_def)
qed

end
