(* ===== verification/Main_Program.thy ===== *)
theory Main_Program
imports Server
begin

text \<open>
  The rest of \<^verbatim>\<open>main\<close> in \<^verbatim>\<open>cmd/main.go\<close>: what it passes on to the clients of
  other services, and the end of the program, which waits for the servers to stop and
  for the pairing with the discovery service to end, and unpairs. The clients themselves are
  libraries. Proved: when the server unpairs, and when it dies.
\<close>

section \<open>What is passed on\<close>

record Pusher =
  ps_Endpoint :: string
  ps_FlushInterval :: int
  ps_BatchSize :: int
  ps_QueueSize :: int

record Logger =
  lr_Pusher :: Pusher
  lr_SDKType :: string
  lr_SDKVersionFamily :: string

text \<open>Events are pushed only when there is an endpoint for them.\<close>

definition events_logger :: "config \<Rightarrow> Logger option" where
  "events_logger conf =
    (if ev_Endpoint (cf_Events conf) \<noteq> ''''
     then Some
       \<lparr>lr_Pusher =
          \<lparr>ps_Endpoint = ev_Endpoint (cf_Events conf), ps_FlushInterval = ev_FlushInterval (cf_Events conf),
           ps_BatchSize = ev_BatchSize (cf_Events conf), ps_QueueSize = ev_QueueSize (cf_Events conf)\<rparr>,
        lr_SDKType = ''hagall'', lr_SDKVersionFamily = version\<rparr>
     else None)"

datatype encoder = Marshal | MarshalIndent string string

definition logs_encoder :: "config \<Rightarrow> encoder" where
  "logs_encoder conf = (if cf_LogIndent conf then MarshalIndent '''' ''  '' else Marshal)"

record 'k HdsOptions =
  ho_HagallEndpoint :: string
  ho_HDSEndpoint :: string
  ho_PrivateKey :: 'k

definition hds_options :: "config \<Rightarrow> 'k \<Rightarrow> 'k HdsOptions" where
  "hds_options conf privateKey =
    \<lparr>ho_HagallEndpoint = cf_PublicEndpoint conf, ho_HDSEndpoint = hds_Endpoint (cf_HDS conf), ho_PrivateKey = privateKey\<rparr>"

definition clock_options :: "config \<Rightarrow> clockCheckerConfig" where
  "clock_options conf =
    \<lparr>cc_InitialDelay = cc_InitialDelay (cf_ClockChecker conf),
     cc_SecondCheckDelay = cc_SecondCheckDelay (cf_ClockChecker conf),
     cc_CheckInterval = cc_CheckInterval (cf_ClockChecker conf),
     cc_WarningThreshold = cc_WarningThreshold (cf_ClockChecker conf),
     cc_ErrorThreshold = cc_ErrorThreshold (cf_ClockChecker conf),
     cc_NTPServerAddress = cc_NTPServerAddress (cf_ClockChecker conf)\<rparr>"

record PairIn =
  pi_Endpoint :: string
  pi_RegistrationInterval :: int
  pi_HealthCheckTTL :: int
  pi_RegistrationRetries :: int
  pi_Version :: string
  pi_Modules :: "string list"
  pi_FeatureFlags :: "string list"

text \<open>The argument of the client's \<^verbatim>\<open>Pair\<close>.\<close>

definition pairWithHDS :: "config \<Rightarrow> PairIn" where
  "pairWithHDS conf =
    \<lparr>pi_Endpoint = cf_PublicEndpoint conf, pi_RegistrationInterval = hds_RegistrationInterval (cf_HDS conf),
     pi_HealthCheckTTL = hds_HealthCheckTTL (cf_HDS conf), pi_RegistrationRetries = hds_RegistrationRetries (cf_HDS conf),
     pi_Version = version, pi_Modules = [Vikja_Name, Odal_Name, Dagaz_Name], pi_FeatureFlags = cf_FeatureFlags conf\<rparr>"

text \<open>The server announces the modules that it gives to each connection, in their order.\<close>

lemma announced_modules: "pi_Modules (pairWithHDS conf) = map mod_Name (h_Modules newHandler)"
  by (simp add: pairWithHDS_def newHandler_def mod_Name_def)

section \<open>From listening to the end\<close>

datatype stage = Serving | WaitingForPairing | Unpairing | Over | Died

record Process =
  pr_stage :: stage
  pr_listeners :: Listeners
  pr_paired :: bool

definition main_start :: "config \<Rightarrow> Process" where
  "main_start conf =
    \<lparr>pr_stage = Serving, pr_listeners = ListenAndServe [cf_Addr conf, cf_AdminAddr conf], pr_paired = False\<rparr>"

text \<open>The events: one of the servers, the pairing returns, \<^verbatim>\<open>Unpair\<close> returns (an error is
  only logged), and \<^verbatim>\<open>main\<close> gets on. A pairing that fails, unless it was cancelled, ends the
  process wherever it is.\<close>

datatype main_event = Listening listen_event | PairReturned "serve_error option" | UnpairReturned "string option" | MainGoesOn

fun main_step :: "main_event \<Rightarrow> Process \<Rightarrow> Process" where
  "main_step (Listening ev) p =
    (if pr_stage p \<in> {Died, Over} then p else p\<lparr>pr_listeners := listen_step ev (pr_listeners p)\<rparr>)"
| "main_step (PairReturned err) p =
    (if pr_stage p \<in> {Died, Over} \<or> pr_paired p then p
     else if err \<noteq> None \<and> err \<noteq> Some Canceled then p\<lparr>pr_stage := Died\<rparr>
     else p\<lparr>pr_paired := True\<rparr>)"
| "main_step (UnpairReturned err) p = (if pr_stage p = Unpairing then p\<lparr>pr_stage := Over\<rparr> else p)"
| "main_step MainGoesOn p =
    (case pr_stage p of
       Serving \<Rightarrow> if listen_returned (pr_listeners p) then p\<lparr>pr_stage := WaitingForPairing\<rparr> else p
     | WaitingForPairing \<Rightarrow> if pr_paired p then p\<lparr>pr_stage := Unpairing\<rparr> else p
     | _ \<Rightarrow> p)"

lemma listen_stays_returned: "listen_returned l \<Longrightarrow> listen_returned (listen_step ev l)"
  by (cases ev) (auto simp: listen_returned_def dest: set_update_subset_insert [THEN subsetD])

text \<open>What each stage has behind it.\<close>

definition stage_ok :: "main_event list \<Rightarrow> Process \<Rightarrow> bool" where
  "stage_ok evs p \<longleftrightarrow>
    (pr_stage p \<in> {WaitingForPairing, Unpairing, Over} \<longrightarrow> listen_returned (pr_listeners p)) \<and>
    (pr_stage p \<in> {Unpairing, Over} \<longrightarrow> pr_paired p) \<and>
    (pr_paired p \<longrightarrow> PairReturned None \<in> set evs \<or> PairReturned (Some Canceled) \<in> set evs) \<and>
    (pr_stage p = Died \<longrightarrow> \<not> pr_paired p \<and> (\<exists>err. PairReturned (Some err) \<in> set evs \<and> err \<noteq> Canceled))"

lemma stage_ok_step: "stage_ok evs p \<Longrightarrow> stage_ok (evs @ [ev]) (main_step ev p)"
  by (cases ev) (auto simp: stage_ok_def listen_stays_returned split: stage.split)

lemma stage_ok_run: "stage_ok evs (fold main_step evs (main_start conf))"
proof (induction evs rule: rev_induct)
  case (snoc ev evs)
  from stage_ok_step [OF this] show ?case by simp
qed (simp add: stage_ok_def main_start_def)

text \<open>The server unpairs only after both servers have stopped and the pairing has ended without an error or was
  cancelled; and the process dies only of a pairing that failed for another reason,
  and never once it unpairs.\<close>

theorem unpairs_last:
  assumes "p = fold main_step evs (main_start conf)"
  shows "(pr_stage p \<in> {Unpairing, Over} \<longrightarrow> listen_returned (pr_listeners p) \<and>
      (PairReturned None \<in> set evs \<or> PairReturned (Some Canceled) \<in> set evs)) \<and>
    (pr_stage p = Died \<longrightarrow> (\<exists>err. PairReturned (Some err) \<in> set evs \<and> err \<noteq> Canceled)) \<and>
    (pr_stage p \<in> {Unpairing, Over} \<longrightarrow> pr_stage (fold main_step evs' p) \<noteq> Died)"
proof -
  have "pr_stage (fold main_step evs' q) \<in> {Unpairing, Over}" if "pr_stage q \<in> {Unpairing, Over}" "pr_paired q" for q
    using that
  proof (induction evs' arbitrary: q)
    case (Cons ev evs')
    have "pr_stage (main_step ev q) \<in> {Unpairing, Over} \<and> pr_paired (main_step ev q)"
      using Cons.prems by (cases ev) auto
    with Cons.IH show ?case by simp
  qed simp
  moreover have "stage_ok evs p" unfolding assms by (rule stage_ok_run)
  ultimately show ?thesis by (fastforce simp: stage_ok_def)
qed

text \<open>An orderly end.\<close>

lemma orderly_end:
  "pr_stage (fold main_step
    [Listening CtxDone, PairReturned (Some Canceled), Listening (ServeReturned 0 (Some ErrServerClosed)),
     Listening (ServeReturned 1 (Some ErrServerClosed)), MainGoesOn, MainGoesOn, UnpairReturned None]
    (main_start (default_config ''info'' events clock))) = Over"
  by (simp add: main_start_def ListenAndServe_def listen_returned_def)

end
