(* ===== verification/Dagaz_Cells.thy ===== *)
theory Dagaz_Cells
imports Dagaz_Grid "HOL-Library.Multiset"
begin

text \<open>
  What the operations of the grid do to its cells: the invariant \<open>grid_ok\<close>, loops over
  cells as changes of each cell (\<open>changed\<close>), merging (\<open>mergeQuads_result\<close>), and
  the quads that a ray can find.
\<close>

section \<open>The invariant\<close>

text \<open>The grid is rectangular, has a cell, and holds pointers to allocated quads only.\<close>

definition columns :: "RegularGrid \<Rightarrow> nat" where
  "columns g = length (hd (g_Grid g))"

definition rectangular :: "RegularGrid \<Rightarrow> bool" where
  "rectangular g \<longleftrightarrow> g_Grid g \<noteq> [] \<and> 0 < columns g \<and> (\<forall>row \<in> set (g_Grid g). length row = columns g)"

definition allocated :: "RegularGrid \<Rightarrow> bool" where
  "allocated g \<longleftrightarrow> (\<forall>row \<in> set (g_Grid g). \<forall>ps \<in> set row. \<forall>p \<in> set ps. p < g_next g)"

definition grid_ok :: "RegularGrid \<Rightarrow> bool" where
  "grid_ok g \<longleftrightarrow> rectangular g \<and> allocated g \<and> 0 < g_Resolution g"

lemma and_then_Done: "and_then r f = Done y \<longleftrightarrow> (\<exists>x. r = Done x \<and> f x = Done y)"
  by (cases r) (simp_all add: and_then_def)

lemma and_then_simps [simp]: "and_then (Done x) f = f x" "and_then Crash f = Crash"
  by (simp_all add: and_then_def)

lemma each_append: "each f (xs @ ys) s = and_then (each f xs s) (each f ys)"
  by (induction xs arbitrary: s) (auto simp: and_then_def split: result.split)

lemma each_invariant:
  assumes "each f xs s = Done s'" and "P s"
    and "\<And>x s s'. x \<in> set xs \<Longrightarrow> P s \<Longrightarrow> f x s = Done s' \<Longrightarrow> P s'"
  shows "P s'"
  using assms
proof (induction xs arbitrary: s)
  case (Cons x xs)
  then obtain s1 where "f x s = Done s1" "each f xs s1 = Done s'" by (auto simp: and_then_Done)
  then show ?case using Cons.IH [of s1] Cons.prems(2,3) by auto
qed simp

lemma rectangularD:
  assumes "rectangular g" and "y < length (g_Grid g)"
  shows "length (g_Grid g ! y) = columns g"
  using assms by (simp add: rectangular_def)

lemma cell_rectangular: "rectangular g \<Longrightarrow> cell g y x = None \<longleftrightarrow> \<not> (y < length (g_Grid g) \<and> x < columns g)"
  by (auto simp: cell_def rectangularD)

lemma cell_allocated: "allocated g \<Longrightarrow> cell g y x = Some ps \<Longrightarrow> p \<in> set ps \<Longrightarrow> p < g_next g"
  unfolding allocated_def cell_def by (metis nth_mem option.distinct(1) option.inject)

text \<open>Grids that differ in what their cells hold.\<close>

definition same_shape :: "RegularGrid \<Rightarrow> RegularGrid \<Rightarrow> bool" where
  "same_shape g g' \<longleftrightarrow> map length (g_Grid g') = map length (g_Grid g) \<and> g_next g' = g_next g \<and>
     g_Resolution g' = g_Resolution g \<and> g_Min g' = g_Min g \<and> g_Max g' = g_Max g"

lemma same_shape_refl [simp]: "same_shape g g"
  by (simp add: same_shape_def)

lemma same_shape_trans [trans]: "same_shape g h \<Longrightarrow> same_shape h k \<Longrightarrow> same_shape g k"
  by (simp add: same_shape_def)

lemma same_shape_columns:
  assumes "same_shape g g'"
  shows "length (g_Grid g') = length (g_Grid g)" and "columns g' = columns g"
    and "rectangular g' = rectangular g"
proof -
  have m: "map length (g_Grid g') = map length (g_Grid g)" using assms by (simp add: same_shape_def)
  show l: "length (g_Grid g') = length (g_Grid g)" using map_eq_imp_length_eq [OF m] .
  show c: "columns g' = columns g"
    using m by (cases "g_Grid g"; cases "g_Grid g'") (auto simp: columns_def)
  have e: "(\<forall>row \<in> set G. length row = n) = (\<forall>k \<in> set (map length G). k = n)" for G :: "qptr list list list" and n
    by simp
  have "g_Grid g' = [] \<longleftrightarrow> g_Grid g = []" using l by auto
  then show "rectangular g' = rectangular g" unfolding rectangular_def e m c by simp
qed

lemma set_cell_shape: "same_shape g (set_cell y x ps g)"
proof (cases "y < length (g_Grid g)")
  case True
  then have "(map length (g_Grid g))[y := length (g_Grid g ! y)] = map length (g_Grid g)"
    by (simp add: list_update_same_conv)
  then show ?thesis by (simp add: same_shape_def set_cell_def map_update)
qed (simp add: same_shape_def set_cell_def list_update_beyond)

lemma cell_set_cell:
  assumes "cell g y x = Some ps"
  shows "cell (set_cell y x qs g) y' x' = (if y' = y \<and> x' = x then Some qs else cell g y' x')"
  using assms by (auto simp: cell_def set_cell_def nth_list_update split: if_splits)

lemma allocated_iff: "allocated g \<longleftrightarrow> (\<forall>y x ps. cell g y x = Some ps \<longrightarrow> (\<forall>p \<in> set ps. p < g_next g))"
proof
  assume R: "\<forall>y x ps. cell g y x = Some ps \<longrightarrow> (\<forall>p \<in> set ps. p < g_next g)"
  show "allocated g"
    unfolding allocated_def
  proof (intro ballI)
    fix row ps p assume a: "row \<in> set (g_Grid g)" "ps \<in> set row" "p \<in> set ps"
    then obtain y x where "y < length (g_Grid g)" "g_Grid g ! y = row" "x < length row" "row ! x = ps"
      by (metis in_set_conv_nth)
    then have "cell g y x = Some ps" by (simp add: cell_def)
    then show "p < g_next g" using R a(3) by blast
  qed
qed (use cell_allocated in blast)

section \<open>What the loops do to a cell\<close>

text \<open>A step of a loop on one cell: it replaces what the cell holds by a function of it.\<close>

definition cell_step :: "(qptr list \<Rightarrow> qptr list) \<Rightarrow> nat \<Rightarrow> nat \<Rightarrow> RegularGrid \<Rightarrow> RegularGrid result" where
  "cell_step f y x g = (case cell g y x of None \<Rightarrow> Crash | Some ps \<Rightarrow> Done (set_cell y x (f ps) g))"

definition dropped :: "qptr \<Rightarrow> qptr list \<Rightarrow> qptr list" where
  "dropped q ps = (if q \<in> set ps then butlast (ps[snd (arrayContains ps q) := last ps]) else ps)"

lemma set_cell_same: "cell g y x = Some ps \<Longrightarrow> set_cell y x ps g = g"
  by (auto simp: cell_def set_cell_def split: if_splits)

lemma append_cell_step: "append_cell q = cell_step (\<lambda>ps. ps @ [q])"
  by (auto simp: fun_eq_iff append_cell_def cell_step_def)

lemma remove_cell_step: "removeQuadFromCell q x y g = cell_step (dropped q) y x g"
  by (auto simp: removeQuadFromCell_def cell_step_def dropped_def arrayContains_iff split_beta set_cell_same
      split: option.split)

lemma on_cell_step: "on_cell e q y x = cell_step (if e then (\<lambda>ps. ps @ [q]) else dropped q) y x"
  by (auto simp: fun_eq_iff on_cell_def append_cell_step remove_cell_step)

lemma cell_step_result:
  assumes "cell_step f y x g = Done g'"
  shows "same_shape g g'" and "g_quads g' = g_quads g" and "y < length (g_Grid g)" and "g_PlaneCount g' = g_PlaneCount g"
    and "g_MergeCount g' = g_MergeCount g"
    and "cell g' y' x' = map_option (if y' = y \<and> x' = x then f else id) (cell g y' x')"
  using assms set_cell_shape
  by (auto simp: cell_step_def cell_set_cell option.map_id split: option.splits)
    (auto simp: set_cell_def cell_def split: if_splits)

lemma dropped_mset: "mset (dropped q ps) = mset ps - {#q#}"
proof (cases "q \<in> set ps")
  case True
  let ?i = "snd (arrayContains ps q)"
  have i: "?i < length ps" "ps ! ?i = q" using arrayContains_index [OF True] by simp_all
  have n: "ps \<noteq> []" using True by auto
  have "last (ps[?i := last ps]) = last ps"
    using n i(1) by (simp add: last_conv_nth nth_list_update)
  moreover have "ps[?i := last ps] \<noteq> []" using n by simp
  ultimately have "mset (butlast (ps[?i := last ps])) = mset (ps[?i := last ps]) - {#last ps#}"
    by (metis add_mset_remove_trivial append_butlast_last_id mset.simps(2) mset_append union_mset_add_mset_right add.right_neutral mset.simps(1))
  also have "\<dots> = mset ps - {#q#}" by (simp add: mset_update i)
  finally show ?thesis using True by (simp add: dropped_def)
next
  case False
  then have "q \<notin># mset ps" by simp
  then show ?thesis using False by (simp add: dropped_def diff_single_trivial)
qed

text \<open>A loop over distinct cells changes each of them once.\<close>

lemma row_loop:
  assumes "each (\<lambda>x. cell_step f y x) xs g = Done g'" and "distinct xs"
  shows "same_shape g g'" and "g_quads g' = g_quads g" and "g_PlaneCount g' = g_PlaneCount g" and "g_MergeCount g' = g_MergeCount g"
    and "cell g' y' x' = map_option (if y' = y \<and> x' \<in> set xs then f else id) (cell g y' x')"
proof -
  have "same_shape g g' \<and> g_quads g' = g_quads g \<and> g_PlaneCount g' = g_PlaneCount g \<and> g_MergeCount g' = g_MergeCount g \<and>
      cell g' y' x' = map_option (if y' = y \<and> x' \<in> set xs then f else id) (cell g y' x')"
    using assms
  proof (induction xs arbitrary: g)
    case (Cons x xs)
    then obtain g1 where g1: "cell_step f y x g = Done g1" "each (\<lambda>x. cell_step f y x) xs g1 = Done g'"
      by (auto simp: and_then_Done)
    note S = cell_step_result [OF g1(1)]
    show ?case
      using Cons.IH [OF g1(2)] Cons.prems(2) S same_shape_trans [OF S(1)]
      by (auto simp: option.map_comp option.map_id comp_def id_def)
  qed (simp add: option.map_id)
  then show "same_shape g g'" "g_quads g' = g_quads g" "g_PlaneCount g' = g_PlaneCount g" "g_MergeCount g' = g_MergeCount g"
    "cell g' y' x' = map_option (if y' = y \<and> x' \<in> set xs then f else id) (cell g y' x')"
    by simp_all
qed

lemma cells_loop:
  assumes "each (\<lambda>y. each (\<lambda>x. cell_step f y x) xs) ys g = Done g'" and "distinct xs" and "distinct ys"
  shows "same_shape g g' \<and> g_quads g' = g_quads g \<and> g_PlaneCount g' = g_PlaneCount g \<and> g_MergeCount g' = g_MergeCount g \<and>
    (\<forall>y' x'. cell g' y' x' = map_option (if y' \<in> set ys \<and> x' \<in> set xs then f else id) (cell g y' x'))"
  using assms
proof (induction ys arbitrary: g)
  case (Cons y ys)
  then obtain g1 where g1: "each (\<lambda>x. cell_step f y x) xs g = Done g1" "each (\<lambda>y. each (\<lambda>x. cell_step f y x) xs) ys g1 = Done g'"
    by (auto simp: and_then_Done)
  note S = row_loop [OF g1(1) Cons.prems(2)]
  show ?case
    using Cons.IH [OF g1(2)] Cons.prems(2,3) S same_shape_trans [OF S(1)]
    by (auto simp: option.map_comp option.map_id comp_def id_def)
qed (simp add: option.map_id)

section \<open>Merging\<close>

text \<open>What the four loops of a merge do to the cell at a row and a column.\<close>

definition edge :: "bool \<Rightarrow> qptr \<Rightarrow> bool \<Rightarrow> qptr list \<Rightarrow> qptr list" where
  "edge passed q expand ps = (if passed then (if expand then ps @ [q] else dropped q ps) else ps)"

definition edge_change ::
  "qptr \<Rightarrow> nat \<times> nat \<times> nat \<times> nat \<Rightarrow> nat \<times> nat \<times> nat \<times> nat \<Rightarrow> nat \<Rightarrow> nat \<Rightarrow> qptr list \<Rightarrow> qptr list" where
  "edge_change q = (\<lambda>(minX0, maxX0, minY0, maxY0) (minX1, maxX1, minY1, maxY1) y x ps.
    let rows = (min minY0 minY1 \<le> y \<and> y \<le> max maxY0 maxY1);
        cols = (max minX0 minX1 \<le> x \<and> x \<le> min maxX0 maxX1);
        left = (min minX0 minX1 \<le> x \<and> x < max minX0 minX1);
        right = (min maxX0 maxX1 < x \<and> x \<le> max maxX0 maxX1);
        top = (min minY0 minY1 \<le> y \<and> y < max minY0 minY1);
        bottom = (min maxY0 maxY1 < y \<and> y \<le> max maxY0 maxY1)
    in edge (bottom \<and> cols) q (maxY0 \<le> maxY1)
         (edge (top \<and> cols) q (minY1 < minY0)
           (edge (rows \<and> right) q (maxX0 \<le> maxX1)
             (edge (rows \<and> left) q (minX1 < minX0) ps))))"

text \<open>Grids with the same quads and counters, whose cells differ by a function.\<close>

definition changed :: "(nat \<Rightarrow> nat \<Rightarrow> qptr list \<Rightarrow> qptr list) \<Rightarrow> RegularGrid \<Rightarrow> RegularGrid \<Rightarrow> bool" where
  "changed f g g' \<longleftrightarrow> same_shape g g' \<and> g_quads g' = g_quads g \<and> g_PlaneCount g' = g_PlaneCount g \<and>
    g_MergeCount g' = g_MergeCount g \<and> (\<forall>y x. cell g' y x = map_option (f y x) (cell g y x))"

lemma changed_trans:
  assumes "changed f g h" and "changed f' h k"
  shows "changed (\<lambda>y x. f' y x \<circ> f y x) g k"
  using assms same_shape_trans [of g h k] by (simp add: changed_def option.map_comp)

lemma changed_cong: "changed f g h \<Longrightarrow> (\<And>y x ps. f y x ps = f' y x ps) \<Longrightarrow> changed f' g h"
  by (simp add: changed_def cong: option.map_cong)

lemma edge_loop:
  assumes "each (\<lambda>y. each (on_cell e q y) xs) ys g = Done g'" and "distinct xs" and "distinct ys"
  shows "changed (\<lambda>y x. edge (y \<in> set ys \<and> x \<in> set xs) q e) g g'"
proof -
  have "each (\<lambda>y. each (\<lambda>x. cell_step (if e then (\<lambda>ps. ps @ [q]) else dropped q) y x) xs) ys g = Done g'"
    using assms(1) by (simp add: on_cell_step [symmetric] eta_contract_eq)
  from cells_loop [OF this assms(2,3)] show ?thesis
    by (auto simp: changed_def edge_def option.map_id id_def intro!: option.map_cong)
qed

lemma move_edges_change:
  assumes "move_edges q c0 c1 g = Done g'"
  shows "changed (edge_change q c0 c1) g g'"
proof -
  obtain a0 b0 s0 t0 where c0: "c0 = (a0, b0, s0, t0)" by (cases c0) auto
  obtain a1 b1 s1 t1 where c1: "c1 = (a1, b1, s1, t1)" by (cases c1) auto
  let ?rows = "[min s0 s1..<Suc (max t0 t1)]"
  let ?cols = "[max a0 a1..<Suc (min b0 b1)]"
  have "and_then (each (\<lambda>y. each (on_cell (a1 < a0) q y) [min a0 a1..<max a0 a1]) ?rows g) (\<lambda>g.
       and_then (each (\<lambda>y. each (on_cell (b0 \<le> b1) q y) (rev [Suc (min b0 b1)..<Suc (max b0 b1)])) ?rows g) (\<lambda>g.
       and_then (each (\<lambda>y. each (on_cell (s1 < s0) q y) ?cols) [min s0 s1..<max s0 s1] g)
                (each (\<lambda>y. each (on_cell (t0 \<le> t1) q y) ?cols) (rev [Suc (min t0 t1)..<Suc (max t0 t1)])))) = Done g'"
    using assms by (cases "a1 < a0"; cases "b1 < b0"; cases "s1 < s0"; cases "t1 < t0")
      (simp_all add: move_edges_def c0 c1 not_less min_absorb1 min_absorb2 max_absorb1 max_absorb2 less_imp_le not_le)
  then obtain g1 g2 g3 where
    1: "each (\<lambda>y. each (on_cell (a1 < a0) q y) [min a0 a1..<max a0 a1]) ?rows g = Done g1" and
    2: "each (\<lambda>y. each (on_cell (b0 \<le> b1) q y) (rev [Suc (min b0 b1)..<Suc (max b0 b1)])) ?rows g1 = Done g2" and
    3: "each (\<lambda>y. each (on_cell (s1 < s0) q y) ?cols) [min s0 s1..<max s0 s1] g2 = Done g3" and
    4: "each (\<lambda>y. each (on_cell (t0 \<le> t1) q y) ?cols) (rev [Suc (min t0 t1)..<Suc (max t0 t1)]) g3 = Done g'"
    by (auto simp only: and_then_Done)
  note D = distinct_upt distinct_rev [THEN iffD2, OF distinct_upt]
  note C = changed_trans [OF changed_trans [OF changed_trans [OF edge_loop [OF 1 D(1) D(1)] edge_loop [OF 2 D(2) D(1)]]
      edge_loop [OF 3 D(1) D(1)]] edge_loop [OF 4 D(1) D(2)]]
  show ?thesis
    by (rule changed_cong [OF C])
      (simp only: edge_change_def c0 c1 Let_def comp_def prod.case set_rev set_upt atLeastLessThan_iff less_Suc_eq_le Suc_le_eq)
qed

lemma changed_ok:
  assumes "changed f g g'" and "grid_ok g" and "\<And>y x ps. set (f y x ps) \<subseteq> insert q (set ps)" and "q < g_next g"
  shows "grid_ok g'"
proof -
  have s: "same_shape g g'" and c: "cell g' y x = map_option (f y x) (cell g y x)" for y x
    using assms(1) by (simp_all add: changed_def)
  have a: "allocated g" using assms(2) by (simp add: grid_ok_def)
  have "allocated g'"
    unfolding allocated_iff
  proof (intro allI impI ballI)
    fix y x ps p assume "cell g' y x = Some ps" "p \<in> set ps"
    then obtain ps0 where "cell g y x = Some ps0" "p \<in> insert q (set ps0)" using c assms(3) by fastforce
    then have "p < g_next g" using cell_allocated [OF a] assms(4) by auto
    then show "p < g_next g'" using s by (simp add: same_shape_def)
  qed
  then show ?thesis
    using assms(2) same_shape_columns(3) [OF s] s by (simp add: grid_ok_def same_shape_def)
qed

lemma set_dropped: "set (dropped q ps) \<subseteq> set ps"
  using dropped_mset [of q ps] by (metis diff_subset_eq_self set_mset_mono set_mset_mset)

lemma set_edge: "set ps \<subseteq> insert q A \<Longrightarrow> set (edge b q e ps) \<subseteq> insert q A"
  using set_dropped [of q ps] by (auto simp: edge_def)

lemma set_edge_change: "set (edge_change q c0 c1 y x ps) \<subseteq> insert q (set ps)"
  unfolding edge_change_def Let_def by (cases c0; cases c1) (simp only: prod.case, intro set_edge subset_insertI)

lemma upd_quad_grid [simp]:
  "cell (upd_quad q f g) y x = cell g y x" "same_shape g (upd_quad q f g)" "g_next (upd_quad q f g) = g_next g"
  "g_PlaneCount (upd_quad q f g) = g_PlaneCount g" "g_MergeCount (upd_quad q f g) = g_MergeCount g"
  "g_quads (upd_quad q f g) = (g_quads g)(q := f (g_quads g q))" "grid_ok (upd_quad q f g) = grid_ok g"
  by (simp_all add: upd_quad_def cell_def same_shape_def grid_ok_def rectangular_def allocated_def columns_def)

lemma count_grid [simp]:
  "cell (g\<lparr>g_MergeCount := n\<rparr>) y x = cell g y x" "same_shape h (g\<lparr>g_MergeCount := n\<rparr>) = same_shape h g"
  "grid_ok (g\<lparr>g_MergeCount := n\<rparr>) = grid_ok g"
  "cell (g\<lparr>g_PlaneCount := n\<rparr>) y x = cell g y x" "same_shape h (g\<lparr>g_PlaneCount := n\<rparr>) = same_shape h g"
  "grid_ok (g\<lparr>g_PlaneCount := n\<rparr>) = grid_ok g"
  by (simp_all add: cell_def same_shape_def grid_ok_def rectangular_def allocated_def columns_def)

text \<open>The quad that a merge changes.\<close>

definition merged :: "Quad \<Rightarrow> Quad \<Rightarrow> Quad" where
  "merged old new =
    old\<lparr>q_Center := Add (q_Center old) (Mul (Sub (q_Center new) (q_Center old)) (rnd Single (2 / 10))),
        q_Extents := Add (q_Extents old) (Mul (Sub (q_Extents new) (q_Extents old)) (rnd Single (2 / 10)))\<rparr>"

lemma covers_cells_cong:
  "g_Min h = g_Min g \<Longrightarrow> g_Resolution h = g_Resolution g \<Longrightarrow> covers_cells m h q = covers_cells m g q"
  by (simp add: covers_cells_def xCoord_def yCoord_def coord_def)

lemma mergeQuads_result:
  assumes "mergeQuads m e n g = Done g'"
  shows "same_shape g g'"
    and "cell g' y x = map_option (edge_change e (covers_cells m g (g_quads g e))
        (covers_cells m g (merged (g_quads g e) (g_quads g n))) y x) (cell g y x)"
    and "g_quads g' = (g_quads g)(e := (merged (g_quads g e) (g_quads g n))\<lparr>q_MergeCount := q_MergeCount (g_quads g e) + 1\<rparr>)"
    and "g_MergeCount g' = g_MergeCount g + 1" and "g_PlaneCount g' = g_PlaneCount g"
    and "grid_ok g \<Longrightarrow> e < g_next g \<Longrightarrow> grid_ok g'"
proof -
  let ?M = "merged (g_quads g e) (g_quads g n)"
  define g1 where "g1 = upd_quad e (\<lambda>_. ?M) g"
  have m1: "upd_quad e (\<lambda>q. q\<lparr>q_Center := Add (q_Center q) (Mul (Sub (q_Center (g_quads g n)) (q_Center (g_quads g e))) (rnd Single (2 / 10))),
      q_Extents := Add (q_Extents q) (Mul (Sub (q_Extents (g_quads g n)) (q_Extents (g_quads g e))) (rnd Single (2 / 10)))\<rparr>) g = g1"
    by (simp add: g1_def upd_quad_def merged_def)
  have q1: "g_quads g1 e = ?M" by (simp add: g1_def)
  have cv: "covers_cells m g1 ?M = covers_cells m g ?M"
    by (rule covers_cells_cong) (simp_all add: g1_def upd_quad_def)
  obtain g2 where g2: "move_edges e (covers_cells m g (g_quads g e)) (covers_cells m g ?M) g1 = Done g2"
    and g': "g' = (upd_quad e (\<lambda>q. q\<lparr>q_MergeCount := q_MergeCount q + 1\<rparr>) g2)\<lparr>g_MergeCount := g_MergeCount g2 + 1\<rparr>"
    using assms unfolding mergeQuads_def Let_def m1 q1 cv by (auto simp: and_then_Done)
  note C = move_edges_change [OF g2]
  then have c: "same_shape g1 g2" "g_quads g2 = g_quads g1" "g_MergeCount g2 = g_MergeCount g1" "g_PlaneCount g2 = g_PlaneCount g1"
    "cell g2 y x = map_option (edge_change e (covers_cells m g (g_quads g e)) (covers_cells m g ?M) y x) (cell g1 y x)" for y x
    by (simp_all add: changed_def)
  have "same_shape g g1" by (simp add: g1_def)
  from same_shape_trans [OF same_shape_trans [OF this c(1)] upd_quad_grid(2)] show "same_shape g g'"
    unfolding g' by (simp only: count_grid)
  show "cell g' y x = map_option (edge_change e (covers_cells m g (g_quads g e)) (covers_cells m g ?M) y x) (cell g y x)"
    by (simp add: g' c(5)) (simp add: g1_def)
  show "g_quads g' = (g_quads g)(e := ?M\<lparr>q_MergeCount := q_MergeCount (g_quads g e) + 1\<rparr>)"
    by (simp add: g' c(2)) (simp add: g1_def merged_def)
  show "g_MergeCount g' = g_MergeCount g + 1" "g_PlaneCount g' = g_PlaneCount g"
    by (simp_all add: g' c(3,4)) (simp_all add: g1_def)
  show "grid_ok g'" if "grid_ok g" "e < g_next g"
  proof -
    have "grid_ok g1" "e < g_next g1" using that by (simp_all add: g1_def)
    from changed_ok [OF C this(1) set_edge_change this(2)] show ?thesis by (simp add: g')
  qed
qed

section \<open>The quads a ray can find\<close>

lemma fless_trans_not: "fless t m \<Longrightarrow> \<not> fless p m \<Longrightarrow> \<not> fless p t"
  by (cases t; cases m; cases p) (auto split: if_splits)

lemma nearest_hit_snoc:
  "nearest_hit g r (ps @ [p]) =
    (let (hit, t) = IntersectQuad r (g_quads g p); (q, tMin) = nearest_hit g r ps
     in if hit \<and> fless t tMin then (Some p, t) else (q, tMin))"
  by (simp add: nearest_hit_def Let_def split_beta)

lemma nearest_hit_Nil [simp]: "nearest_hit g r [] = (None, Infty False)"
  by (simp add: nearest_hit_def)

text \<open>The quad is one of the cell that the ray hits, and no other is hit before it.\<close>

lemma nearest_hit_sound:
  "(case nearest_hit g r ps of
      (None, t) \<Rightarrow> t = Infty False
    | (Some q, t) \<Rightarrow> q \<in> set ps \<and> IntersectQuad r (g_quads g q) = (True, t)) \<and>
   (\<forall>p \<in> set ps. \<forall>t. IntersectQuad r (g_quads g p) = (True, t) \<longrightarrow> \<not> fless t (snd (nearest_hit g r ps)))"
proof (induction ps rule: rev_induct)
  case (snoc p ps)
  obtain hit t where h: "IntersectQuad r (g_quads g p) = (hit, t)" by fastforce
  obtain q u where n: "nearest_hit g r ps = (q, u)" by fastforce
  have N: "nearest_hit g r (ps @ [p]) = (if hit \<and> fless t u then (Some p, t) else (q, u))"
    by (simp add: nearest_hit_snoc h n)
  have irr: "\<not> fless t t" by (cases t) auto
  show ?case
  proof (cases "hit \<and> fless t u")
    case True
    then show ?thesis using snoc h irr fless_trans_not [of t u] by (auto simp: N n)
  next
    case False
    then show ?thesis using snoc h by (auto simp: N n split: option.splits)
  qed
qed simp

definition in_cell :: "RegularGrid \<Rightarrow> qptr \<Rightarrow> bool" where
  "in_cell g q \<longleftrightarrow> (\<exists>y x ps. cell g y x = Some ps \<and> q \<in> set ps)"

lemma nearest_hit_in: "nearest_hit g r ps = (Some q, t) \<Longrightarrow> q \<in> set ps"
  using nearest_hit_sound [where g = g and r = r and ps = ps] by simp

lemma lookup_cell_in: "lookup_cell m g r from = Done (Some q, t) \<Longrightarrow> in_cell g q"
  by (auto simp: lookup_cell_def Let_def in_cell_def split: if_splits list.splits option.splits dest: nearest_hit_in)

text \<open>The cells that the loop along a slanted ray looks into.\<close>

definition walk_column :: "Machine \<Rightarrow> RegularGrid \<Rightarrow> nat \<Rightarrow> nat" where
  "walk_column m g y = toUint m (Min2 (of_integer Double (int y)) (of_integer Double (int (length (g_Grid g)) - 1)))"

definition on_walk :: "Machine \<Rightarrow> RegularGrid \<Rightarrow> qptr \<Rightarrow> bool" where
  "on_walk m g q \<longleftrightarrow> (\<exists>y ps. cell g y (walk_column m g y) = Some ps \<and> q \<in> set ps)"

lemma on_walkI: "cell g y (walk_column m g y) = Some ps \<Longrightarrow> nearest_hit g r ps = (Some q, t) \<Longrightarrow> on_walk m g q"
  unfolding on_walk_def by (blast dest: nearest_hit_in)

lemma walk_in:
  assumes "walk m g r ray dir dx dy t = Some (Done (Some q, t'))"
  shows "on_walk m g q"
proof -
  have "res = Done (Some q, t') \<longrightarrow> on_walk m g q" if "walk m g r ray dir dx dy t = Some res" for res
  proof (rule walk.raw_induct [where P = "\<lambda>m g r ray dir dx dy t res. res = Done (Some q, t') \<longrightarrow> on_walk m g q", OF _ that], goal_cases)
    case (1 f m g r ray dir dx dy t res)
    then show ?case
      unfolding walk_column_def [symmetric] Let_def
      by (auto split: option.splits prod.splits if_splits intro: on_walkI)
  qed
  then show ?thesis using assms by blast
qed

lemma on_walk_in: "on_walk m g q \<Longrightarrow> in_cell g q"
  by (auto simp: on_walk_def in_cell_def)

lemma Grid_IntersectQuad_in: "Grid_IntersectQuad m g r = Some (Done (Some q, t)) \<Longrightarrow> in_cell g q"
  unfolding Grid_IntersectQuad_def Let_def
  by (simp split: if_split_asm option.split_asm list.split_asm add: lookup_cell_in on_walk_in [OF walk_in])

end
