(* ===== verification/Dagaz_Insert.thy ===== *)
theory Dagaz_Insert
imports Dagaz_Cells
begin

text \<open>
  Inserting a quad: the loop of merges keeps the invariant of the grid, growing moves the
  contents (\<open>shifted\<close>), and a quad that is not merged enters the cells it covers.
\<close>

section \<open>Inserting keeps the grid\<close>

lemma in_cell_allocated: "grid_ok g \<Longrightarrow> in_cell g q \<Longrightarrow> q < g_next g"
  by (auto simp: grid_ok_def in_cell_def dest: cell_allocated)

lemma nearest_plane_in:
  assumes "nearest_plane m q g = Some (Done (Some hit))"
  shows "in_cell g hit"
proof -
  obtain upRay downRay hitUp tUp hitDown tDown where
    "Grid_IntersectQuad m g upRay = Some (Done (hitUp, tUp))" "Grid_IntersectQuad m g downRay = Some (Done (hitDown, tDown))"
    "(if fless tDown tUp then hitDown else hitUp) = Some hit"
    using assms by (auto simp: nearest_plane_def Let_def bind_eq_Some_conv and_then_Done split: if_split_asm option.split_asm)
  then show ?thesis using Grid_IntersectQuad_in by (auto split: if_splits)
qed

definition keeps :: "RegularGrid \<Rightarrow> qptr option \<Rightarrow> RegularGrid \<Rightarrow> bool" where
  "keeps g out g' \<longleftrightarrow> grid_ok g' \<and> same_shape g g' \<and> g_PlaneCount g' = g_PlaneCount g \<and> (\<forall>q'. out = Some q' \<longrightarrow> q' < g_next g)"

lemma keeps_step:
  assumes "nearest_plane m q g = Some (Done (Some hit))" and "mergeQuads m hit q g = Done g1" and "grid_ok g"
  shows "keeps g None g1" and "hit < g_next g1" and "grid_ok g1" and "keeps g1 out g' \<Longrightarrow> keeps g out g'"
proof -
  have h: "hit < g_next g" using nearest_plane_in [OF assms(1)] in_cell_allocated [OF assms(3)] by blast
  note M = mergeQuads_result [OF assms(2)]
  show k: "keeps g None g1" using M(1,5,6) assms(3) h by (simp add: keeps_def)
  then show "hit < g_next g1" "grid_ok g1" using h by (simp_all add: keeps_def same_shape_def)
  show "keeps g1 out g' \<Longrightarrow> keeps g out g'"
    using k same_shape_trans by (auto simp: keeps_def same_shape_def)
qed

lemma merge_loop_keeps:
  assumes "merge_loop m q g = Some (Done (out, g'))" and "grid_ok g" and "q < g_next g"
  shows "keeps g out g'"
proof -
  have "\<forall>out g'. grid_ok g \<longrightarrow> q < g_next g \<longrightarrow> res = Done (out, g') \<longrightarrow> keeps g out g'"
    if "merge_loop m q g = Some res" for res
  proof (rule merge_loop.raw_induct [where P = "\<lambda>m q g res. \<forall>out g'. grid_ok g \<longrightarrow> q < g_next g \<longrightarrow> res = Done (out, g') \<longrightarrow> keeps g out g'",
        OF _ that], goal_cases)
    case (1 loop m q g res)
    show ?case
    proof (intro allI impI)
      fix out g' assume ok: "grid_ok g" and q: "q < g_next g" and r: "res = Done (out, g')"
      have here: "keeps g (Some q) g" using ok q by (simp add: keeps_def)
      obtain found where f: "nearest_plane m q g = Some found" using 1(2) by (auto simp: bind_eq_Some_conv)
      consider "found = Crash" | "found = Done None" | hit where "found = Done (Some hit)"
        by (metis not_None_eq result.exhaust)
      then show "keeps g out g'"
      proof cases
        case 3
        note f = f [unfolded 3]
        show ?thesis
        proof (cases "mergeQuads m hit q g")
          case (Done g1)
          note K = keeps_step [OF f Done ok]
          have "keeps g1 out g'" if "loop m hit g1 = Some res" using 1(1) [OF that] K(2,3) r by blast
          then show ?thesis using 1(2) f Done r here K(1,4) by (auto split: if_split_asm)
        next
          case Crash
          then show ?thesis using 1(2) f r here by (auto split: if_split_asm)
        qed
      qed (use 1(2) f r here in auto)
    qed
  qed
  then show ?thesis using assms by blast
qed

section \<open>Growing\<close>

text \<open>A grid that was extended by rows and columns in front and behind.\<close>

definition shifted :: "nat \<Rightarrow> nat \<Rightarrow> RegularGrid \<Rightarrow> RegularGrid \<Rightarrow> bool" where
  "shifted dy dx g g' \<longleftrightarrow> rectangular g' \<and> dy + length (g_Grid g) \<le> length (g_Grid g') \<and> dx + columns g \<le> columns g' \<and>
    (\<forall>y x. y < length (g_Grid g') \<longrightarrow> x < columns g' \<longrightarrow>
      cell g' y x = (if dy \<le> y \<and> y < dy + length (g_Grid g) \<and> dx \<le> x \<and> x < dx + columns g
        then cell g (y - dy) (x - dx) else Some [])) \<and>
    g_quads g' = g_quads g \<and> g_next g' = g_next g \<and> g_Resolution g' = g_Resolution g \<and>
    g_PlaneCount g' = g_PlaneCount g \<and> g_MergeCount g' = g_MergeCount g"

lemma shifted_refl: "rectangular g \<Longrightarrow> shifted 0 0 g g"
  by (simp add: shifted_def)

lemma shifted_trans:
  assumes "shifted dy dx g h" and "shifted ey ex h k"
  shows "shifted (ey + dy) (ex + dx) g k"
proof -
  have "cell k y x = (if ey + dy \<le> y \<and> y < ey + dy + length (g_Grid g) \<and> ex + dx \<le> x \<and> x < ex + dx + columns g
        then cell g (y - (ey + dy)) (x - (ex + dx)) else Some [])"
    if "y < length (g_Grid k)" "x < columns k" for y x
  proof (cases "ey \<le> y \<and> y < ey + length (g_Grid h) \<and> ex \<le> x \<and> x < ex + columns h")
    case True
    then have "cell k y x = cell h (y - ey) (x - ex)" using assms(2) that by (simp add: shifted_def)
    moreover have "y - ey < length (g_Grid h)" "x - ex < columns h" using True by auto
    then have "cell h (y - ey) (x - ex) = (if dy \<le> y - ey \<and> y - ey < dy + length (g_Grid g) \<and> dx \<le> x - ex \<and> x - ex < dx + columns g
        then cell g (y - ey - dy) (x - ex - dx) else Some [])"
      using assms(1) by (simp add: shifted_def)
    moreover have "(dy \<le> y - ey) = (ey + dy \<le> y)" "(y - ey < dy + length (g_Grid g)) = (y < ey + dy + length (g_Grid g))"
      "(dx \<le> x - ex) = (ex + dx \<le> x)" "(x - ex < dx + columns g) = (x < ex + dx + columns g)"
      using True by auto
    ultimately show ?thesis by simp
  next
    case False
    then have "cell k y x = Some []" using assms(2) that by (auto simp: shifted_def)
    moreover have "dy + length (g_Grid g) \<le> length (g_Grid h)" "dx + columns g \<le> columns h"
      using assms(1) by (simp_all add: shifted_def)
    ultimately show ?thesis using False by auto
  qed
  then show ?thesis using assms unfolding shifted_def by (intro conjI allI impI) auto
qed

lemma shifted_ok: "shifted dy dx g g' \<Longrightarrow> grid_ok g \<Longrightarrow> grid_ok g'"
proof -
  assume s: "shifted dy dx g g'" and ok: "grid_ok g"
  have "allocated g'"
    unfolding allocated_iff
  proof (intro allI impI ballI)
    fix y x ps p assume c: "cell g' y x = Some ps" "p \<in> set ps"
    have r: "rectangular g'" using s by (simp add: shifted_def)
    have "y < length (g_Grid g')" "x < columns g'" using c(1) cell_rectangular [OF r, of y x] by auto
    then have "cell g (y - dy) (x - dx) = Some ps" using s c by (auto simp: shifted_def split: if_splits)
    then have "p < g_next g" using ok c(2) cell_allocated by (auto simp: grid_ok_def)
    then show "p < g_next g'" using s by (simp add: shifted_def)
  qed
  then show "grid_ok g'" using s ok by (simp add: grid_ok_def shifted_def)
qed

lemma framed_shifted:
  assumes "rectangular g" and G: "g_Grid g' = replicate a row @ map (\<lambda>r. replicate b [] @ r @ replicate c []) (g_Grid g) @ replicate d row"
    and row: "row = replicate (b + columns g + c) []"
    and "g_quads g' = g_quads g" "g_next g' = g_next g" "g_Resolution g' = g_Resolution g"
      "g_PlaneCount g' = g_PlaneCount g" "g_MergeCount g' = g_MergeCount g"
  shows "shifted a b g g'"
proof -
  let ?n = "length (g_Grid g)"
  have len: "length (g_Grid g') = a + ?n + d" by (simp add: G)
  have rows: "\<forall>r \<in> set (g_Grid g'). length r = b + columns g + c"
    using assms(1) by (auto simp: G row rectangular_def)
  moreover have ne: "g_Grid g' \<noteq> []" using assms(1) by (simp add: G rectangular_def)
  ultimately have col: "columns g' = b + columns g + c" unfolding columns_def by (metis hd_in_set)
  have rect: "rectangular g'" using rows ne col assms(1) by (simp add: rectangular_def)
  have cells: "cell g' y x = (if a \<le> y \<and> y < a + ?n \<and> b \<le> x \<and> x < b + columns g then cell g (y - a) (x - b) else Some [])"
    if y: "y < length (g_Grid g')" and x: "x < columns g'" for y x
  proof -
    have c: "cell g' y x = Some (g_Grid g' ! y ! x)" using y x rectangularD [OF rect y] by (simp add: cell_def)
    show ?thesis
    proof (cases "a \<le> y \<and> y < a + ?n")
      case True
      then have i: "y - a < ?n" by auto
      then have "g_Grid g' ! y = replicate b [] @ g_Grid g ! (y - a) @ replicate c []"
        using True by (simp add: G nth_append)
      then have "g_Grid g' ! y ! x = (if b \<le> x \<and> x < b + columns g then g_Grid g ! (y - a) ! (x - b) else [])"
        using x col rectangularD [OF assms(1) i] by (auto simp: nth_append)
      then show ?thesis using True c i rectangularD [OF assms(1) i] by (auto simp: cell_def)
    next
      case False
      then have "g_Grid g' ! y = row" using y len by (auto simp: G nth_append)
      then show ?thesis using False c x col by (auto simp: row)
    qed
  qed
  show ?thesis unfolding shifted_def using rect len col cells assms(4-8) by simp
qed

lemma make_slice_Done: "make_slice m n x = Done xs \<longleftrightarrow> 0 \<le> n \<and> nat n \<le> maxSlice m \<and> xs = replicate (nat n) x"
  by (auto simp: make_slice_def)

lemma ExpandToFitPoint_shifted:
  assumes "ExpandToFitPoint m p g = Done g'" and "rectangular g"
  shows "\<exists>dy dx. shifted dy dx g g'"
proof (cases "fle (vx (g_Min g)) (vx p) \<and> fle (vz (g_Min g)) (vz p) \<and> fless (vx p) (vx (g_Max g)) \<and> fless (vz p) (vz (g_Max g))")
  case True
  then show ?thesis using assms shifted_refl by (auto simp: ExpandToFitPoint_def)
next
  case False
  obtain row0 rest where G: "g_Grid g = row0 # rest" using assms(2) by (cases "g_Grid g") (auto simp: rectangular_def)
  have c: "length row0 = columns g" by (simp add: columns_def G)
  define nx where "nx = missing m g (vx p) (vx (g_Min g)) (vx (g_Max g))"
  define ny where "ny = missing m g (vz p) (vz (g_Min g)) (vz (g_Max g))"
  define b where "b = (if fless (vx p) (vx (g_Min g)) then nat nx else 0)"
  define a where "a = (if fless (vz p) (vz (g_Min g)) then nat ny else 0)"
  have X: "0 \<le> nx" "0 \<le> ny"
    using assms(1) False by (auto simp: ExpandToFitPoint_def Let_def G and_then_Done make_slice_Done nx_def ny_def)
  have "shifted a b g g'"
  proof (rule framed_shifted [OF assms(2), where row = "replicate (b + columns g + (nat nx - b)) []" and c = "nat nx - b" and d = "nat ny - a"])
    show "g_Grid g' = replicate a (replicate (b + columns g + (nat nx - b)) []) @
        map (\<lambda>r. replicate b [] @ r @ replicate (nat nx - b) []) (g_Grid g) @
        replicate (nat ny - a) (replicate (b + columns g + (nat nx - b)) [])"
      using assms(1) False X
      by (auto simp: ExpandToFitPoint_def Let_def G and_then_Done make_slice_Done nx_def [symmetric] ny_def [symmetric]
          a_def b_def c nat_add_distrib add.commute)
  qed (use assms(1) False in \<open>auto simp: ExpandToFitPoint_def Let_def G and_then_Done make_slice_Done\<close>)
  then show ?thesis by blast
qed

section \<open>Entering a quad\<close>

lemma enter_row:
  assumes "each (append_cell q i) [a..<b] g = Done g'"
  shows "changed (\<lambda>y x ps. if y = i \<and> a \<le> x \<and> x < b then ps @ [q] else ps) g g'"
  using row_loop [OF assms [unfolded append_cell_step] distinct_upt]
  by (auto simp: changed_def id_def option.map_id split: if_split_asm intro!: option.map_cong)

lemma changed_refl: "changed (\<lambda>y x ps. ps) g g"
  by (simp add: changed_def option.map_ident)

lemma changed_length: "changed f g g' \<Longrightarrow> length (g_Grid g') = length (g_Grid g) \<and> map length (g_Grid g') = map length (g_Grid g)"
  by (auto simp: changed_def same_shape_def dest: map_eq_imp_length_eq)

text \<open>The new quad enters the cells of a rectangle, clamped to the grid.\<close>

lemma enter_rows:
  assumes "each (\<lambda>i g. if length (g_Grid g) \<le> i then Crash
      else each (append_cell q i) [minX..<Suc (B (length (g_Grid g ! i)))] g) ys g = Done g'"
    and "rectangular g" and "distinct ys"
  shows "changed (\<lambda>y x ps. if y \<in> set ys \<and> minX \<le> x \<and> x < Suc (B (columns g)) then ps @ [q] else ps) g g'"
  using assms
proof (induction ys arbitrary: g)
  case Nil
  then show ?case using changed_refl by simp
next
  case (Cons i ys)
  have i: "i < length (g_Grid g)" using Cons.prems(1) by (auto simp: and_then_Done not_le split: if_splits)
  then obtain g1 where 1: "each (append_cell q i) [minX..<Suc (B (columns g))] g = Done g1"
    and 2: "each (\<lambda>i g. if length (g_Grid g) \<le> i then Crash
      else each (append_cell q i) [minX..<Suc (B (length (g_Grid g ! i)))] g) ys g1 = Done g'"
    using Cons.prems(1) rectangularD [OF Cons.prems(2)] by (auto simp: and_then_Done)
  note C = enter_row [OF 1]
  have s: "same_shape g g1" using C by (simp add: changed_def)
  have "rectangular g1" "columns g1 = columns g" using same_shape_columns [OF s] Cons.prems(2) by simp_all
  moreover have "distinct ys" using Cons.prems(3) by simp
  ultimately have I: "changed (\<lambda>y x ps. if y \<in> set ys \<and> minX \<le> x \<and> x < Suc (B (columns g)) then ps @ [q] else ps) g1 g'"
    using Cons.IH [OF 2] by simp
  have "i \<notin> set ys" using Cons.prems(3) by simp
  then show ?case by (intro changed_cong [OF changed_trans [OF C I]]) (simp add: comp_def)
qed

text \<open>The cells of a new quad, in the terms of the code: the last row and column are clamped.\<close>

definition clamp :: "Machine \<Rightarrow> nat \<Rightarrow> nat \<Rightarrow> nat" where
  "clamp m hi n = toUint m (Min2 (of_integer Double (int hi)) (of_integer Double (int n - 1)))"

lemma enter_cells_changed:
  assumes "enter_cells m q (minX, maxX, minY, maxY) g = Done g'" and "rectangular g"
  shows "changed (\<lambda>y x ps. if minY \<le> y \<and> y \<le> clamp m maxY (length (g_Grid g)) \<and>
      minX \<le> x \<and> x \<le> clamp m maxX (columns g) then ps @ [q] else ps) g g'"
proof -
  have "each (\<lambda>i g. if length (g_Grid g) \<le> i then Crash
      else each (append_cell q i) [minX..<Suc (clamp m maxX (length (g_Grid g ! i)))] g)
      [minY..<Suc (clamp m maxY (length (g_Grid g)))] g = Done g'"
    using assms(1) by (simp only: enter_cells_def clamp_def Let_def prod.case)
  from enter_rows [OF this assms(2) distinct_upt] show ?thesis
    by (simp only: set_upt atLeastLessThan_iff less_Suc_eq_le conj_assoc)
qed

lemma enter_cells_ok:
  assumes "enter_cells m q c g = Done g'" and "grid_ok g" and "q < g_next g"
  shows "grid_ok g'"
proof -
  obtain a b s t where c: "c = (a, b, s, t)" by (cases c) auto
  have "rectangular g" using assms(2) by (simp add: grid_ok_def)
  note C = enter_cells_changed [OF assms(1) [unfolded c] this]
  show ?thesis by (rule changed_ok [OF C assms(2) _ assms(3)]) auto
qed

section \<open>The whole insertion\<close>

definition allocate :: "Quad \<Rightarrow> RegularGrid \<Rightarrow> RegularGrid" where
  "allocate q g = g\<lparr>g_quads := (g_quads g)(g_next g := q), g_next := Suc (g_next g)\<rparr>"

lemma allocate_grid [simp]:
  "cell (allocate q g) y x = cell g y x" "g_next (allocate q g) = Suc (g_next g)" "rectangular (allocate q g) = rectangular g"
  "g_PlaneCount (allocate q g) = g_PlaneCount g" "g_MergeCount (allocate q g) = g_MergeCount g" "length (g_Grid (allocate q g)) = length (g_Grid g)"
  "columns (allocate q g) = columns g" "g_quads (allocate q g) = (g_quads g)(g_next g := q)"
  by (simp_all add: allocate_def cell_def rectangular_def columns_def)

lemma allocate_ok: "grid_ok g \<Longrightarrow> grid_ok (allocate q g)"
proof -
  assume g: "grid_ok g"
  have "allocated (allocate q g)"
    using g unfolding grid_ok_def allocated_def allocate_def by (simp add: less_SucI)
  then show ?thesis using g by (simp add: grid_ok_def) (simp add: allocate_def)
qed

text \<open>The stages of an insertion that returns.\<close>

lemma InsertQuad_stages:
  assumes "InsertQuad m q g = Some (Done g')" and "grid_ok g"
  obtains dy dx g1 out g2 where "shifted dy dx (allocate q g) g1" and "merge_loop m (g_next g) g1 = Some (Done (out, g2))"
    and "keeps g1 out g2" and "grid_ok g1" and
      "if out = Some (g_next g)
       then \<exists>g3. enter_cells m (g_next g) (covers_cells m g2 q) g2 = Done g3 \<and> g' = g3\<lparr>g_PlaneCount := g_PlaneCount g3 + 1\<rparr>
       else g' = g2"
proof -
  have ok0: "grid_ok (allocate q g)" using allocate_ok [OF assms(2)] .
  obtain h g1 where 1: "ExpandToFitPoint m (Sub (q_Center q) (q_Extents q)) (allocate q g) = Done h"
    "ExpandToFitPoint m (Add (q_Center q) (q_Extents q)) h = Done g1" and
    2: "Option.bind (merge_loop m (g_next g) g1) (\<lambda>r. Some (case r of Crash \<Rightarrow> Crash
        | Done (quadToMerge, g2) \<Rightarrow> if quadToMerge = Some (g_next g)
          then and_then (enter_cells m (g_next g) (covers_cells m g2 q) g2) (\<lambda>g3. Done (g3\<lparr>g_PlaneCount := g_PlaneCount g3 + 1\<rparr>))
          else Done g2)) = Some (Done g')"
    using assms(1) by (auto simp: InsertQuad_def Let_def allocate_def and_then_Done split: result.split_asm)
  obtain dy dx where s1: "shifted dy dx (allocate q g) h"
    using ExpandToFitPoint_shifted [OF 1(1)] ok0 by (auto simp: grid_ok_def)
  then have okh: "grid_ok h" using shifted_ok ok0 by blast
  obtain ey ex where s2: "shifted ey ex h g1" using ExpandToFitPoint_shifted [OF 1(2)] okh by (auto simp: grid_ok_def)
  note s = shifted_trans [OF s1 s2]
  have ok1: "grid_ok g1" using shifted_ok [OF s ok0] .
  obtain out g2 where m: "merge_loop m (g_next g) g1 = Some (Done (out, g2))" and
    e: "(if out = Some (g_next g)
          then and_then (enter_cells m (g_next g) (covers_cells m g2 q) g2) (\<lambda>g3. Done (g3\<lparr>g_PlaneCount := g_PlaneCount g3 + 1\<rparr>))
          else Done g2) = Done g'"
  proof -
    obtain r where "merge_loop m (g_next g) g1 = Some r" using 2 by (auto simp: bind_eq_Some_conv)
    then show thesis using 2 that by (cases r) auto
  qed
  have "g_next g < g_next g1" using s by (simp add: shifted_def)
  from merge_loop_keeps [OF m ok1 this] have k: "keeps g1 out g2" .
  show thesis
    by (rule that [OF s m k ok1]) (use e in \<open>auto simp: and_then_Done\<close>)
qed

text \<open>Merging puts no other quad into a cell than the ones that are in some cell already, and
  ends with the quad it started with only if it merged nothing.\<close>

lemma mergeQuads_in_cell:
  assumes "mergeQuads m e n g = Done g'" and "in_cell g e" and "in_cell g' q"
  shows "in_cell g q"
proof -
  obtain y x ps where "cell g' y x = Some ps" "q \<in> set ps" using assms(3) by (auto simp: in_cell_def)
  then obtain ps0 where c: "cell g y x = Some ps0" and
    "q \<in> set (edge_change e (covers_cells m g (g_quads g e)) (covers_cells m g (merged (g_quads g e) (g_quads g n))) y x ps0)"
    using mergeQuads_result(2) [OF assms(1)] by fastforce
  then have "q = e \<or> q \<in> set ps0" using set_edge_change by blast
  then show ?thesis using c assms(2) by (auto simp: in_cell_def)
qed

lemma merge_loop_cells:
  assumes "merge_loop m q g = Some (Done (out, g'))"
  shows "(in_cell g' p \<longrightarrow> in_cell g p) \<and> (\<forall>q'. out = Some q' \<longrightarrow> q' = q \<and> g' = g \<or> in_cell g q')"
proof -
  let ?P = "\<lambda>g q out g'. (\<forall>p. in_cell g' p \<longrightarrow> in_cell g p) \<and> (\<forall>q'. out = Some q' \<longrightarrow> q' = q \<and> g' = g \<or> in_cell g q')"
  have "\<forall>out g'. res = Done (out, g') \<longrightarrow> ?P g q out g'"
    if "merge_loop m q g = Some res" for res
  proof (rule merge_loop.raw_induct [where P = "\<lambda>m q g res. \<forall>out g'. res = Done (out, g') \<longrightarrow> ?P g q out g'", OF _ that], goal_cases)
    case (1 loop m q g res)
    show ?case
    proof (intro allI [of "\<lambda>out. \<forall>g'. res = Done (out, g') \<longrightarrow> ?P g q out g'"] allI [of "\<lambda>g'. res = Done (_, g') \<longrightarrow> ?P g q _ g'"] impI)
      fix out g' assume r: "res = Done (out, g')"
      obtain found where f: "nearest_plane m q g = Some found" using 1(2) by (auto simp: bind_eq_Some_conv)
      consider "found = Crash" | "found = Done None" | hit where "found = Done (Some hit)"
        by (metis not_None_eq result.exhaust)
      then show "?P g q out g'"
      proof cases
        case 3
        note f = f [unfolded 3]
        have h: "in_cell g hit" using nearest_plane_in [OF f] .
        show ?thesis
        proof (cases "mergeQuads m hit q g")
          case (Done g1)
          have I: "?P g1 hit out g'" if "loop m hit g1 = Some res" using 1(1) [OF that] r by blast
          show ?thesis using 1(2) f Done r I mergeQuads_in_cell [OF Done h] h by (auto split: if_split_asm)
        next
          case Crash
          then show ?thesis using 1(2) f r by (auto split: if_split_asm)
        qed
      qed (use 1(2) f r in auto)
    qed
  qed
  then show ?thesis using assms by blast
qed

text \<open>Inserting a quad, when it returns, keeps the grid in order: it stays rectangular and never
  shrinks, its cells hold allocated quads only, and the quads are one more.\<close>

theorem insertion_keeps_grid:
  assumes "grid_ok g" and "InsertQuad m q g = Some (Done g')"
  shows "grid_ok g' \<and> length (g_Grid g) \<le> length (g_Grid g') \<and> columns g \<le> columns g' \<and> g_next g' = Suc (g_next g)"
proof (rule InsertQuad_stages [OF assms(2,1)], goal_cases)
  case (1 dy dx g1 out g2)
  have s: "length (g_Grid g) \<le> length (g_Grid g1)" "columns g \<le> columns g1" "g_next g1 = Suc (g_next g)"
    using 1(1) by (simp_all add: shifted_def)
  have k: "grid_ok g2" "same_shape g1 g2" using 1(3) by (simp_all add: keeps_def)
  note t = same_shape_columns [OF k(2)]
  have n: "g_next g2 = Suc (g_next g)" using k(2) s(3) by (simp add: same_shape_def)
  show ?case
  proof (cases "out = Some (g_next g)")
    case True
    then obtain g3 where e: "enter_cells m (g_next g) (covers_cells m g2 q) g2 = Done g3"
      and g': "g' = g3\<lparr>g_PlaneCount := g_PlaneCount g3 + 1\<rparr>" using 1(5) by auto
    have "grid_ok g3" using enter_cells_ok [OF e k(1)] n by simp
    moreover obtain a b c d where c: "covers_cells m g2 q = (a, b, c, d)" by (cases "covers_cells m g2 q") auto
    have "same_shape g2 g3" using enter_cells_changed [OF e [unfolded c]] k(1) by (auto simp: grid_ok_def changed_def)
    note u = same_shape_columns [OF this] and this
    ultimately show ?thesis using s t n by (simp add: g' same_shape_def columns_def)
  next
    case False
    then show ?thesis using 1(5) k(1) s t n by simp
  qed
qed


section \<open>Evaluation\<close>

lemmas vector_eval = Sub_def Add_def Mul_def Cross_def NewVector3f_def Normalized_def Length_def Dot_def Equal_def zeroVector_def

lemmas grid_eval = vector_eval toUint_def toInt_def xCoord_def yCoord_def coord_def cell_def
  Grid_IntersectQuad_def lookup_cell_def entry_def deltaT_def Swap_def NewRegularGrid_def

text \<open>A horizontal square in the first cell.\<close>

lemma fresh_grid_eq: "fresh_grid =
  \<lparr>g_Resolution = 2, g_PlaneCount = 0, g_MergeCount = 0, g_Min = zeroVector,
   g_Max = \<lparr>vx = Fin 2, vy = Fin 0, vz = Fin 2\<rparr>, g_Grid = [[[]]], g_quads = (\<lambda>_. zeroQuad), g_next = 0\<rparr>"
  by (simp add: fresh_grid_def NewRegularGrid_def fl_eval)

lemma fresh_grid_ok: "grid_ok fresh_grid"
  by (simp add: fresh_grid_eq grid_ok_def rectangular_def allocated_def columns_def)

definition plane0 :: Quad where
  "plane0 = \<lparr>q_Center = NewVector3f (Fin 1) (Fin 0) (Fin 1), q_Extents = NewVector3f (Fin (1 / 2)) (Fin 0) (Fin (1 / 2)),
     q_Normal = NewVector3f (Fin 0) (Fin 1) (Fin 0), q_MergeCount = 0\<rparr>"

lemma plane0_fits:
  "ExpandToFitPoint mach0 (Sub (q_Center plane0) (q_Extents plane0)) (allocate plane0 fresh_grid) = Done (allocate plane0 fresh_grid)"
  "ExpandToFitPoint mach0 (Add (q_Center plane0) (q_Extents plane0)) (allocate plane0 fresh_grid) = Done (allocate plane0 fresh_grid)"
  by (simp_all add: ExpandToFitPoint_def plane0_def allocate_def fresh_grid_eq grid_eval fl_eval cong: let_weak_cong if_weak_cong)

lemma plane0_alone: "nearest_plane mach0 0 (allocate plane0 fresh_grid) = Some (Done None)"
  by (simp add: nearest_plane_def MERGE_EPSILON_def plane0_def allocate_def fresh_grid_eq grid_eval fl_eval cong: let_weak_cong if_weak_cong)

definition one_plane :: RegularGrid where
  "one_plane = (set_cell 0 0 [0] (allocate plane0 fresh_grid))\<lparr>g_PlaneCount := 1\<rparr>"

lemma plane0_inserted: "InsertQuad mach0 plane0 fresh_grid = Some (Done one_plane)"
proof -
  have l: "merge_loop mach0 0 (allocate plane0 fresh_grid) = Some (Done (Some 0, allocate plane0 fresh_grid))"
    by (simp add: merge_loop.simps plane0_alone)
  have c: "covers_cells mach0 (allocate plane0 fresh_grid) plane0 = (0, 0, 0, 0)"
    by (simp add: covers_cells_def plane0_def allocate_def fresh_grid_eq grid_eval fl_eval cong: let_weak_cong if_weak_cong)
  have z: "g_next fresh_grid = 0" "g_PlaneCount fresh_grid = 0" by (simp_all add: fresh_grid_eq)
  have "clamp mach0 0 (Suc 0) = 0" by (simp add: clamp_def toUint_def fl_eval)
  then have n: "enter_cells mach0 0 (0, 0, 0, 0) (allocate plane0 fresh_grid) = Done (set_cell 0 0 [0] (allocate plane0 fresh_grid))"
    by (simp add: enter_cells_def append_cell_def clamp_def allocate_def cell_def fresh_grid_eq)
  have p: "g_PlaneCount (set_cell 0 0 [0] (allocate plane0 fresh_grid)) = 0"
    by (simp add: set_cell_def z)
  show ?thesis
    using plane0_fits l c n p by (simp add: InsertQuad_def Let_def z one_plane_def flip: allocate_def [of plane0 fresh_grid, unfolded z])
qed

lemma insertion_keeps_grid_witness: "grid_ok one_plane \<and> g_next one_plane = 1"
  using insertion_keeps_grid [OF fresh_grid_ok plane0_inserted] by (simp add: fresh_grid_eq)


lemma one_plane_eq: "one_plane =
  \<lparr>g_Resolution = 2, g_PlaneCount = 1, g_MergeCount = 0, g_Min = zeroVector,
   g_Max = \<lparr>vx = Fin 2, vy = Fin 0, vz = Fin 2\<rparr>, g_Grid = [[[0]]], g_quads = (\<lambda>_. zeroQuad)(0 := plane0), g_next = 1\<rparr>"
  by (simp add: one_plane_def set_cell_def allocate_def fresh_grid_eq)

lemma one_plane_ok: "grid_ok one_plane"
  by (simp add: one_plane_eq grid_ok_def rectangular_def allocated_def columns_def)

end
