(* ===== verification/Plane_Store.thy ===== *)
theory Plane_Store
imports Loops Dagaz_Insert
begin

text \<open>
  The grids of the module dagaz in the sessions of a server: which steps leave them alone
  (\<open>planes\<close>, \<open>keeps_grids\<close>), and that every grid stays in order
  in every reachable state in which no loop has been stopped by a panic or by a handler that
  does not return (\<open>reach_grids\<close>).
\<close>

section \<open>What keeps the grids\<close>

text \<open>The entry of the module in every session, and the handlers that leave it alone.\<close>

definition planes :: "world \<Rightarrow> sptr \<Rightarrow> ModState option" where
  "planes w sp = s_moduleStates (w_sess w sp) Dagaz_Name"

lemma grid_planes: "planes w' sp = planes w sp \<Longrightarrow> grid_in (w_sess w' sp) = grid_in (w_sess w sp)"
  by (simp add: planes_def grid_in_def ModuleState_def)

lemma planes_cong: "w_sess w' = w_sess w \<Longrightarrow> planes w' = planes w"
  by (simp add: planes_def fun_eq_iff)

lemma planes_upd_sess: "(\<And>s. s_moduleStates (f s) = s_moduleStates s) \<Longrightarrow> planes (upd_sess q f w) = planes w"
  by (simp add: planes_def upd_sess_def fun_eq_iff)

lemma planes_upd_ecs: "planes (upd_ecs q f w) = planes w"
  unfolding upd_ecs_def by (rule planes_upd_sess) simp

lemma planes_sends [simp]:
  "planes (respond e c m w) = planes w" "planes (broadcast e sp pp m w) = planes w"
  "planes (IfNotSet fs fl (broadcast e sp pp m) w) = planes w"
  by (rule planes_cong; simp add: IfNotSet_def broadcast_def respond_def)+

lemma planes_Disc: "planes (mod_HandleDisconnect e m w) = planes w"
  by (simp add: planes_def fun_eq_iff mod_HandleDisconnect_def vikja.Disc_other odal.Disc_other Dagaz_HandleDisconnect_def
      split: ModuleKind.split)

lemma planes_leave_entity: "planes (leave_entity e sp pp i w) = planes w"
  by (simp add: leave_entity_def planes_upd_ecs planes_upd_sess RemoveEntity_def split: option.split)

lemma planes_leave: "planes (leaveSession e c w) = planes w"
proof (cases "joined w c")
  case (Some a)
  obtain sp pp where "joined w c = Some (sp, pp)" using Some by (cases a) simp
  then show ?thesis
  proof (rule leaveSession_keeps [where P = "\<lambda>w'. planes w' = planes w"])
    fix f w' assume "planes w' = planes w"
    then show "planes (upd_hand c f w') = planes w" using planes_cong [of "upd_hand c f w'" w'] by simp
  next
    fix st w' assume "planes w' = planes w"
    then show "planes (w'\<lparr>w_store := st, w_sess := (w_sess w')(sp := Close (w_sess w' sp))\<rparr>) = planes w"
      by (auto simp: planes_def fun_eq_iff Close_def)
  qed (simp_all add: planes_Disc planes_upd_ecs planes_leave_entity planes_upd_sess CancelFrame_def RemoveParticipant_def)
qed (simp add: leaveSession_def)

text \<open>A message of a connection replaces a grid by a fresh one, or inserts samples, or does nothing.\<close>

definition keeps_grids :: "world \<Rightarrow> world \<Rightarrow> bool" where
  "keeps_grids w w' \<longleftrightarrow> (\<forall>sp. grid_in (w_sess w' sp) \<in> {grid_in (w_sess w sp), fresh_grid})"

lemma keeps_grids_planes: "planes w' = planes w \<Longrightarrow> keeps_grids w w'"
  unfolding keeps_grids_def using grid_planes by (metis insertI1)

lemma keeps_grids_trans: "keeps_grids w w' \<Longrightarrow> keeps_grids w' w'' \<Longrightarrow> keeps_grids w w''"
  unfolding keeps_grids_def by simp metis

lemma planes_Init: "keeps_grids w (snd (snd (mod_Init sp pp m w)))"
proof -
  have "grid_in (w_sess (snd (snd (Dagaz_Init sp pp m w))) q) \<in> {grid_in (w_sess w q), fresh_grid}" for q
    by (cases "q = sp") (simp_all add: Dagaz_Init_def Let_def split: option.split ModState.split)
  moreover have "planes (snd (snd (Vikja_Init sp pp m w))) = planes w" "planes (snd (snd (Odal_Init sp pp m w))) = planes w"
    by (simp_all add: planes_def fun_eq_iff vikja.Init_other odal.Init_other)
  ultimately show ?thesis
    using keeps_grids_planes
    by (auto simp: mod_Init_def keeps_grids_def split: ModuleKind.split)
qed

lemma InitModules_grids: "keeps_grids w (snd (snd (InitModules sp pp ms w)))"
proof (induction ms arbitrary: w)
  case Nil
  show ?case by (simp add: keeps_grids_def)
next
  case (Cons m ms)
  obtain m' out w1 where I: "mod_Init sp pp m w = (m', out, w1)" by (metis prod.exhaust)
  have "keeps_grids w w1" using planes_Init [of w sp pp m] by (simp add: I)
  with Cons [of w1] show ?case by (auto simp: I intro: keeps_grids_trans split: prod.split)
qed

text \<open>What a join does before it initialises the modules leaves their states alone.\<close>

lemma join_session_modules:
  obtains h w5 where "\<And>q. s_moduleStates (w_sess w5 q) = s_moduleStates (w_sess w q)"
    and "snd (join_session e c req sp w) =
      upd_hand c h (snd (snd (InitModules sp (w_nextP w) (h_Modules (w_hand w c)) w5)))"
proof -
  define w1 where "w1 = snd (enter_session e c sp w)"
  have E: "enter_session e c sp w = (w_nextP w, w1)" "h_Modules (w_hand w1 c) = h_Modules (w_hand w c)"
    "\<And>q. s_moduleStates (w_sess w1 q) = s_moduleStates (w_sess w q)"
    unfolding w1_def
    by (cases "NewParticipantID (rangeU e) (w_sess w sp)",
        auto simp: enter_session_def Let_def NewParticipantID_def HandleFrame_def AddParticipant_def upd_hand_def
          split: prod.split prod.splits)+
  define w5 where "w5 = IfNotSet (FeatureFlags e) FlagDisableParticipantJoinBroadcast
      (broadcast e sp (w_nextP w) (ParticipantJoinBroadcast (join_Timestamp req) (p_ID (w_part w1 (w_nextP w)))))
      (IfNotSet (FeatureFlags e) FlagDisableSessionState (\<lambda>w. respond e c (session_state e sp w) w)
        (upd_hand c (\<lambda>h. h\<lparr>h_currentSession := Some sp, h_currentParticipant := Some (w_nextP w)\<rparr>)
          (respond e c (ParticipantJoinResponse (join_RequestId req)
            (GlobalSessionID (w_store w1) (s_ID (w_sess w1 sp))) (s_UUID (w_sess w1 sp)) (p_ID (w_part w1 (w_nextP w)))) w1)))"
  have w5: "w_sess w5 = w_sess w1" "h_Modules (w_hand w5 c) = h_Modules (w_hand w c)"
    by (simp_all add: w5_def IfNotSet_def broadcast_def respond_def E(2))
  obtain ms out w6 where I: "InitModules sp (w_nextP w) (h_Modules (w_hand w c)) w5 = (ms, out, w6)" by (metis prod.exhaust)
  have "snd (join_session e c req sp w) = upd_hand c (\<lambda>h. h\<lparr>h_Modules := ms\<rparr>) w6"
    unfolding join_session_def E(1) Let_def prod.case w5_def [symmetric] w5(2) I by simp
  then show thesis using that [of w5] E(3) by (simp add: w5(1) I)
qed

lemma join_session_grids: "keeps_grids w (snd (join_session e c req sp w))"
proof -
  obtain h w5 where J: "\<And>q. s_moduleStates (w_sess w5 q) = s_moduleStates (w_sess w q)"
    "snd (join_session e c req sp w) = upd_hand c h (snd (snd (InitModules sp (w_nextP w) (h_Modules (w_hand w c)) w5)))"
    by (rule join_session_modules [of w e c req sp]) blast
  have "keeps_grids w w5" by (rule keeps_grids_planes) (simp add: planes_def J(1) fun_eq_iff)
  from keeps_grids_trans [OF this InitModules_grids] show ?thesis by (simp add: J(2) keeps_grids_def)
qed

lemma join_grids: "keeps_grids w (snd (HandleParticipantJoin e c data w))"
proof (cases data)
  case (Inr req)
  have C: "keeps_grids w (snd (create_session e c w))" for w
    by (auto simp: create_session_def Let_def case_prod_beta keeps_grids_def grid_in_def ModuleState_def NewSession_def
        StartDispatchFrames_def)
  have L: "keeps_grids w (leaveSession e c w)" by (rule keeps_grids_planes) (rule planes_leave)
  have R: "keeps_grids w (respond e c m w')" if "keeps_grids w w'" for m w'
    using that by (simp add: keeps_grids_def)
  have refl: "keeps_grids w w" by (simp add: keeps_grids_def)
  define w1 where "w1 = (if h_currentParticipant (w_hand w c) \<noteq> None then leaveSession e c w else w)"
  obtain found st where G: "GetByGlobalID (join_SessionId req) (w_store w1) = (found, st)" by fastforce
  have 1: "keeps_grids w (w1\<lparr>w_store := st\<rparr>)"
    using L refl by (simp add: w1_def keeps_grids_def)
  obtain sp w3 where N: "create_session e c (w1\<lparr>w_store := st\<rparr>) = (sp, w3)" by fastforce
  have 3: "keeps_grids w w3" using keeps_grids_trans [OF 1 C] by (simp add: N)
  have J: "keeps_grids w (snd (join_session e c req q w'))" if "keeps_grids w w'" for q w'
    by (rule keeps_grids_trans [OF that join_session_grids])
  show ?thesis
    unfolding Inr HandleParticipantJoin_def DataTo_def sum.case Let_def w1_def [symmetric] G prod.case N
    using R [OF refl] R [OF 1] J [OF 1] J [OF 3] by (simp add: reply_error_def split: option.split)
qed (simp add: HandleParticipantJoin_def DataTo_def keeps_grids_def)

text \<open>The initialisation of the modules makes the grid anew.\<close>

lemma InitModules_fresh:
  assumes "typed (w_sess w sp)" and "DagazModule \<in> m_kind ` set ms"
  shows "grid_in (w_sess (snd (snd (InitModules sp pp ms w))) sp) = fresh_grid"
  using assms
proof (induction ms arbitrary: w)
  case (Cons m ms)
  obtain m' out w1 where I: "mod_Init sp pp m w = (m', out, w1)" by (metis prod.exhaust)
  have t: "out = Nil_error" "typed (w_sess w1 sp)" using typed_Init [OF Cons.prems(1), of pp m] by (simp_all add: I)
  show ?case
  proof (cases "DagazModule \<in> m_kind ` set ms")
    case True
    then show ?thesis
      using Cons.IH [OF t(2)] by (cases "InitModules sp pp ms w1") (auto simp: I t(1))
  next
    case False
    then have "m_kind m = DagazModule" using Cons.prems(2) by auto
    then have "grid_in (w_sess w1 sp) = fresh_grid"
      using I Cons.prems(1) by (auto simp: mod_Init_def Dagaz_Init_def Let_def ModuleState_def typed_def split: option.splits ModState.splits)
    moreover have "keeps_grids w1 (snd (snd (InitModules sp pp ms w1)))" by (rule InitModules_grids)
    ultimately show ?thesis by (cases "InitModules sp pp ms w1") (simp add: I t(1) keeps_grids_def, metis)
  qed
qed simp

section \<open>Grids stay in order\<close>

definition grids_ok :: "world \<Rightarrow> bool" where
  "grids_ok w \<longleftrightarrow> (\<forall>sp. grid_ok (grid_in (w_sess w sp)))"

lemma grids_ok_keeps: "keeps_grids w w' \<Longrightarrow> grids_ok w \<Longrightarrow> grids_ok w'"
  unfolding keeps_grids_def grids_ok_def using fresh_grid_ok by (metis insertE singletonD)

lemma grids_ok_planes: "planes w' = planes w \<Longrightarrow> grids_ok w \<Longrightarrow> grids_ok w'"
  unfolding grids_ok_def using grid_planes by (metis (no_types))

lemma grids_ok_set: "grids_ok w \<Longrightarrow> grid_ok g \<Longrightarrow> grids_ok (set_grid sp g w)"
  unfolding grids_ok_def by (metis set_grid_frame(2,3))

lemma insert_samples_ok: "insert_samples e qs g = (Nil_error, g') \<Longrightarrow> grid_ok g \<Longrightarrow> grid_ok g'"
proof (induction qs arbitrary: g)
  case (Cons q qs)
  then show ?case
    using insertion_keeps_grid by (auto split: option.splits result.splits)
qed simp

lemma insert_samples_outcome: "fst (insert_samples e qs g) \<in> {Nil_error, Panicked, Endless}"
  by (induction qs arbitrary: g) (auto split: option.split result.split)

text \<open>An outcome that does not stop the loop.\<close>

definition survived :: "outcome \<Rightarrow> bool" where
  "survived out \<longleftrightarrow> out \<noteq> Panicked \<and> out \<noteq> Endless"

lemma planes_answers:
  "planes (snd (HandleDagazGetGroundPlane e c m d1 w)) = planes w"
  "planes (snd (HandleDagazGetRegion e c m d2 w)) = planes w"
  "planes (snd (HandleDagazGetDebugInfo e c m d3 w)) = planes w"
proof -
  show "planes (snd (HandleDagazGetGroundPlane e c m d1 w)) = planes w"
    by (simp add: HandleDagazGetGroundPlane_def Let_def split: sum.split option.split result.split prod.split)
  show "planes (snd (HandleDagazGetRegion e c m d2 w)) = planes w"
    by (simp add: HandleDagazGetRegion_def Let_def split: sum.split option.split result.split prod.split)
  show "planes (snd (HandleDagazGetDebugInfo e c m d3 w)) = planes w"
    by (simp add: HandleDagazGetDebugInfo_def split: sum.split option.split result.split prod.split)
qed

lemma Dagaz_Msg_grids:
  assumes "grids_ok w" and "survived (fst (Dagaz_HandleMsg e c m msg w))"
  shows "grids_ok (snd (Dagaz_HandleMsg e c m msg w))"
proof (cases "\<exists>req. msg = DagazMessage (DagazQuadSample (Inr req)) \<and> m_current m \<noteq> None")
  case True
  then obtain req sp pp where msg: "msg = DagazMessage (DagazQuadSample (Inr req))" and m: "m_current m = Some (sp, pp)" by auto
  obtain out g where I: "insert_samples e (qs_Samples req) (grid_in (w_sess w sp)) = (out, g)" by fastforce
  have "out = Nil_error"
    using insert_samples_outcome [of e "qs_Samples req" "grid_in (w_sess w sp)"] assms(2)
    by (auto simp: I msg m Dagaz_HandleMsg_def HandleDagazQuadSample_def survived_def)
  with insert_samples_ok [of e "qs_Samples req" "grid_in (w_sess w sp)" g] assms(1) have "grid_ok g"
    by (simp add: I grids_ok_def)
  then show ?thesis
    using assms(1) by (simp add: msg m Dagaz_HandleMsg_def HandleDagazQuadSample_def I grids_ok_set)
next
  case False
  have "snd (HandleDagazQuadSample e m data w) = w" if "msg = DagazMessage (DagazQuadSample data)" for data
    using False that by (cases data) (auto simp: HandleDagazQuadSample_def split: option.split)
  then have "planes (snd (Dagaz_HandleMsg e c m msg w)) = planes w"
    by (simp add: Dagaz_HandleMsg_def planes_answers split: Msg.split DagazRequest.split)
  then show ?thesis using assms(1) by (rule grids_ok_planes)
qed

lemma HandleWithModule_grids:
  assumes "grids_ok w" and "survived (fst (HandleWithModule e c m msg w))"
  shows "grids_ok (snd (HandleWithModule e c m msg w))"
proof (cases "joined w c")
  case None
  with assms show ?thesis by (simp add: HandleWithModule_def)
next
  case (Some a)
  have "planes (snd (Vikja_HandleMsg e c m msg w)) = planes w" "planes (snd (Odal_HandleMsg e c m msg w)) = planes w"
    by (simp_all add: planes_def fun_eq_iff vikja.Msg_other odal.Msg_other)
  note V = this(1) [THEN grids_ok_planes, OF assms(1)] and O = this(2) [THEN grids_ok_planes, OF assms(1)]
  obtain out w1 where M: "mod_HandleMsg e c m msg w = (out, w1)" by fastforce
  moreover have "survived out"
    using assms(2) Some by (auto simp: HandleWithModule_def M survived_def split: outcome.splits if_splits)
  ultimately have "grids_ok w1"
    using V O Dagaz_Msg_grids [OF assms(1), of e c m msg]
    by (cases "m_kind m") (auto simp: mod_HandleMsg_def)
  then show ?thesis using Some by (auto simp: HandleWithModule_def M split: outcome.split)
qed

lemma run_modules_grids:
  assumes "grids_ok w" and "survived (fst (run_modules e c ms msg w))"
  shows "grids_ok (snd (run_modules e c ms msg w))"
  using assms
proof (induction ms arbitrary: w)
  case (Cons m ms)
  obtain out w1 where M: "HandleWithModule e c m msg w = (out, w1)" by fastforce
  show ?case
  proof (cases "out = Nil_error")
    case True
    then have "grids_ok w1" using HandleWithModule_grids [of w e c m msg] Cons.prems(1) by (simp add: M survived_def)
    with Cons True show ?thesis by (simp add: M)
  next
    case False
    then have "run_modules e c (m # ms) msg w = (out, w1)" by (cases out) (simp_all add: M)
    then show ?thesis using HandleWithModule_grids [of w e c m msg] Cons.prems by (simp add: M)
  qed
qed simp

lemma handle_core_grids:
  assumes i: "inv n w" and e: "env_ok e" and n: "n < id_limit" and g: "grids_ok w"
  shows "grids_ok (snd (handle_core e c msg w))"
proof -
  note I = invD [OF i [unfolded inv_def]]
  consider (plain) "plain msg" | (join) data where "msg = ParticipantJoinRequest data"
    | (receipt) data where "msg = ReceiptRequest data" by (cases msg) (auto simp: plain_def)
  then show ?thesis
  proof cases
    case plain
    show ?thesis
    proof (cases "joined w c")
      case None
      then have "idle w (snd (handle_core e c msg w))"
        using handle_core_idle [OF _ plain, of w c e] not_joined [OF I(1), of c] by simp
      then have "planes (snd (handle_core e c msg w)) = planes w" by (intro planes_cong) (auto simp: idle_def)
      then show ?thesis using g by (rule grids_ok_planes)
    next
      case (Some a)
      then obtain sp pp where j: "joined w c = Some (sp, pp)" by (cases a) simp
      have "core_step n msg sp pp w (snd (handle_core e c msg w))"
        using handle_core_step [OF inv_member(1) [OF i [unfolded inv_def] j] e n plain] .
      then have "s_moduleStates (w_sess (snd (handle_core e c msg w)) q) = s_moduleStates (w_sess w q)" for q
        by (cases "q = sp") (simp_all add: core_step_def local_step_def)
      then have "planes (snd (handle_core e c msg w)) = planes w" by (simp add: planes_def fun_eq_iff)
      then show ?thesis using g by (rule grids_ok_planes)
    qed
  next
    case (join data)
    then show ?thesis using grids_ok_keeps [OF join_grids g] by (simp add: handle_core_def)
  next
    case (receipt data)
    have "planes (snd (HandleReceipt e c data w)) = planes w"
      by (rule planes_cong) (simp add: HandleReceipt_def DataTo_def reply_error_def respond_def split: sum.split)
    from grids_ok_planes [OF this g] show ?thesis by (simp add: receipt handle_core_def)
  qed
qed

lemma handleMessage_grids:
  assumes "inv n w" and "env_ok e" and "n < id_limit" and "grids_ok w"
    and "survived (fst (handleMessage e c msg w))"
  shows "grids_ok (snd (handleMessage e c msg w))"
proof -
  obtain out w1 where H: "handle_core e c msg w = (out, w1)" by fastforce
  have "grids_ok w1" using handle_core_grids [OF assms(1-4), of c msg] by (simp add: H)
  then show ?thesis
    using assms(5) run_modules_grids [of w1 e c "h_Modules (w_hand w1 c)" msg]
    by (cases out) (auto simp: handleMessage_def H split: if_splits)
qed

text \<open>A panic or a handler that does not return stops a loop for ever.\<close>

definition troubled :: "world \<Rightarrow> bool" where
  "troubled w \<longleftrightarrow> (\<exists>c. w_loop w c \<in> {Crashed, Blocked})"

lemma troubled_exec:
  assumes "server_ok n w" and "env_ok e" and "n < id_limit" and "troubled w"
  shows "troubled (exec e ev w)"
proof -
  obtain c where c: "w_loop w c \<in> {Crashed, Blocked}" using assms(4) by (auto simp: troubled_def)
  then have "stuck w c" by (auto simp: stuck_def is_running_def)
  from exec_stuck(2) [OF assms(1-3) this, of ev] c show ?thesis unfolding troubled_def by metis
qed

lemma handled_grids:
  assumes "\<not> troubled (handled c r)" and "survived (fst r) \<Longrightarrow> grids_ok (snd r)"
  shows "grids_ok (handled c r)"
proof -
  obtain out w where r: "r = (out, w)" by (cases r)
  have s: "survived out"
  proof (rule ccontr)
    assume "\<not> survived out"
    then have "w_loop (handled c r) c \<in> {Crashed, Blocked}"
      by (auto simp: r survived_def handled_def set_loop_def)
    then show False using assms(1) by (auto simp: troubled_def)
  qed
  have "planes (handled c (out, w)) = planes w"
    using s by (intro planes_cong, cases out)
      (auto simp: survived_def handled_def disconnect_def set_loop_def split: loop.split)
  moreover have "grids_ok w" using assms(2) s by (simp add: r)
  ultimately show ?thesis unfolding r by (rule grids_ok_planes)
qed

lemma exec_grids:
  assumes s: "server_ok n w" and e: "env_ok e" and n: "n < id_limit" and g: "grids_ok w"
    and t: "\<not> troubled (exec e ev w)"
  shows "grids_ok (exec e ev w)"
proof -
  have i: "inv n w" using s by (simp add: server_ok_def)
  have same: "grids_ok w'" if "w_sess w' = w_sess w" for w'
    using grids_ok_planes [OF planes_cong [OF that] g] .
  show ?thesis
  proof (cases ev)
    case (Message c msg)
    show ?thesis
    proof (cases "is_running w c")
      case True
      then have "exec e ev w = handled c (handleMessage e c msg w)" by (simp add: exec_def Message)
      then show ?thesis using handled_grids [OF _ handleMessage_grids [OF i e n g]] t by simp
    qed (simp add: exec_def Message g)
  next
    case (TakeDisconnect c)
    have "planes (set_loop c l (HandleDisconnect e c w)) = planes w" for l
    proof -
      have "planes (set_loop c l (HandleDisconnect e c w)) = planes (HandleDisconnect e c w)" by (rule planes_cong) (simp add: set_loop_def)
      then show ?thesis by (simp add: HandleDisconnect_def planes_leave)
    qed
    then have "grids_ok (handleDisconnect e c w)"
      unfolding handleDisconnect_def using g by (rule grids_ok_planes)
    then show ?thesis using g by (auto simp: exec_def TakeDisconnect split: loop.split nat.split)
  next
    case (SyncClockTick c)
    show ?thesis
      by (rule same) (auto simp: exec_def SyncClockTick SendSyncClock_def handled_def respond_def)
  qed (rule same; auto simp: exec_def accept_conn_def Let_def disconnect_def set_loop_def split: loop.split)+
qed

lemma reach_grids:
  assumes "reach d n w" and "n \<le> id_limit" and "\<not> troubled w"
  shows "grids_ok w"
  using assms
proof (induction rule: reach.induct)
  case reach_init
  show ?case
    using fresh_grid_ok by (simp add: grids_ok_def init_world_def grid_in_def ModuleState_def NewSession_def)
next
  case (reach_step n w e ev)
  have s: "server_ok n w" using reach_ok [OF reach_step(1)] reach_step.prems(1) by simp
  have n: "n < id_limit" using reach_step.prems(1) by simp
  have "\<not> troubled w" using troubled_exec [OF s reach_step(2) n] reach_step.prems(2) by blast
  with reach_step have "grids_ok w" by simp
  then show ?case by (rule exec_grids [OF s reach_step(2) n _ reach_step.prems(2)])
qed

end
