(* ===== verification/Dagaz_Rays.thy ===== *)
theory Dagaz_Rays
imports Dagaz_Insert
begin

text \<open>
  The search for the quad that a ray hits. A ray straight up or down is answered with the nearest
  quad of its cell. A slanted ray only looks into the cells on the diagonal of the grid, and its
  search may panic (\<open>slanted_ray_crashes\<close>) or never end (\<open>walk_stuck\<close>,
  \<open>long_ray_endless\<close>).
\<close>

section \<open>Rays straight up and down\<close>

lemma fsub_self: "finite_fl a \<Longrightarrow> fsub Single a a = Fin 0"
  by (cases a) (auto simp: fsub_def rnd_def)

lemma unit_finite: "fle (Fin 0) t \<Longrightarrow> fle t (Fin 1) \<Longrightarrow> finite_fl t"
  by (cases t) (auto simp: fle_def)

lemma hit_finite: "IntersectQuad r q = (True, t) \<Longrightarrow> finite_fl t \<and> fle (Fin 0) t \<and> fle t (Fin 1)"
  by (auto simp: IntersectQuad_def Let_def unit_finite split: if_splits)

lemma vertical_length:
  assumes "finite_fl (vx p)" and "finite_fl (vz p)"
  shows "feq (Length (Sub (p\<lparr>vy := Fin 0\<rparr>) (p\<lparr>vy := Fin 0\<rparr>))) (Fin 0)"
  using assms by (simp add: Length_def Sub_def Dot_def fsub_self fmul_def zero_fl_def rnd_def)

text \<open>A ray straight up or down answers the quad that it hits first among those in the cell above or
  below which it starts: nil if that cell is outside the grid or the ray hits none of its
  quads, and else a quad of the cell that it hits, with the time of the hit, such that it hits no
  quad of the cell earlier. It never panics and always returns.\<close>

theorem vertical_ray_hits_nearest:
  assumes "grid_ok g" and "finite_fl (vx (r_From r))" and "finite_fl (vz (r_From r))"
    and "vx (r_To r) = vx (r_From r)" and "vz (r_To r) = vz (r_From r)"
    and "x = toInt m (xCoord g (r_From r))" and "y = toInt m (yCoord g (r_From r))"
  shows "\<exists>hit t. Grid_IntersectQuad m g r = Some (Done (hit, t)) \<and>
    (if x < 0 \<or> y < 0 \<or> int (columns g) \<le> x \<or> int (length (g_Grid g)) \<le> y then hit = None
     else (\<exists>ps. cell g (nat y) (nat x) = Some ps \<and>
       (case hit of
          None \<Rightarrow> \<forall>p \<in> set ps. fst (IntersectQuad r (g_quads g p)) = False
        | Some q \<Rightarrow> q \<in> set ps \<and> IntersectQuad r (g_quads g q) = (True, t) \<and>
            (\<forall>p \<in> set ps. \<forall>u. IntersectQuad r (g_quads g p) = (True, u) \<longrightarrow> \<not> fless u t))))"
proof -
  have rect: "rectangular g" using assms(1) by (simp add: grid_ok_def)
  obtain row0 rest where G: "g_Grid g = row0 # rest" using rect by (cases "g_Grid g") (auto simp: rectangular_def)
  have c: "columns g = length row0" by (simp add: columns_def G)
  let ?from = "(r_From r)\<lparr>vy := Fin 0\<rparr>"
  have to: "(r_To r)\<lparr>vy := Fin 0\<rparr> = ?from" using assms(4,5) by (cases "r_To r"; cases "r_From r") simp
  have L: "Grid_IntersectQuad m g r = Some (lookup_cell m g r ?from)"
    using vertical_length [OF assms(2,3)] by (simp add: Grid_IntersectQuad_def Let_def to)
  have xy: "toInt m (xCoord g ?from) = x" "toInt m (yCoord g ?from) = y"
    using assms(6,7) by (simp_all add: xCoord_def yCoord_def)
  show ?thesis
  proof (cases "x < 0 \<or> y < 0 \<or> int (columns g) \<le> x \<or> int (length (g_Grid g)) \<le> y")
    case True
    then show ?thesis using L c by (auto simp: lookup_cell_def Let_def xy G)
  next
    case False
    then have "nat y < length (g_Grid g)" "nat x < columns g" by auto
    then obtain ps where ps: "cell g (nat y) (nat x) = Some ps" using cell_rectangular [OF rect] by fastforce
    have look: "lookup_cell m g r ?from = Done (nearest_hit g r ps)"
      using False ps c by (auto simp: lookup_cell_def Let_def xy G)
    obtain hit t where n: "nearest_hit g r ps = (hit, t)" by fastforce
    note S = nearest_hit_sound [where g = g and r = r and ps = ps, unfolded n]
    have "fst (IntersectQuad r (g_quads g p)) = False" if "hit = None" "p \<in> set ps" for p
    proof (rule ccontr)
      assume "fst (IntersectQuad r (g_quads g p)) \<noteq> False"
      then obtain u where u: "IntersectQuad r (g_quads g p) = (True, u)" by (cases "IntersectQuad r (g_quads g p)") auto
      then have "\<not> fless u (Infty False)" "finite_fl u" using S that hit_finite by auto
      then show False by (cases u) auto
    qed
    then have "case hit of
          None \<Rightarrow> \<forall>p \<in> set ps. fst (IntersectQuad r (g_quads g p)) = False
        | Some q \<Rightarrow> q \<in> set ps \<and> IntersectQuad r (g_quads g q) = (True, t) \<and>
            (\<forall>p \<in> set ps. \<forall>u. IntersectQuad r (g_quads g p) = (True, u) \<longrightarrow> \<not> fless u t)"
      using S by (auto split: option.split)
    then show ?thesis using L look n ps False by auto
  qed
qed

section \<open>Slanted rays\<close>

lemma of_integer_small: "\<bar>i\<bar> < 2 ^ 53 \<Longrightarrow> of_integer Double i = Fin (of_int i)"
proof -
  assume i: "\<bar>i\<bar> < 2 ^ 53"
  have "(of_int \<bar>i\<bar> :: rat) < of_int (2 ^ 53)" using i by (simp only: of_int_less_iff)
  also have "\<dots> \<le> 2 ^ 1024" by simp
  finally have "representable Double (of_int i)"
    using i unfolding representable_def by (intro conjI exI [of _ i] exI [of _ 0]) simp_all
  then show ?thesis by (simp add: of_integer_def rnd_representable)
qed

lemma clamp_small:
  assumes "y < n" and "n \<le> 2 ^ 53"
  shows "clamp m y n = y"
proof -
  have "of_integer Double (int y) = Fin (of_nat y)" "of_integer Double (int n - 1) = Fin (of_int (int n - 1))"
    using assms of_integer_small [of "int y"] of_integer_small [of "int n - 1"] by simp_all
  moreover have "\<not> of_int (int n - 1) < (of_nat y :: rat)"
    using assms(1) by (metis of_int_less_iff of_int_of_nat_eq zle_diff1_eq not_less of_nat_less_iff)
  ultimately have "Min2 (of_integer Double (int y)) (of_integer Double (int n - 1)) = Fin (of_nat y)"
    by (auto simp: Min2_def)
  moreover have "y < 2 ^ 64" using assms by simp
  then have "int y < 2 ^ 64" by (metis of_nat_less_iff of_nat_numeral of_nat_power)
  ultimately show ?thesis using assms by (simp add: clamp_def toUint_def)
qed

lemma walk_column_clamp: "walk_column m g y = clamp m y (length (g_Grid g))"
  by (simp add: walk_column_def clamp_def)

text \<open>A ray that is not straight up or down looks into the cells on the diagonal of the grid only: if it
  answers a quad, this quad is in a cell whose row is its column. The code clamps the row
  where it means the column.\<close>

theorem slanted_ray_sees_diagonal:
  assumes "Grid_IntersectQuad m g r = Some (Done (Some q, t))"
    and "\<not> feq (Length (Sub ((r_To r)\<lparr>vy := Fin 0\<rparr>) ((r_From r)\<lparr>vy := Fin 0\<rparr>))) (Fin 0)"
    and "length (g_Grid g) \<le> 2 ^ 53"
  shows "\<exists>i ps. cell g i i = Some ps \<and> q \<in> set ps"
proof -
  have "on_walk m g q"
    using assms(1,2) unfolding Grid_IntersectQuad_def Let_def
    by (simp split: option.split_asm list.split_asm add: walk_in)
  then obtain y ps where c: "cell g y (walk_column m g y) = Some ps" "q \<in> set ps" by (auto simp: on_walk_def)
  then have "y < length (g_Grid g)" by (auto simp: cell_def split: if_splits)
  then show ?thesis using c clamp_small [OF _ assms(3), of y m] by (auto simp: walk_column_clamp)
qed

text \<open>A step that does not move makes the loop go on for ever.\<close>

lemma walk_stuck:
  assumes "cell g y (walk_column m g y) = Some ps" and "y = toUint m (yCoord g (Add (r_From ray) (Mul dir t)))"
    and "fst (nearest_hit g r ps) = None"
    and "(if fless (fadd Single t dx) (fadd Single t dy) then fadd Single t dx else fadd Single t dy) = t"
    and "\<not> fless (Fin 1) t" and "finite_fl t"
  shows "walk m g r ray dir dx dy t = None"
proof (rule ccontr)
  assume "walk m g r ray dir dx dy t \<noteq> None"
  then obtain res where res: "walk m g r ray dir dx dy t = Some res" by blast
  obtain u where n: "nearest_hit g r ps = (None, u)" using assms(3) by (cases "nearest_hit g r ps") auto
  have "\<not> (m' = m \<and> g' = g \<and> r' = r \<and> ray' = ray \<and> dir' = dir \<and> dx' = dx \<and> dy' = dy \<and> t' = t)"
    if "walk m' g' r' ray' dir' dx' dy' t' = Some res'" for m' g' r' ray' dir' dx' dy' t' res'
  proof (rule walk.raw_induct [where P = "\<lambda>m' g' r' ray' dir' dx' dy' t' res'.
      \<not> (m' = m \<and> g' = g \<and> r' = r \<and> ray' = ray \<and> dir' = dir \<and> dx' = dx \<and> dy' = dy \<and> t' = t)", OF _ that], goal_cases)
    case (1 f m' g' r' ray' dir' dx' dy' t' res')
    show ?case
    proof
      assume e: "m' = m \<and> g' = g \<and> r' = r \<and> ray' = ray \<and> dir' = dir \<and> dx' = dx \<and> dy' = dy \<and> t' = t"
      have y: "toUint m (yCoord g (Add (r_From ray) (Mul dir t))) = y" using assms(2) by simp
      have s: "(if fless (fadd Single t' dx') (fadd Single t' dy') then fadd Single t' dx' else fadd Single t' dy') = t'"
        using assms(4) by (simp only: e)
      have "f m g r ray dir dx dy t = Some res'"
        using 1(2) unfolding walk_column_def [symmetric] Let_def s
        by (simp add: e y assms(1,5,6) n)
      from 1(1) [OF this] show False by simp
    qed
  qed
  then show False using res by blast
qed


definition long_ray :: Ray where
  "long_ray = \<lparr>r_From = NewVector3f (Fin (- 67108864)) (Fin 1) (Fin 1), r_To = NewVector3f (Fin 67108864) (Fin (- 1)) (Fin 1)\<rparr>"

lemma long_ray_endless: "Grid_IntersectQuad m fresh_grid long_ray = None"
proof -
  let ?ray = "\<lparr>r_From = NewVector3f (Fin (- 67108864)) (Fin 0) (Fin 1), r_To = NewVector3f (Fin 67108864) (Fin 0) (Fin 1)\<rparr>"
  let ?dir = "NewVector3f (Fin 134217728) (Fin 0) (Fin 0)"
  have w: "walk m fresh_grid long_ray ?ray ?dir (Fin 0) (Infty False) (Fin (1 / 2)) = None"
  proof (rule walk_stuck [where y = 0 and ps = "[]"])
    show y: "0 = toUint m (yCoord fresh_grid (Add (r_From ?ray) (Mul ?dir (Fin (1 / 2)))))"
      by (simp add: fresh_grid_eq grid_eval fl_eval cong: let_weak_cong if_weak_cong)
    show "cell fresh_grid 0 (walk_column m fresh_grid 0) = Some []"
      using clamp_small [of 0 1 m] by (simp add: walk_column_clamp fresh_grid_eq cell_def)
  qed (simp_all add: fl_eval)
  show ?thesis
    using w by (simp add: long_ray_def fresh_grid_eq grid_eval fl_eval cong: let_weak_cong if_weak_cong)
qed

definition slanted_ray :: Ray where
  "slanted_ray = \<lparr>r_From = NewVector3f (Fin 1) (Fin 1) (Fin 1), r_To = NewVector3f (Fin 5) (Fin (- 1)) (Fin 5)\<rparr>"

lemma slanted_ray_crashes: "Grid_IntersectQuad m fresh_grid slanted_ray = Some Crash"
  apply (simp add: slanted_ray_def fresh_grid_eq grid_eval fl_eval cong: let_weak_cong if_weak_cong)
  apply (subst walk.simps)
  apply (simp add: grid_eval fl_eval cong: let_weak_cong if_weak_cong)
  apply (subst walk.simps)
  apply (simp add: grid_eval fl_eval cong: let_weak_cong if_weak_cong)
  done

section \<open>Witnesses\<close>

definition down_ray :: Ray where
  "down_ray = \<lparr>r_From = NewVector3f (Fin 1) (Fin 1) (Fin 1), r_To = NewVector3f (Fin 1) (Fin (- 1)) (Fin 1)\<rparr>"

lemma plane0_hit: "fst (IntersectQuad down_ray plane0) = True"
  by (simp add: IntersectQuad_def InRangeWithEpsilon_def down_ray_def plane0_def grid_eval fl_eval cong: let_weak_cong if_weak_cong)

lemma vertical_ray_hits_nearest_witness: "\<exists>t. Grid_IntersectQuad mach0 one_plane down_ray = Some (Done (Some 0, t))"
proof -
  have "finite_fl (vx (r_From down_ray))" "finite_fl (vz (r_From down_ray))"
    "vx (r_To down_ray) = vx (r_From down_ray)" "vz (r_To down_ray) = vz (r_From down_ray)"
    by (simp_all add: down_ray_def NewVector3f_def)
  moreover have "(0::int) = toInt mach0 (xCoord one_plane (r_From down_ray))" "(0::int) = toInt mach0 (yCoord one_plane (r_From down_ray))"
    by (simp_all add: down_ray_def one_plane_eq grid_eval fl_eval cong: let_weak_cong if_weak_cong)
  ultimately obtain hit t where h: "Grid_IntersectQuad mach0 one_plane down_ray = Some (Done (hit, t))"
    "case hit of None \<Rightarrow> fst (IntersectQuad down_ray plane0) = False | Some q \<Rightarrow> q = 0"
    using vertical_ray_hits_nearest [OF one_plane_ok, of down_ray 0 mach0 0]
    by (auto simp: one_plane_eq columns_def cell_def split: option.splits)
  then show ?thesis using plane0_hit by (auto split: option.splits)
qed

definition low_ray :: Ray where
  "low_ray = \<lparr>r_From = NewVector3f (Fin (3 / 4)) (Fin 1) (Fin 1), r_To = NewVector3f (Fin (5 / 4)) (Fin (- 1)) (Fin 1)\<rparr>"

lemma low_ray_hit: "IntersectQuad low_ray plane0 = (True, Fin (1 / 2))"
  by (simp add: IntersectQuad_def InRangeWithEpsilon_def low_ray_def plane0_def grid_eval fl_eval cong: let_weak_cong if_weak_cong)

lemma walk_hits:
  assumes "cell g y (walk_column m g y) = Some ps" and "y = toUint m (yCoord g (Add (r_From ray) (Mul dir t)))"
    and "nearest_hit g r ps = (Some q, u)"
  shows "walk m g r ray dir dx dy t = Some (Done (Some q, u))"
  using assms(1,3) by (subst walk.simps) (simp add: Let_def walk_column_def flip: assms(2))

lemma low_ray_hits: "Grid_IntersectQuad mach0 one_plane low_ray = Some (Done (Some 0, Fin (1 / 2)))"
proof -
  let ?ray = "\<lparr>r_From = NewVector3f (Fin (3 / 4)) (Fin 0) (Fin 1), r_To = NewVector3f (Fin (5 / 4)) (Fin 0) (Fin 1)\<rparr>"
  let ?dir = "NewVector3f (Fin (1 / 2)) (Fin 0) (Fin 0)"
  have w: "walk mach0 one_plane low_ray ?ray ?dir (Fin 4) (Infty False) (Fin 0) = Some (Done (Some 0, Fin (1 / 2)))"
  proof (rule walk_hits [where y = 0 and ps = "[0]"])
    show "cell one_plane 0 (walk_column mach0 one_plane 0) = Some [0]"
      using clamp_small [of 0 1 mach0] by (simp add: walk_column_clamp one_plane_eq cell_def)
    show "0 = toUint mach0 (yCoord one_plane (Add (r_From ?ray) (Mul ?dir (Fin 0))))"
      by (simp add: one_plane_eq grid_eval fl_eval cong: let_weak_cong if_weak_cong)
    show "nearest_hit one_plane low_ray [0] = (Some 0, Fin (1 / 2))"
      by (simp add: nearest_hit_def low_ray_hit one_plane_eq)
  qed
  show ?thesis
    using w by (simp add: low_ray_def one_plane_eq grid_eval fl_eval cong: let_weak_cong if_weak_cong)
qed

lemma slanted_ray_sees_diagonal_witness: "\<exists>i ps. cell one_plane i i = Some ps \<and> (0::qptr) \<in> set ps"
proof -
  have "\<not> feq (Length (Sub ((r_To low_ray)\<lparr>vy := Fin 0\<rparr>) ((r_From low_ray)\<lparr>vy := Fin 0\<rparr>))) (Fin 0)"
    by (simp add: low_ray_def grid_eval fl_eval cong: let_weak_cong if_weak_cong)
  with slanted_ray_sees_diagonal [OF low_ray_hits] show ?thesis by (simp add: one_plane_eq)
qed

end
