(* ===== verification/Ground_Planes.thy ===== *)
theory Ground_Planes
imports Plane_Store Dagaz_Rays Joining
begin

text \<open>
  The module dagaz as its clients see it: the properties of the requests for ground planes, from
  the message to the answer, in the reachable states of a server.
\<close>


section \<open>Messages for the module\<close>

text \<open>A message for the module reaches it: the others skip it.\<close>

lemma dagaz_message:
  assumes "inv n w" and "joined w c = Some (sp, pp)"
  obtains m where "m_kind m = DagazModule" "m_current m = Some (sp, pp)"
    and "handleMessage e c (DagazMessage dm) w = HandleWithModule e c m (DagazMessage dm) w"
proof -
  have "modules_at sp pp (h_Modules (w_hand w c))"
    using inv_member(4) [OF assms(1) [unfolded inv_def] assms(2)] .
  then obtain v od dz where ms: "h_Modules (w_hand w c) = [v, od, dz]" "m_kind v = VikjaModule" "m_kind od = OdalModule"
      "m_kind dz = DagazModule" "m_current dz = Some (sp, pp)"
    by (rule modules_atE)
  have "HandleWithModule e c v (DagazMessage dm) w = (Nil_error, w)" "HandleWithModule e c od (DagazMessage dm) w = (Nil_error, w)"
    using assms(2) ms(2,3) by (simp_all add: HandleWithModule_def mod_HandleMsg_def Vikja_HandleMsg_def Odal_HandleMsg_def)
  then have "handleMessage e c (DagazMessage dm) w = HandleWithModule e c dz (DagazMessage dm) w"
    using assms(2) ms(1) by (auto simp: handleMessage_def handle_core_def split: prod.split outcome.split)
  with ms(4,5) show thesis by (rule that)
qed

definition ask_ground :: "u32 \<Rightarrow> ProtoRay option \<Rightarrow> Msg" where
  "ask_ground rid r = DagazMessage (DagazGetGroundPlaneRequest (Inr \<lparr>gp_RequestId = rid, gp_Ray = r\<rparr>))"

definition Ray_ToProtobuf :: "Ray \<Rightarrow> ProtoRay" where
  "Ray_ToProtobuf r = \<lparr>pr_From = Some (Vector3f_ToProtobuf (r_From r)), pr_To = Some (Vector3f_ToProtobuf (r_To r))\<rparr>"

lemma ray_roundtrip [simp]: "NewRayFromProtobuf (Ray_ToProtobuf r) = Some r"
  by (simp add: NewRayFromProtobuf_def Ray_ToProtobuf_def)

text \<open>What the loop makes of the result of a search.\<close>

lemma ground_exec:
  assumes "inv n w" and "joined w c = Some (sp, pp)" and "is_running w c" and "Option.bind pr NewRayFromProtobuf = Some r"
  shows "exec e (Message c (ask_ground rid pr)) w =
    (case Grid_IntersectQuad (theMachine e) (grid_in (w_sess w sp)) r of
       None \<Rightarrow> set_loop c Blocked w
     | Some Crash \<Rightarrow> set_loop c Crashed w
     | Some (Done (hit, t)) \<Rightarrow> respond e c (DagazAnswer (DagazGetGroundPlaneResponse rid
         (Quad_ToProtobuf (case hit of None \<Rightarrow> zeroQuad | Some p \<Rightarrow> g_quads (grid_in (w_sess w sp)) p)))) w)"
proof -
  obtain m where m: "m_kind m = DagazModule" "m_current m = Some (sp, pp)"
    "handleMessage e c (ask_ground rid pr) w = HandleWithModule e c m (ask_ground rid pr) w"
    unfolding ask_ground_def by (rule dagaz_message [OF assms(1,2)])
  show ?thesis
    using assms(2,3,4)
    by (simp add: exec_def m HandleWithModule_def mod_HandleMsg_def)
      (simp add: ask_ground_def Dagaz_HandleMsg_def HandleDagazGetGroundPlane_def m(2) Let_def handled_def
        split: option.split result.split prod.split)
qed

lemma ground_exec_nil:
  assumes "inv n w" and "joined w c = Some (sp, pp)" and "is_running w c"
  shows "exec e (Message c (ask_ground rid None)) w = set_loop c Crashed w"
proof -
  obtain m where m: "m_kind m = DagazModule" "m_current m = Some (sp, pp)"
    "handleMessage e c (ask_ground rid None) w = HandleWithModule e c m (ask_ground rid None) w"
    unfolding ask_ground_def by (rule dagaz_message [OF assms(1,2)])
  show ?thesis
    using assms(2,3)
    by (simp add: exec_def m HandleWithModule_def mod_HandleMsg_def)
      (simp add: ask_ground_def Dagaz_HandleMsg_def HandleDagazGetGroundPlane_def m(2) handled_def)
qed

text \<open>C39: One request stops the loop of a connection for good. Whoever asks for the ground plane along a long
  slanted ray in a session without planes never gets an answer, since the search does not
  end; a short one that leaves the first cell makes the handler panic, and so does a request without
  a ray.\<close>

theorem slanted_request_stops_connection:
  assumes "reach d n w" and "n \<le> id_limit" and "joined w c = Some (sp, pp)" and "is_running w c"
    and "grid_in (w_sess w sp) = fresh_grid"
  shows "exec e (Message c (ask_ground rid (Some (Ray_ToProtobuf long_ray)))) w = set_loop c Blocked w \<and>
    exec e (Message c (ask_ground rid (Some (Ray_ToProtobuf slanted_ray)))) w = set_loop c Crashed w \<and>
    exec e (Message c (ask_ground rid None)) w = set_loop c Crashed w"
proof -
  have i: "inv n w" using reach_ok [OF assms(1,2)] by (simp add: server_ok_def)
  show ?thesis
    by (simp add: ground_exec [OF i assms(3,4)] ground_exec_nil [OF i assms(3,4)] assms(5) long_ray_endless slanted_ray_crashes)
qed

lemma lobby_grid: "grid_in (w_sess lobby 0) = fresh_grid"
  by (simp add: lobby_def session0_def mods0_def grid_in_def ModuleState_def Dagaz_Name_def)

lemma lobby_running: "is_running lobby 0" "is_running lobby 1"
  by (simp_all add: is_running_def lobby_def)

lemma slanted_request_stops_connection_witness:
  "w_loop (exec env0 (Message 0 (ask_ground 3 (Some (Ray_ToProtobuf long_ray)))) lobby) 0 = Blocked"
  using slanted_request_stops_connection [OF reach_lobby lobby_limit(1) lobby_joined(1) lobby_running(1) lobby_grid, of env0 3]
  by (simp add: set_loop_def)

section \<open>The plane above or below\<close>

text \<open>The first quad that a ray straight up or down hits, among those of its cell.\<close>

definition first_hit :: "Machine \<Rightarrow> RegularGrid \<Rightarrow> Ray \<Rightarrow> qptr option \<Rightarrow> bool" where
  "first_hit m g r hit \<longleftrightarrow>
    (let x = toInt m (xCoord g (r_From r)); y = toInt m (yCoord g (r_From r))
     in if x < 0 \<or> y < 0 \<or> int (columns g) \<le> x \<or> int (length (g_Grid g)) \<le> y then hit = None
        else (\<exists>ps. cell g (nat y) (nat x) = Some ps \<and>
          (case hit of
             None \<Rightarrow> \<forall>p \<in> set ps. fst (IntersectQuad r (g_quads g p)) = False
           | Some q \<Rightarrow> q \<in> set ps \<and> (\<exists>t. IntersectQuad r (g_quads g q) = (True, t) \<and>
               (\<forall>p \<in> set ps. \<forall>u. IntersectQuad r (g_quads g p) = (True, u) \<longrightarrow> \<not> fless u t)))))"

text \<open>C37: As long as no handler has panicked or failed to return, a request for the ground plane straight above or
  below a point is answered at once, to the sender only, and changes nothing else. The answer
  is the quad that the ray hits first among those of the cell of the point, and the
  zero quad if there is none.\<close>

theorem ground_plane_is_answered:
  assumes "reach d n w" and "n \<le> id_limit" and "\<forall>c. w_loop w c \<noteq> Crashed \<and> w_loop w c \<noteq> Blocked"
    and "joined w c = Some (sp, pp)" and "is_running w c"
    and "Option.bind pr NewRayFromProtobuf = Some r" and "finite_fl (vx (r_From r))" and "finite_fl (vz (r_From r))"
    and "vx (r_To r) = vx (r_From r)" and "vz (r_To r) = vz (r_From r)"
  shows "\<exists>hit. first_hit (theMachine e) (grid_in (w_sess w sp)) r hit \<and>
    exec e (Message c (ask_ground rid pr)) w = respond e c (DagazAnswer (DagazGetGroundPlaneResponse rid
      (Quad_ToProtobuf (case hit of None \<Rightarrow> zeroQuad | Some p \<Rightarrow> g_quads (grid_in (w_sess w sp)) p)))) w"
proof -
  have i: "inv n w" using reach_ok [OF assms(1,2)] by (simp add: server_ok_def)
  let ?g = "grid_in (w_sess w sp)"
  have "\<not> troubled w" using assms(3) by (auto simp: troubled_def)
  then have "grid_ok ?g" using reach_grids [OF assms(1,2)] by (simp add: grids_ok_def)
  from vertical_ray_hits_nearest [OF this assms(7-10) refl refl, of "theMachine e"]
  obtain hit t where h: "Grid_IntersectQuad (theMachine e) ?g r = Some (Done (hit, t))" "first_hit (theMachine e) ?g r hit"
    by (auto simp: first_hit_def Let_def split: option.splits if_splits)
  show ?thesis
    by (intro exI [of _ hit]) (simp add: h ground_exec [OF i assms(4-6)])
qed

section \<open>A sampled plane\<close>

text \<open>Alice samples a plane. Its normal is computed from its extents.\<close>

definition sample_msg :: Msg where
  "sample_msg = DagazMessage (DagazQuadSample (Inr \<lparr>qs_Samples = [Quad_ToProtobuf plane0]\<rparr>))"

lemma plane0_decoded: "NewQuadFromProtobuf (Quad_ToProtobuf plane0) = Some plane0"
proof -
  have "calculateNormal (q_Center plane0) (q_Extents plane0) = q_Normal plane0"
    by (simp add: calculateNormal_def plane0_def grid_eval fl_eval cong: let_weak_cong if_weak_cong)
  then show ?thesis by (simp add: NewQuadFromProtobuf_def Quad_ToProtobuf_def)
qed

definition sampled :: world where
  "sampled = set_grid 0 one_plane lobby"

lemma sampled_step: "exec env0 (Message 0 sample_msg) lobby = sampled"
proof -
  have i: "inv 5 lobby" using reach_ok [OF reach_lobby lobby_limit(1)] by (simp add: server_ok_def)
  obtain m where m: "m_kind m = DagazModule" "m_current m = Some (0, 0)"
    "handleMessage env0 0 sample_msg lobby = HandleWithModule env0 0 m sample_msg lobby"
    unfolding sample_msg_def by (rule dagaz_message [OF i lobby_joined(1)])
  have "insert_samples env0 [Quad_ToProtobuf plane0] fresh_grid = (Nil_error, one_plane)"
    using plane0_inserted by (simp add: plane0_decoded env0_def)
  then show ?thesis
    using lobby_running(1)
    by (simp add: exec_def m HandleWithModule_def mod_HandleMsg_def del: insert_samples.simps)
      (simp add: sample_msg_def Dagaz_HandleMsg_def HandleDagazQuadSample_def m(2) lobby_grid handled_def sampled_def
        del: insert_samples.simps)
qed

lemma sampled_facts:
  "reach None 6 sampled" "joined sampled 0 = Some (0, 0)" "is_running sampled 0" "grid_in (w_sess sampled 0) = one_plane"
  "\<forall>c. w_loop sampled c \<noteq> Crashed \<and> w_loop sampled c \<noteq> Blocked" "(6 :: nat) \<le> id_limit"
proof -
  have "reach None (Suc 5) sampled" unfolding sampled_step [symmetric] by (rule reach_step [OF reach_lobby env0_ok])
  then show "reach None 6 sampled" by simp
  have "w_hand sampled = w_hand lobby" by (simp add: sampled_def set_grid_def)
  then show "joined sampled 0 = Some (0, 0)" using joined_hand [of sampled lobby] by simp
  have l: "w_loop sampled = w_loop lobby" by (simp add: sampled_def set_grid_def)
  then show "is_running sampled 0" using lobby_running(1) by (simp add: is_running_def)
  show "\<forall>c. w_loop sampled c \<noteq> Crashed \<and> w_loop sampled c \<noteq> Blocked" unfolding l by (simp add: lobby_def)
qed (simp_all add: sampled_def id_limit_def)


lemma ground_plane_is_answered_witness:
  "w_out (exec env0 (Message 0 (ask_ground 3 (Some (Ray_ToProtobuf down_ray)))) sampled) 0 =
    w_out sampled 0 @ [DagazAnswer (DagazGetGroundPlaneResponse 3 (Quad_ToProtobuf plane0))]"
proof -
  have v: "finite_fl (vx (r_From down_ray))" "finite_fl (vz (r_From down_ray))"
    "vx (r_To down_ray) = vx (r_From down_ray)" "vz (r_To down_ray) = vz (r_From down_ray)"
    by (simp_all add: down_ray_def NewVector3f_def)
  have r: "Option.bind (Some (Ray_ToProtobuf down_ray)) NewRayFromProtobuf = Some down_ray" by simp
  obtain hit where h: "first_hit mach0 one_plane down_ray hit"
    "exec env0 (Message 0 (ask_ground 3 (Some (Ray_ToProtobuf down_ray)))) sampled =
      respond env0 0 (DagazAnswer (DagazGetGroundPlaneResponse 3
        (Quad_ToProtobuf (case hit of None \<Rightarrow> zeroQuad | Some p \<Rightarrow> g_quads one_plane p)))) sampled"
    using ground_plane_is_answered [OF sampled_facts(1,6,5,2,3) r v, of env0 3]
    unfolding sampled_facts(4) by (auto simp: env0_def)
  have "toInt mach0 (xCoord one_plane (r_From down_ray)) = 0" "toInt mach0 (yCoord one_plane (r_From down_ray)) = 0"
    by (simp_all add: down_ray_def one_plane_eq grid_eval fl_eval cong: let_weak_cong if_weak_cong)
  with h(1) have "hit = Some 0"
    using plane0_hit by (auto simp: first_hit_def one_plane_eq columns_def cell_def split: option.splits)
  then show ?thesis using h(2) by (simp add: respond_def enqueue_apply env0_def one_plane_eq)
qed

section \<open>Joining\<close>

text \<open>C38: A participant that joins a session by its id empties the grid of the session, which the other
  participants share: the planes that were sampled are gone for all of them. The grids of the
  other sessions stay.\<close>

theorem joining_forgets_planes:
  assumes "reach d n w" and "n < id_limit" and "env_ok e" and "joined w c = None"
    and "find_session (w_store w) (join_SessionId req) = Some sp" and "joined w c' = Some (sp, pp)"
  shows "joined (snd (HandleParticipantJoin e c (Inr req) w)) c' = Some (sp, pp) \<and>
    grid_in (w_sess (snd (HandleParticipantJoin e c (Inr req) w)) sp) = fresh_grid \<and>
    (\<forall>q. q \<noteq> sp \<longrightarrow>
      grid_in (w_sess (snd (HandleParticipantJoin e c (Inr req) w)) q) = grid_in (w_sess w q))"
proof -
  have i: "inv n w" using reach_ok [OF assms(1)] assms(2) by (simp add: server_ok_def)
  note I = invD [OF i [unfolded inv_def]]
  obtain pid fid s H q st ms where E: "HandleParticipantJoin e c (Inr req) w = (Nil_error,
      w\<lparr>w_store := st, w_part := H, w_nextP := Suc (w_nextP w),
        w_latency := (w_latency w)(w_nextP w := newSignedLatency), w_sess := (w_sess w)(sp := s),
        w_hand := (w_hand w)(c := (w_hand w c)\<lparr>h_stopFrameHandling := Some (sp, fid),
          h_currentSession := Some sp, h_currentParticipant := Some (w_nextP w), h_Modules := ms\<rparr>),
        w_out := q\<rparr>)"
    by (rule joined_by_id [OF i assms(2-5)])
  have "w_hand (snd (HandleParticipantJoin e c (Inr req) w)) c' = w_hand w c'"
    using assms(4,6) by (auto simp: E)
  from joined_at [OF this] have others: "joined (snd (HandleParticipantJoin e c (Inr req) w)) c' = Some (sp, pp)"
    "\<And>q. q \<noteq> sp \<Longrightarrow> w_sess (snd (HandleParticipantJoin e c (Inr req) w)) q = w_sess w q"
    using assms(6) by (simp_all add: E)
  let ?w2 = "w\<lparr>w_store := snd (GetByGlobalID (join_SessionId req) (w_store w))\<rparr>"
  obtain h w5 where J: "\<And>q. s_moduleStates (w_sess w5 q) = s_moduleStates (w_sess ?w2 q)"
    "snd (join_session e c req sp ?w2) = upd_hand c h (snd (snd (InitModules sp (w_nextP ?w2) (h_Modules (w_hand ?w2 c)) w5)))"
    by (rule join_session_modules [of ?w2 e c req sp]) blast
  have "typed (w_sess w sp)"
    using store_okD(3) [OF I(3) assms(5)] by (simp add: session_ok_def mods_ok_def)
  moreover have "s_moduleStates (w_sess w5 sp) = s_moduleStates (w_sess w sp)" by (simp add: J(1))
  ultimately have "typed (w_sess w5 sp)" by (simp only: typed_def)
  moreover have "DagazModule \<in> m_kind ` set (h_Modules (w_hand w c))"
    using conns_okD(2) [OF I(1), of c] by (metis image_set list.set_intros)
  ultimately have "grid_in (w_sess (snd (snd (InitModules sp (w_nextP w) (h_Modules (w_hand w c)) w5))) sp) = fresh_grid"
    by (rule InitModules_fresh)
  then have "grid_in (w_sess (snd (HandleParticipantJoin e c (Inr req) w)) sp) = fresh_grid"
    using J(2) by (simp add: join_fresh [OF I(1) assms(4)] assms(5) Let_def)
  with others show ?thesis by simp
qed

text \<open>Carol joins the session of alice and bob, who have sampled a plane.\<close>

definition sampled_guest :: world where
  "sampled_guest = exec env0 (Connect ''carol'' ''key'') sampled"

lemma sampled_guest_facts:
  "reach None 7 sampled_guest" "joined sampled_guest 2 = None" "joined sampled_guest 0 = Some (0, 0)"
  "find_session (w_store sampled_guest) ''tedx1'' = Some 0" "(7 :: nat) < id_limit"
  "grid_in (w_sess sampled_guest 0) = one_plane"
proof -
  have "reach None (Suc 6) sampled_guest"
    unfolding sampled_guest_def by (rule reach_step [OF sampled_facts(1) env0_ok])
  then show "reach None 7 sampled_guest" by simp
  have "grid_in (w_sess sampled_guest 0) = grid_in (w_sess sampled 0)"
    by (simp add: sampled_guest_def exec_def accept_conn_def set_loop_def upd_hand_def Let_def
        HandleConnect_def init_once_def)
  then show "grid_in (w_sess sampled_guest 0) = one_plane" by (simp add: sampled_facts(4))
  have h: "w_hand sampled_guest = w_hand guest" "w_store sampled_guest = w_store guest"
    by (simp_all add: sampled_guest_def guest_def sampled_def set_grid_def exec_def accept_conn_def upd_hand_def Let_def upd_sess_def set_loop_def)
  show "joined sampled_guest 2 = None" "find_session (w_store sampled_guest) ''tedx1'' = Some 0"
    by (simp_all add: joined_hand [OF h(1)] h(2) guest_facts(2,3))
  have "w_nextC lobby = 2" by (simp add: lobby_def)
  then have "w_hand guest 0 = w_hand lobby 0"
    by (simp add: guest_def exec_def accept_conn_def upd_hand_def set_loop_def Let_def)
  then show "joined sampled_guest 0 = Some (0, 0)"
    using lobby_joined(1) by (simp add: joined_hand [OF h(1)] joined_at)
qed (simp add: id_limit_def)

lemma joining_forgets_planes_witness:
  "grid_in (w_sess (snd (HandleParticipantJoin env0 2 (Inr (carol_req ''tedx1'')) sampled_guest)) 0) \<noteq>
    grid_in (w_sess sampled_guest 0)"
proof -
  have "find_session (w_store sampled_guest) (join_SessionId (carol_req ''tedx1'')) = Some 0"
    using sampled_guest_facts(4) by (simp add: carol_req_def)
  from joining_forgets_planes [OF sampled_guest_facts(1,5) env0_ok sampled_guest_facts(2) this sampled_guest_facts(3)]
  have "grid_in (w_sess (snd (HandleParticipantJoin env0 2 (Inr (carol_req ''tedx1'')) sampled_guest)) 0) = fresh_grid"
    by simp
  then show ?thesis by (simp add: sampled_guest_facts(6) fresh_grid_eq one_plane_eq)
qed

end
