(* ===== verification/Dagaz_Queries.thy ===== *)
theory Dagaz_Queries
imports Dagaz_Insert
begin

text \<open>
  The answers to the two queries that read the whole grid: the quads of a region, and the debug
  information with the occupancy of every cell.
\<close>

section \<open>Regions\<close>

text \<open>The half-open range of cells that a region is read from.\<close>

definition region_cells :: "Machine \<Rightarrow> RegularGrid \<Rightarrow> Vector3f \<Rightarrow> Vector3f \<Rightarrow> nat \<times> nat \<times> nat \<times> nat" where
  "region_cells m g min0 max0 =
    (let lo = \<lparr>vx = Max2 (vx min0) (vx (g_Min g)), vy = Fin 0, vz = Max2 (vz min0) (vz (g_Min g))\<rparr>;
         hi = \<lparr>vx = Min2 (vx max0) (vx (g_Max g)), vy = Fin 0, vz = Min2 (vz max0) (vz (g_Max g))\<rparr>
     in (toUint m (xCoord g lo), toUint m (xCoord g hi), toUint m (yCoord g lo), toUint m (yCoord g hi)))"

lemma collect_row:
  "each (\<lambda>x acc. case cell g y x of None \<Rightarrow> Crash | Some ps \<Rightarrow> Done (acc \<union> set ps)) xs acc =
    (if \<forall>x \<in> set xs. cell g y x \<noteq> None then Done (acc \<union> {q. \<exists>x ps. x \<in> set xs \<and> cell g y x = Some ps \<and> q \<in> set ps}) else Crash)"
  by (induction xs arbitrary: acc) (auto split: option.split)

lemma collect_rows:
  "each (\<lambda>y. each (\<lambda>x acc. case cell g y x of None \<Rightarrow> Crash | Some ps \<Rightarrow> Done (acc \<union> set ps)) xs) ys acc =
    (if \<forall>y \<in> set ys. \<forall>x \<in> set xs. cell g y x \<noteq> None
     then Done (acc \<union> {q. \<exists>y x ps. y \<in> set ys \<and> x \<in> set xs \<and> cell g y x = Some ps \<and> q \<in> set ps}) else Crash)"
  by (induction ys arbitrary: acc) (auto simp: collect_row)


section \<open>The debug information\<close>

lemma occupancy_row:
  assumes "\<forall>x < k. cell g y x \<noteq> None \<and> unat (of_nat y * c + of_nat x :: u32) = y * unat c + x"
    and "y * unat c + k \<le> length occ"
  shows "\<exists>occ'. each (occupancy_turn g c y) [0..<k] occ = Done occ' \<and> length occ' = length occ \<and>
    (\<forall>i < length occ. occ' ! i = (if y * unat c \<le> i \<and> i < y * unat c + k
       then of_nat (length (the (cell g y (i - y * unat c)))) else occ ! i))"
  using assms
proof (induction k)
  case (Suc k)
  then obtain occ1 where 1: "each (occupancy_turn g c y) [0..<k] occ = Done occ1" "length occ1 = length occ"
    "\<forall>i < length occ. occ1 ! i = (if y * unat c \<le> i \<and> i < y * unat c + k
       then of_nat (length (the (cell g y (i - y * unat c)))) else occ ! i)" by auto
  obtain ps where ps: "cell g y k = Some ps" using Suc.prems(1) by blast
  have i: "unat (of_nat y * c + of_nat k :: u32) = y * unat c + k" using Suc.prems(1) by blast
  have "occupancy_turn g c y k occ1 = Done (occ1[y * unat c + k := of_nat (length ps)])"
    using Suc.prems(2) by (simp add: occupancy_turn_def Let_def i ps 1(2))
  then have "each (occupancy_turn g c y) [0..<Suc k] occ = Done (occ1[y * unat c + k := of_nat (length ps)])"
    by (simp add: each_append 1(1))
  moreover have "\<forall>i < length occ. occ1[y * unat c + k := of_nat (length ps)] ! i =
      (if y * unat c \<le> i \<and> i < y * unat c + Suc k then of_nat (length (the (cell g y (i - y * unat c)))) else occ ! i)"
  proof (intro allI impI)
    fix i assume "i < length occ"
    then show "occ1[y * unat c + k := of_nat (length ps)] ! i =
        (if y * unat c \<le> i \<and> i < y * unat c + Suc k then of_nat (length (the (cell g y (i - y * unat c)))) else occ ! i)"
      using 1(2,3) ps by (cases "i = y * unat c + k") simp_all
  qed
  ultimately show ?case using 1(2) by auto
qed auto

lemma occupancy_rows:
  assumes "\<forall>y < n. \<forall>x < unat c. cell g y x \<noteq> None \<and> unat (of_nat y * c + of_nat x :: u32) = y * unat c + x"
    and "n * unat c \<le> length occ"
  shows "\<exists>occ'. each (\<lambda>y. each (occupancy_turn g c y) [0..<unat c]) [0..<n] occ = Done occ' \<and> length occ' = length occ \<and>
    (\<forall>y < n. \<forall>x < unat c. occ' ! (y * unat c + x) = of_nat (length (the (cell g y x))))"
  using assms
proof (induction n)
  case (Suc n)
  then obtain occ1 where 1: "each (\<lambda>y. each (occupancy_turn g c y) [0..<unat c]) [0..<n] occ = Done occ1" "length occ1 = length occ"
    "\<forall>y < n. \<forall>x < unat c. occ1 ! (y * unat c + x) = of_nat (length (the (cell g y x)))" by auto
  have "n * unat c + unat c \<le> length occ1" using Suc.prems(2) 1(2) by simp
  from occupancy_row [of "unat c" g n c occ1, OF _ this] Suc.prems(1)
  obtain occ2 where 2: "each (occupancy_turn g c n) [0..<unat c] occ1 = Done occ2" "length occ2 = length occ1"
    "\<forall>i < length occ1. occ2 ! i = (if n * unat c \<le> i \<and> i < n * unat c + unat c
       then of_nat (length (the (cell g n (i - n * unat c)))) else occ1 ! i)" by auto
  have "occ2 ! (y * unat c + x) = of_nat (length (the (cell g y x)))" if "y < Suc n" "x < unat c" for y x
  proof (cases "y = n")
    case True
    then show ?thesis using 2(3) that Suc.prems(2) 1(2) by simp
  next
    case False
    then have "Suc y \<le> n" using that by simp
    then have "Suc y * unat c \<le> n * unat c" by (rule mult_le_mono1)
    then have "y * unat c + x < n * unat c" using that(2) by simp
    then show ?thesis using 2(3) 1(3) that False Suc.prems(2) 1(2) by simp
  qed
  then show ?case using 1 2 by (auto simp: each_append)
qed simp

text \<open>The debug information of a grid with less than \<open>2 ^ 32\<close> cells is always answered, with the
  true numbers of rows and columns, and the occupancy of a cell is the number of its quads, row by
  row.\<close>

theorem debug_info_is_right:
  assumes "grid_ok g" and "length (g_Grid g) * columns g < 2 ^ 32"
  shows "\<exists>info. GetDebugInfo g = Done info \<and> unat (di_Row_count info) = length (g_Grid g) \<and>
    unat (di_Col_count info) = columns g \<and> di_Plane_count info = g_PlaneCount g \<and> di_Merge_count info = g_MergeCount g \<and>
    length (di_Occupancy info) = length (g_Grid g) * columns g \<and>
    (\<forall>y < length (g_Grid g). \<forall>x < columns g. \<exists>ps. cell g y x = Some ps \<and>
      di_Occupancy info ! (y * columns g + x) = of_nat (length ps))"
proof -
  have rect: "rectangular g" using assms(1) by (simp add: grid_ok_def)
  obtain row0 rest where G: "g_Grid g = row0 # rest" using rect by (cases "g_Grid g") (auto simp: rectangular_def)
  let ?n = "length (g_Grid g)" let ?k = "columns g"
  have pos: "0 < ?n" "0 < ?k" using rect by (auto simp: rectangular_def)
  have "?n * 1 \<le> ?n * ?k" "1 * ?k \<le> ?n * ?k"
    using pos mult_le_mono2 [of 1 ?k ?n] mult_le_mono1 [of 1 ?n ?k] by linarith+
  then have b: "?n < 2 ^ 32" "?k < 2 ^ 32" using assms(2) by linarith+
  have u: "unat (of_nat ?n :: u32) = ?n" "unat (of_nat ?k :: u32) = ?k"
    using b by (simp_all add: unat_of_nat take_bit_nat_eq_self)
  have p: "unat (of_nat ?n * of_nat ?k :: u32) = ?n * ?k"
    using assms(2) by (simp add: unat_of_nat take_bit_nat_eq_self flip: of_nat_mult)
  have i: "cell g y x \<noteq> None \<and> unat (of_nat y * of_nat ?k + of_nat x :: u32) = y * ?k + x" if "y < ?n" "x < ?k" for y x
  proof
    show "cell g y x \<noteq> None" using that cell_rectangular [OF rect, of y x] by simp
    have "Suc y * ?k \<le> ?n * ?k" using that(1) by (intro mult_le_mono1) simp
    then have "y * ?k + x < 2 ^ 32" using that(2) assms(2) by simp
    then show "unat (of_nat y * of_nat ?k + of_nat x :: u32) = y * ?k + x"
      by (simp add: unat_of_nat take_bit_nat_eq_self flip: of_nat_mult of_nat_add)
  qed
  have c: "length row0 = ?k" by (simp add: columns_def G)
  obtain occ where o: "each (\<lambda>y. each (occupancy_turn g (of_nat ?k) y) [0..<?k]) [0..<?n] (replicate (?n * ?k) 0) = Done occ"
    "length occ = ?n * ?k" "\<forall>y < ?n. \<forall>x < ?k. occ ! (y * ?k + x) = of_nat (length (the (cell g y x)))"
    using occupancy_rows [of ?n "of_nat ?k" g "replicate (?n * ?k) 0"] i by (auto simp: u)
  have "GetDebugInfo g = and_then (each (\<lambda>y. each (occupancy_turn g (of_nat ?k) y) [0..<?k]) [0..<?n] (replicate (?n * ?k) 0))
      (\<lambda>occ. Done \<lparr>di_Resolution = of_nat (g_Resolution g), di_Row_count = of_nat ?n,
        di_Col_count = of_nat ?k, di_Plane_count = g_PlaneCount g, di_Merge_count = g_MergeCount g,
        di_Min_point = g_Min g, di_Max_point = g_Max g, di_Occupancy = occ\<rparr>)"
    unfolding GetDebugInfo_def G list.case c Let_def unfolding G [symmetric] u p ..
  then have "GetDebugInfo g = Done \<lparr>di_Resolution = of_nat (g_Resolution g), di_Row_count = of_nat ?n,
        di_Col_count = of_nat ?k, di_Plane_count = g_PlaneCount g, di_Merge_count = g_MergeCount g,
        di_Min_point = g_Min g, di_Max_point = g_Max g, di_Occupancy = occ\<rparr>"
    by (simp add: o(1))
  moreover have "\<exists>ps. cell g y x = Some ps \<and> occ ! (y * ?k + x) = of_nat (length ps)" if "y < ?n" "x < ?k" for y x
    using i [OF that] o(3) that by (cases "cell g y x") auto
  ultimately show ?thesis using o(2) by (simp add: u)
qed

section \<open>Witnesses\<close>


lemma debug_info_is_right_witness: "\<exists>info. GetDebugInfo one_plane = Done info \<and> di_Occupancy info = [1]"
proof -
  have "length (g_Grid one_plane) * columns one_plane < 2 ^ 32" by (simp add: one_plane_eq columns_def)
  from debug_info_is_right [OF one_plane_ok this] obtain info where
    i: "GetDebugInfo one_plane = Done info" "length (di_Occupancy info) = 1" "di_Occupancy info ! 0 = 1"
    by (auto simp: one_plane_eq columns_def cell_def)
  then have "di_Occupancy info = [1]" by (cases "di_Occupancy info") auto
  with i(1) show ?thesis by blast
qed

end
