(* ===== verification/Dagaz_Merge.thy ===== *)
theory Dagaz_Merge
imports Dagaz_Insert "HOL-Library.Multiset"
begin

text \<open>
  Which cells a quad is in after a merge has moved it: \<open>times\<close> counts a quad in a cell,
  and \<open>covered\<close> tells which cells a rectangle of rows and columns has.
\<close>

section \<open>A merge in one step\<close>

lemma covers_cells_heap: "covers_cells m (g\<lparr>g_quads := h\<rparr>) q = covers_cells m g q"
  by (rule covers_cells_cong) simp_all

lemma mergeQuads_eq: "mergeQuads m e n g =
  and_then (move_edges e (covers_cells m g (g_quads g e)) (covers_cells m g (merged (g_quads g e) (g_quads g n)))
      (upd_quad e (\<lambda>_. merged (g_quads g e) (g_quads g n)) g))
    (\<lambda>g2. Done ((upd_quad e (\<lambda>q. q\<lparr>q_MergeCount := q_MergeCount q + 1\<rparr>) g2)\<lparr>g_MergeCount := g_MergeCount g2 + 1\<rparr>))"
proof -
  have "upd_quad e (\<lambda>q. q\<lparr>q_Center := Add (q_Center q) (Mul (Sub (q_Center (g_quads g n)) (q_Center (g_quads g e))) (rnd Single (2 / 10))),
      q_Extents := Add (q_Extents q) (Mul (Sub (q_Extents (g_quads g n)) (q_Extents (g_quads g e))) (rnd Single (2 / 10)))\<rparr>) g
    = upd_quad e (\<lambda>_. merged (g_quads g e) (g_quads g n)) g"
    by (simp add: upd_quad_def merged_def)
  then show ?thesis
    unfolding mergeQuads_def Let_def
    by (simp add: covers_cells_heap upd_quad_def)
qed

section \<open>Where a merged quad is\<close>

text \<open>How often a cell holds a quad, and whether a rectangle covers a cell.\<close>

definition times :: "qptr \<Rightarrow> RegularGrid \<Rightarrow> nat \<Rightarrow> nat \<Rightarrow> nat" where
  "times q g y x = (case cell g y x of None \<Rightarrow> 0 | Some ps \<Rightarrow> count (mset ps) q)"

fun covered :: "nat \<times> nat \<times> nat \<times> nat \<Rightarrow> nat \<Rightarrow> nat \<Rightarrow> bool" where
  "covered (minX, maxX, minY, maxY) y x \<longleftrightarrow> minY \<le> y \<and> y \<le> maxY \<and> minX \<le> x \<and> x \<le> maxX"

lemma count_edge:
  "count (mset (edge b q e ps)) p =
    (if b \<and> p = q then (if e then Suc (count (mset ps) q) else count (mset ps) q - 1) else count (mset ps) p)"
  by (simp add: edge_def dropped_mset)

lemma count_edge_other: "p \<noteq> q \<Longrightarrow> count (mset (edge_change q c0 c1 y x ps)) p = count (mset ps) p"
  by (cases c0; cases c1) (simp add: edge_change_def Let_def count_edge)

lemma count_edge_change:
  assumes "count (mset ps) q = (if covered (a0, b0, s0, t0) y x then 1 else 0)"
    and "a0 \<le> b0" "s0 \<le> t0" "a1 \<le> b1" "s1 \<le> t1"
  shows "a1 \<le> a0 \<Longrightarrow> b0 \<le> b1 \<Longrightarrow> s1 \<le> s0 \<Longrightarrow> t0 \<le> t1 \<Longrightarrow>
      count (mset (edge_change q (a0, b0, s0, t0) (a1, b1, s1, t1) y x ps)) q = (if covered (a1, b1, s1, t1) y x then 1 else 0)"
    and "a0 \<le> a1 \<Longrightarrow> b1 \<le> b0 \<Longrightarrow> s0 \<le> s1 \<Longrightarrow> t1 \<le> t0 \<Longrightarrow>
      count (mset (edge_change q (a0, b0, s0, t0) (a1, b1, s1, t1) y x ps)) q = (if covered (a1, b1, s1, t1) y x then 1 else 0)"
    and "a1 < a0 \<Longrightarrow> s0 < s1 \<Longrightarrow> y = s0 \<Longrightarrow> x = a1 \<Longrightarrow>
      count (mset (edge_change q (a0, b0, s0, t0) (a1, b1, s1, t1) y x ps)) q = 1"
proof -
  show "count (mset (edge_change q (a0, b0, s0, t0) (a1, b1, s1, t1) y x ps)) q = (if covered (a1, b1, s1, t1) y x then 1 else 0)"
    if "a1 \<le> a0" "b0 \<le> b1" "s1 \<le> s0" "t0 \<le> t1"
    using that assms by (simp add: edge_change_def Let_def count_edge min_absorb1 min_absorb2 max_absorb1 max_absorb2) (fastforce simp: not_le)
  show "count (mset (edge_change q (a0, b0, s0, t0) (a1, b1, s1, t1) y x ps)) q = (if covered (a1, b1, s1, t1) y x then 1 else 0)"
    if "a0 \<le> a1" "b1 \<le> b0" "s0 \<le> s1" "t1 \<le> t0"
    using that assms by (simp add: edge_change_def Let_def count_edge min_absorb1 min_absorb2 max_absorb1 max_absorb2)
  show "count (mset (edge_change q (a0, b0, s0, t0) (a1, b1, s1, t1) y x ps)) q = 1"
    if "a1 < a0" "s0 < s1" "y = s0" "x = a1"
    using that assms by (simp add: edge_change_def Let_def count_edge min_def max_def)
qed

text \<open>C36: A merge moves the existing quad to the cells that it covers afterwards, and touches no other quad,
  if it was in exactly the cells that it covered before and its edges all move outwards or all
  inwards. If its left edge moves out while its top edge moves in, though, it is left in
  a cell that it does not cover.\<close>

theorem merge_moves_quad:
  assumes "mergeQuads m e n g = Done g'"
    and "covers_cells m g (g_quads g e) = (a0, b0, s0, t0)"
    and "covers_cells m g (merged (g_quads g e) (g_quads g n)) = (a1, b1, s1, t1)"
    and "a0 \<le> b0" "s0 \<le> t0" "a1 \<le> b1" "s1 \<le> t1"
    and "\<forall>y x. cell g y x \<noteq> None \<longrightarrow> times e g y x = (if covered (a0, b0, s0, t0) y x then 1 else 0)"
  shows "(\<forall>p y x. p \<noteq> e \<longrightarrow> times p g' y x = times p g y x) \<and>
    ((a1 \<le> a0 \<and> b0 \<le> b1 \<and> s1 \<le> s0 \<and> t0 \<le> t1) \<or> (a0 \<le> a1 \<and> b1 \<le> b0 \<and> s0 \<le> s1 \<and> t1 \<le> t0) \<longrightarrow>
      (\<forall>y x. cell g' y x \<noteq> None \<longrightarrow> times e g' y x = (if covered (a1, b1, s1, t1) y x then 1 else 0))) \<and>
    (a1 < a0 \<and> s0 < s1 \<and> cell g' s0 a1 \<noteq> None \<longrightarrow> times e g' s0 a1 = 1 \<and> \<not> covered (a1, b1, s1, t1) s0 a1)"
proof -
  have C: "cell g' y x = map_option (edge_change e (a0, b0, s0, t0) (a1, b1, s1, t1) y x) (cell g y x)" for y x
    using mergeQuads_result(2) [OF assms(1)] assms(2,3) by simp
  have E: "count (mset ps) e = (if covered (a0, b0, s0, t0) y x then 1 else 0)" if "cell g y x = Some ps" for y x ps
    using assms(8) [rule_format, of y x] that unfolding times_def by simp
  have T: "times p g' y x = (case cell g y x of None \<Rightarrow> 0
      | Some ps \<Rightarrow> count (mset (edge_change e (a0, b0, s0, t0) (a1, b1, s1, t1) y x ps)) p)" for p y x
    by (cases "cell g y x") (simp_all add: times_def C)
  note R = count_edge_change [OF E assms(4-7)]
  show ?thesis
  proof (intro conjI impI allI)
    fix p y x assume "p \<noteq> e"
    then show "times p g' y x = times p g y x"
      by (simp add: T) (simp add: times_def count_edge_other split: option.split)
  next
    fix y x
    assume d: "(a1 \<le> a0 \<and> b0 \<le> b1 \<and> s1 \<le> s0 \<and> t0 \<le> t1) \<or> (a0 \<le> a1 \<and> b1 \<le> b0 \<and> s0 \<le> s1 \<and> t1 \<le> t0)" and "cell g' y x \<noteq> None"
    then obtain ps where ps: "cell g y x = Some ps" using C by auto
    then show "times e g' y x = (if covered (a1, b1, s1, t1) y x then 1 else 0)"
      using d R(1,2) [OF ps] by (auto simp: T simp del: covered.simps)
  next
    assume d: "a1 < a0 \<and> s0 < s1 \<and> cell g' s0 a1 \<noteq> None"
    then obtain ps where ps: "cell g s0 a1 = Some ps" using C by auto
    then show "times e g' s0 a1 = 1" using d R(3) [OF ps] by (simp add: T)
    show "\<not> covered (a1, b1, s1, t1) s0 a1" using d by simp
  qed
qed

section \<open>Witness\<close>

text \<open>A second quad over the first one, a little larger.\<close>

definition plane1 :: Quad where
  "plane1 = plane0\<lparr>q_Extents := NewVector3f (Fin (3 / 4)) (Fin 0) (Fin (3 / 4))\<rparr>"

lemma plane1_fits: "covers_cells mach0 (allocate plane1 one_plane) plane0 = (0, 0, 0, 0)"
  "covers_cells mach0 (allocate plane1 one_plane) (merged plane0 plane1) = (0, 0, 0, 0)"
  by (simp_all add: covers_cells_def merged_def plane1_def plane0_def allocate_def one_plane_eq grid_eval fl_eval cong: let_weak_cong if_weak_cong)

lemma merge_moves_quad_witness:
  "\<exists>g'. mergeQuads mach0 0 1 (allocate plane1 one_plane) = Done g' \<and> times 0 g' 0 0 = 1"
proof -
  let ?g = "allocate plane1 one_plane"
  have q: "g_quads ?g 0 = plane0" "g_quads ?g 1 = plane1" by (simp_all add: allocate_def one_plane_eq)
  have c: "cell one_plane y x = (if y = 0 \<and> x = 0 then Some [0] else None)" for y x
    by (auto simp: cell_def one_plane_eq)
  have "mergeQuads mach0 0 1 ?g \<noteq> Crash"
    using plane1_fits q by (simp add: mergeQuads_eq move_edges_def upd_quad_def)
  then obtain g' where g': "mergeQuads mach0 0 1 ?g = Done g'" by (cases "mergeQuads mach0 0 1 ?g") auto
  have r: "covers_cells mach0 ?g (g_quads ?g 0) = (0, 0, 0, 0)"
    "covers_cells mach0 ?g (merged (g_quads ?g 0) (g_quads ?g 1)) = (0, 0, 0, 0)"
    by (simp_all only: q plane1_fits)
  have p: "\<forall>y x. cell ?g y x \<noteq> None \<longrightarrow> times 0 ?g y x = (if covered (0, 0, 0, 0) y x then 1 else 0)"
    by (auto simp: c times_def split: if_splits)
  have "cell g' 0 0 \<noteq> None" using mergeQuads_result(2) [OF g'] by (simp add: c)
  then have "times 0 g' 0 0 = 1"
    using merge_moves_quad [OF g' r _ _ _ _ p] by simp
  with g' show ?thesis by blast
qed

end
