(* ===== verification/Goroutines.thy ===== *)
theory Goroutines
imports Dispatch
begin

text \<open>
  The goroutines of \<^verbatim>\<open>websocket/handler.go\<close> one by one: for each connection the loop of
  \<^verbatim>\<open>Handle\<close>, \<^verbatim>\<open>startSending\<close> and \<^verbatim>\<open>startReceiving\<close>, with the two
  channels between them, and the lock of the participants of one session, which a broadcast holds for
  reading while it writes into the channels of the others (\<^verbatim>\<open>models/session.go\<close>). A
  turn moves one goroutine by one operation on a channel, on the lock or on the context; a
  goroutine that would wait has no turn. What the handlers compute is left open here: a handler is the
  list of its sends and broadcasts, and it may fail or panic.
\<close>

section \<open>The state\<close>

definition sendChanSize :: nat where
  "sendChanSize = 512"

text \<open>What a handler does with channels and with the lock of the participants, call by call: it answers
  (\<open>Send\<close>), sends to the connection of another participant (\<open>SendMsg\<close>), broadcasts, or
  takes itself into or out of the participants. A broadcast holds the lock for reading until
  \<open>BroadcastEnds\<close>; an insertion or a removal first asks for the lock and then waits for it.\<close>

datatype call =
    Send Proto
  | SendMsg conn Proto
  | BroadcastMsg Proto
  | BroadcastEnds
  | AskLock bool
  | GotLock bool

datatype pc =
    LoopHead
  | Selecting
  | Handling "call list" bool
  | Disconnecting
  | Leaving "call list"
  | AwaitGoroutines
  | HandleReturned
  | HandlePanicked

datatype sending = SenderSelects | SenderWrites Proto | SenderFails | SenderDrains | SenderStopped

datatype receiving = ReceiverSelects | ReceiverReads | ReceiverFails | ReceiverStopped

text \<open>One connection: the goroutine of \<^verbatim>\<open>Handle\<close>, its two others, the two channels and the
  context. The last two fields are ghosts: all messages that were ever put into the
  channel, and all that were written to the socket.\<close>

record Link =
  l_pc :: pc
  l_sender :: sending
  l_receiver :: receiving
  l_sendChan :: "Proto list"
  l_disconnectChan :: nat
  l_cancelled :: bool
  l_accepted :: "Proto list"
  l_written :: "Proto list"

text \<open>One session and the connections around it: who participates, who holds the lock of the
  participants for reading, and who has asked for it for writing. As long as somebody has asked
  for writing, nobody else gets the lock for reading.\<close>

record Hub =
  hub_link :: "conn \<Rightarrow> Link"
  hub_members :: "conn set"
  hub_readers :: "conn set"
  hub_writer :: "conn option"

definition new_link :: Link where
  "new_link = \<lparr>l_pc = LoopHead, l_sender = SenderSelects, l_receiver = ReceiverSelects, l_sendChan = [],
     l_disconnectChan = 0, l_cancelled = False, l_accepted = [], l_written = []\<rparr>"

definition hub0 :: Hub where
  "hub0 = \<lparr>hub_link = (\<lambda>_. new_link), hub_members = {}, hub_readers = {}, hub_writer = None\<rparr>"

definition upd_link :: "conn \<Rightarrow> (Link \<Rightarrow> Link) \<Rightarrow> Hub \<Rightarrow> Hub" where
  "upd_link c f h = h\<lparr>hub_link := (hub_link h)(c := f (hub_link h c))\<rparr>"

definition at_pc :: "conn \<Rightarrow> pc \<Rightarrow> Hub \<Rightarrow> Hub" where
  "at_pc c p = upd_link c (\<lambda>l. l\<lparr>l_pc := p\<rparr>)"

section \<open>Sending\<close>

text \<open>The value \<open>None\<close> of a step says that the goroutine waits.\<close>

definition sendMsg :: "conn \<Rightarrow> Proto \<Rightarrow> Hub \<Rightarrow> Hub option" where
  "sendMsg c m h =
    (if length (l_sendChan (hub_link h c)) < sendChanSize
     then Some (upd_link c (\<lambda>l. l\<lparr>l_sendChan := l_sendChan l @ [m], l_accepted := l_accepted l @ [m]\<rparr>) h)
     else None)"

definition send :: "(Proto \<Rightarrow> bool) \<Rightarrow> conn \<Rightarrow> Proto \<Rightarrow> Hub \<Rightarrow> Hub option" where
  "send enc c m h = (if enc m then sendMsg c m h else Some h)"

text \<open>\<^verbatim>\<open>h.disconnect\<close>, called by any of the three goroutines.\<close>

definition report :: "conn \<Rightarrow> Hub \<Rightarrow> Hub option" where
  "report c h =
    (if l_disconnectChan (hub_link h c) < disconnectChanSize
     then Some (upd_link c (\<lambda>l. l\<lparr>l_disconnectChan := Suc (l_disconnectChan l)\<rparr>) h)
     else None)"

text \<open>One call of a handler, with the calls that are left after it.\<close>

fun call_step :: "(Proto \<Rightarrow> bool) \<Rightarrow> conn order \<Rightarrow> conn \<Rightarrow> call \<Rightarrow> call list \<Rightarrow> Hub \<Rightarrow> (call list \<times> Hub) option" where
  "call_step enc r c (Send m) cs h = map_option (Pair cs) (send enc c m h)"
| "call_step enc r c (SendMsg d m) cs h = map_option (Pair cs) (sendMsg d m h)"
| "call_step enc r c (BroadcastMsg m) cs h =
    (if hub_writer h \<noteq> None then None
     else Some
       ((if enc m then map (\<lambda>d. SendMsg d m) (filter (\<lambda>d. d \<noteq> c) (r (hub_members h))) else []) @ BroadcastEnds # cs,
        h\<lparr>hub_readers := insert c (hub_readers h)\<rparr>))"
| "call_step enc r c BroadcastEnds cs h = Some (cs, h\<lparr>hub_readers := hub_readers h - {c}\<rparr>)"
| "call_step enc r c (AskLock joins) cs h =
    (if hub_writer h = None then Some (GotLock joins # cs, h\<lparr>hub_writer := Some c\<rparr>) else None)"
| "call_step enc r c (GotLock joins) cs h =
    (if hub_readers h = {}
     then Some (cs, h\<lparr>hub_members := (if joins then insert c (hub_members h) else hub_members h - {c}), hub_writer := None\<rparr>)
     else None)"

section \<open>The three goroutines of a connection\<close>

text \<open>What the loop finds: the context done, the idle timer, a message or a tick with what
  its handler will do, a disconnection with what is broadcast while leaving; a
  handler may also panic between two calls.\<close>

datatype pick = Next "conn order" | TakesContext | TakesTimer | TakesMessage "call list" bool | TakesError "Proto list" "Proto list" | Panics

definition issued :: "call \<Rightarrow> bool" where
  "issued x = (case x of BroadcastEnds \<Rightarrow> False | GotLock b \<Rightarrow> False | _ \<Rightarrow> True)"

text \<open>Leaving: the deleted entities are broadcast, the participant is removed, and its leaving is broadcast.\<close>

definition leave_calls :: "conn \<Rightarrow> Proto list \<Rightarrow> Proto list \<Rightarrow> Hub \<Rightarrow> call list" where
  "leave_calls c ms ms' h =
    (if c \<in> hub_members h then map BroadcastMsg ms @ AskLock False # map BroadcastMsg ms' else [])"

definition loop_turn :: "(Proto \<Rightarrow> bool) \<Rightarrow> conn \<Rightarrow> pick \<Rightarrow> Hub \<Rightarrow> Hub option" where
  "loop_turn enc c ch h =
    (let l = hub_link h c
     in case l_pc l of
          LoopHead \<Rightarrow> Some (at_pc c (if l_cancelled l then AwaitGoroutines else Selecting) h)
        | Selecting \<Rightarrow>
            (case ch of
               TakesContext \<Rightarrow> if l_cancelled l then Some (at_pc c Disconnecting h) else None
             | TakesTimer \<Rightarrow> Some (at_pc c Disconnecting h)
             | TakesMessage cs failed \<Rightarrow> if \<forall>x \<in> set cs. issued x then Some (at_pc c (Handling cs failed) h) else None
             | TakesError ms ms' \<Rightarrow>
                 if 0 < l_disconnectChan l
                 then Some (upd_link c (\<lambda>l. l\<lparr>l_disconnectChan := l_disconnectChan l - 1,
                   l_pc := Leaving (leave_calls c ms ms' h)\<rparr>) h)
                 else None
             | _ \<Rightarrow> None)
        | Handling cs failed \<Rightarrow>
            (case ch of
               Panics \<Rightarrow>
                 if c \<notin> hub_readers h \<and> hub_writer h \<noteq> Some c
                 then Some (upd_link c (\<lambda>l. l\<lparr>l_pc := HandlePanicked, l_cancelled := True, l_disconnectChan := 0\<rparr>) h)
                 else None
             | Next r \<Rightarrow>
                 (case cs of
                    [] \<Rightarrow> Some (at_pc c (if failed then Disconnecting else LoopHead) h)
                  | x # xs \<Rightarrow> map_option (\<lambda>(cs', h'). at_pc c (Handling cs' failed) h') (call_step enc r c x xs h))
             | _ \<Rightarrow> None)
        | Disconnecting \<Rightarrow> map_option (at_pc c LoopHead) (report c h)
        | Leaving cs \<Rightarrow>
            (case ch of
               Next r \<Rightarrow>
                 (case cs of
                    [] \<Rightarrow> Some (upd_link c (\<lambda>l. l\<lparr>l_cancelled := True, l_pc := LoopHead\<rparr>) h)
                  | x # xs \<Rightarrow> map_option (\<lambda>(cs', h'). at_pc c (Leaving cs') h') (call_step enc r c x xs h))
             | _ \<Rightarrow> None)
        | AwaitGoroutines \<Rightarrow>
            if l_sender l = SenderStopped \<and> l_receiver l = ReceiverStopped
            then Some (upd_link c (\<lambda>l. l\<lparr>l_pc := HandleReturned, l_disconnectChan := 0\<rparr>) h)
            else None
        | HandleReturned \<Rightarrow> None
        | HandlePanicked \<Rightarrow> None)"

text \<open>The sending goroutine. It may find the context done or a message, or both; a write may fail.
  When it ends, it empties the channel.\<close>

definition sender_turn :: "conn \<Rightarrow> bool \<Rightarrow> Hub \<Rightarrow> Hub option" where
  "sender_turn c good h =
    (let l = hub_link h c
     in case l_sender l of
          SenderSelects \<Rightarrow>
            if good
            then (case l_sendChan l of
                    [] \<Rightarrow> None
                  | m # ms \<Rightarrow> Some (upd_link c (\<lambda>l. l\<lparr>l_sender := SenderWrites m, l_sendChan := ms\<rparr>) h))
            else if l_cancelled l then Some (upd_link c (\<lambda>l. l\<lparr>l_sender := SenderDrains\<rparr>) h) else None
        | SenderWrites m \<Rightarrow>
            if good then Some (upd_link c (\<lambda>l. l\<lparr>l_sender := SenderSelects, l_written := l_written l @ [m]\<rparr>) h)
            else Some (upd_link c (\<lambda>l. l\<lparr>l_sender := SenderFails\<rparr>) h)
        | SenderFails \<Rightarrow> map_option (upd_link c (\<lambda>l. l\<lparr>l_sender := SenderDrains\<rparr>)) (report c h)
        | SenderDrains \<Rightarrow>
            (case l_sendChan l of
               [] \<Rightarrow> Some (upd_link c (\<lambda>l. l\<lparr>l_sender := SenderStopped\<rparr>) h)
             | m # ms \<Rightarrow> Some (upd_link c (\<lambda>l. l\<lparr>l_sendChan := ms\<rparr>) h))
        | SenderStopped \<Rightarrow> None)"

text \<open>The receiving goroutine; a message it reads is dispatched to the loop.\<close>

definition receiver_turn :: "conn \<Rightarrow> bool \<Rightarrow> Hub \<Rightarrow> Hub option" where
  "receiver_turn c good h =
    (let l = hub_link h c
     in case l_receiver l of
          ReceiverSelects \<Rightarrow>
            Some (upd_link c (\<lambda>l. l\<lparr>l_receiver := (if l_cancelled l then ReceiverStopped else ReceiverReads)\<rparr>) h)
        | ReceiverReads \<Rightarrow>
            Some (upd_link c (\<lambda>l. l\<lparr>l_receiver := (if good then ReceiverSelects else ReceiverFails)\<rparr>) h)
        | ReceiverFails \<Rightarrow> map_option (upd_link c (\<lambda>l. l\<lparr>l_receiver := ReceiverStopped\<rparr>)) (report c h)
        | ReceiverStopped \<Rightarrow> None)"

section \<open>Interleaving\<close>

text \<open>A turn of one goroutine of one connection, or the context of the server is cancelled.\<close>

datatype turn = LoopTurn conn pick | SenderTurn conn bool | ReceiverTurn conn bool | ContextCancelled conn

definition hub_turn :: "(Proto \<Rightarrow> bool) \<Rightarrow> turn \<Rightarrow> Hub \<Rightarrow> Hub option" where
  "hub_turn enc t h =
    (case t of
       LoopTurn c ch \<Rightarrow> loop_turn enc c ch h
     | SenderTurn c good \<Rightarrow> sender_turn c good h
     | ReceiverTurn c good \<Rightarrow> receiver_turn c good h
     | ContextCancelled c \<Rightarrow> Some (upd_link c (\<lambda>l. l\<lparr>l_cancelled := True\<rparr>) h))"

definition turn_ok :: "turn \<Rightarrow> bool" where
  "turn_ok t \<longleftrightarrow> (\<forall>c r. t = LoopTurn c (Next r) \<longrightarrow> range_ok r)"

inductive later :: "(Proto \<Rightarrow> bool) \<Rightarrow> Hub \<Rightarrow> Hub \<Rightarrow> bool" for enc h where
  later_refl: "later enc h h"
| later_turn: "later enc h h1 \<Longrightarrow> turn_ok t \<Longrightarrow> hub_turn enc t h1 = Some h2 \<Longrightarrow> later enc h h2"

lemma later_trans: "later enc h1 h2 \<Longrightarrow> later enc h h1 \<Longrightarrow> later enc h h2"
  by (induction rule: later.induct) (auto intro: later_turn)

text \<open>The same, run on a list of turns.\<close>

fun play :: "(Proto \<Rightarrow> bool) \<Rightarrow> turn list \<Rightarrow> Hub \<Rightarrow> Hub option" where
  "play enc [] h = Some h"
| "play enc (t # ts) h = (case hub_turn enc t h of None \<Rightarrow> None | Some h' \<Rightarrow> play enc ts h')"

lemma play_later:
  assumes "play enc ts h = Some h'" and "\<forall>t \<in> set ts. turn_ok t"
  shows "later enc h h'"
  using assms
proof (induction ts arbitrary: h)
  case (Cons t ts)
  then obtain h1 where h1: "hub_turn enc t h = Some h1" "play enc ts h1 = Some h'" by (auto split: option.splits)
  then have "later enc h1 h'" using Cons by simp
  moreover have "later enc h h1" using h1(1) Cons.prems(2) by (intro later_turn [OF later_refl]) auto
  ultimately show ?case by (rule later_trans)
qed (simp add: later_refl)

section \<open>Frames\<close>

lemma upd_link_simps [simp]:
  "hub_link (upd_link c f h) d = (if d = c then f (hub_link h c) else hub_link h d)"
  "hub_members (upd_link c f h) = hub_members h" "hub_readers (upd_link c f h) = hub_readers h"
  "hub_writer (upd_link c f h) = hub_writer h"
  by (simp_all add: upd_link_def)

lemma at_pc_simps [simp]:
  "hub_link (at_pc c p h) d = (if d = c then (hub_link h c)\<lparr>l_pc := p\<rparr> else hub_link h d)"
  "hub_members (at_pc c p h) = hub_members h" "hub_readers (at_pc c p h) = hub_readers h"
  "hub_writer (at_pc c p h) = hub_writer h"
  by (simp_all add: at_pc_def)

text \<open>What a link looks like to itself after any turn: the channels are written by \<open>sendMsg\<close> and \<open>report\<close>
  only, and read by the goroutines of the link only.\<close>

definition in_hand :: "sending \<Rightarrow> Proto list" where
  "in_hand s = (case s of SenderWrites m \<Rightarrow> [m] | _ \<Rightarrow> [])"

definition link_ok :: "Link \<Rightarrow> bool" where
  "link_ok l \<longleftrightarrow>
    length (l_sendChan l) \<le> sendChanSize \<and> l_disconnectChan l \<le> disconnectChanSize \<and>
    (\<exists>lost. l_accepted l = l_written l @ lost @ in_hand (l_sender l) @ l_sendChan l \<and>
      (l_sender l = SenderSelects \<or> (\<exists>m. l_sender l = SenderWrites m) \<longrightarrow> lost = []))"

definition links_ok :: "Hub \<Rightarrow> bool" where
  "links_ok h \<longleftrightarrow> (\<forall>c. link_ok (hub_link h c))"

lemma links_ok_upd:
  assumes "links_ok h" and "link_ok (hub_link h c) \<Longrightarrow> link_ok (f (hub_link h c))"
  shows "links_ok (upd_link c f h)"
  using assms by (simp add: links_ok_def)

lemma link_ok_accept:
  "link_ok l \<Longrightarrow> length (l_sendChan l) < sendChanSize \<Longrightarrow>
    link_ok (l\<lparr>l_sendChan := l_sendChan l @ [m], l_accepted := l_accepted l @ [m]\<rparr>)"
  by (auto simp: link_ok_def)

lemma links_ok_sendMsg: "links_ok h \<Longrightarrow> sendMsg c m h = Some h' \<Longrightarrow> links_ok h'"
  by (auto simp: sendMsg_def intro!: links_ok_upd link_ok_accept split: if_splits)

lemma links_ok_report: "links_ok h \<Longrightarrow> report c h = Some h' \<Longrightarrow> links_ok h'"
  by (auto simp: report_def link_ok_def intro!: links_ok_upd split: if_splits)

lemma links_ok_call:
  assumes "links_ok h" and "call_step enc r c x cs h = Some (cs', h')"
  shows "links_ok h'"
proof -
  have s: "links_ok h''" if "sendMsg d m h = Some h''" for d m h'' using links_ok_sendMsg [OF assms(1) that] .
  have "links_ok (h\<lparr>hub_readers := R\<rparr>)" "links_ok (h\<lparr>hub_writer := W\<rparr>)"
    "links_ok (h\<lparr>hub_members := M, hub_writer := W\<rparr>)" for R W M
    using assms(1) by (simp_all add: links_ok_def)
  then show ?thesis
    using assms(2) s assms(1) by (cases x) (auto simp: send_def split: if_splits)
qed

lemma links_ok_at: "links_ok h \<Longrightarrow> links_ok (at_pc c p h)"
  unfolding at_pc_def by (rule links_ok_upd) (simp_all add: link_ok_def)

lemma links_ok_loop:
  assumes "links_ok h" and "loop_turn enc c ch h = Some h'"
  shows "links_ok h'"
proof -
  have upd: "links_ok (upd_link c f h)" if "\<And>l. l_sendChan (f l) = l_sendChan l" "\<And>l. l_disconnectChan (f l) \<le> l_disconnectChan l"
    "\<And>l. l_accepted (f l) = l_accepted l" "\<And>l. l_written (f l) = l_written l" "\<And>l. l_sender (f l) = l_sender l" for f
    using assms(1) that(2) [of "hub_link h c"] by (intro links_ok_upd) (auto simp: link_ok_def that(1,3-))
  show ?thesis
    using assms
    by (auto simp: loop_turn_def Let_def intro!: links_ok_at upd intro: links_ok_call links_ok_report
        split: pc.splits pick.splits list.splits if_splits)
qed

lemma links_ok_sender:
  assumes "links_ok h" and "sender_turn c good h = Some h'"
  shows "links_ok h'"
proof -
  have l: "link_ok (hub_link h c)" using assms(1) by (simp add: links_ok_def)
  show ?thesis
  proof (cases "l_sender (hub_link h c)")
    case SenderFails
    then obtain h1 where h1: "report c h = Some h1" "h' = upd_link c (\<lambda>l. l\<lparr>l_sender := SenderDrains\<rparr>) h1"
      using assms(2) by (auto simp: sender_turn_def)
    have "l_sender (hub_link h1 c) = SenderFails" using h1(1) SenderFails by (auto simp: report_def split: if_splits)
    then show ?thesis
      using links_ok_report [OF assms(1) h1(1)] unfolding h1(2)
      by (intro links_ok_upd) (auto simp: link_ok_def in_hand_def)
  next
    case SenderSelects
    then show ?thesis
      using l assms
      by (cases "l_sendChan (hub_link h c)")
        (auto simp: sender_turn_def Let_def link_ok_def in_hand_def intro!: links_ok_upd split: if_splits)
  next
    case SenderDrains
    then obtain lost where "l_accepted (hub_link h c) = l_written (hub_link h c) @ lost @ l_sendChan (hub_link h c)"
      using l by (auto simp: link_ok_def in_hand_def)
    with SenderDrains show ?thesis
      using l assms
      by (cases "l_sendChan (hub_link h c)")
        (auto simp: sender_turn_def link_ok_def in_hand_def intro!: links_ok_upd exI [of _ "lost @ [m]" for m])
  qed (use l assms in \<open>auto simp: sender_turn_def link_ok_def in_hand_def intro!: links_ok_upd split: if_splits\<close>)
qed

lemma links_ok_receiver:
  assumes "links_ok h" and "receiver_turn c good h = Some h'"
  shows "links_ok h'"
  using assms
  by (auto simp: receiver_turn_def Let_def link_ok_def intro!: links_ok_upd dest: links_ok_report split: receiving.splits)

lemma links_ok_turn:
  assumes "links_ok h" and "hub_turn enc t h = Some h'"
  shows "links_ok h'"
proof (cases t)
  case (LoopTurn c ch)
  then show ?thesis using links_ok_loop [OF assms(1)] assms(2) unfolding hub_turn_def by simp
next
  case (SenderTurn c good)
  then show ?thesis using links_ok_sender [OF assms(1)] assms(2) unfolding hub_turn_def by simp
next
  case (ReceiverTurn c good)
  then show ?thesis using links_ok_receiver [OF assms(1)] assms(2) unfolding hub_turn_def by simp
next
  case (ContextCancelled c)
  then have "h' = upd_link c (\<lambda>l. l\<lparr>l_cancelled := True\<rparr>) h" using assms(2) by (simp add: hub_turn_def)
  then show ?thesis using assms(1) by (simp add: links_ok_def link_ok_def)
qed

lemma links_ok_later: "later enc h h' \<Longrightarrow> links_ok h \<Longrightarrow> links_ok h'"
  by (induction rule: later.induct) (auto intro: links_ok_turn)

lemma links_ok_hub0: "links_ok hub0"
  by (simp add: links_ok_def link_ok_def hub0_def new_link_def in_hand_def)

section \<open>Who changes what\<close>

lemma sendMsg_eq: "sendMsg c m h = Some h' \<Longrightarrow>
  h' = upd_link c (\<lambda>l. l\<lparr>l_sendChan := l_sendChan l @ [m], l_accepted := l_accepted l @ [m]\<rparr>) h \<and>
  length (l_sendChan (hub_link h c)) < sendChanSize"
  by (simp add: sendMsg_def split: if_splits)

lemma report_eq: "report c h = Some h' \<Longrightarrow>
  h' = upd_link c (\<lambda>l. l\<lparr>l_disconnectChan := Suc (l_disconnectChan l)\<rparr>) h \<and> l_disconnectChan (hub_link h c) < disconnectChanSize"
  by (simp add: report_def split: if_splits)

text \<open>A call of a handler changes nothing of any link but what it puts into its channel.\<close>

definition only_sent :: "Hub \<Rightarrow> Hub \<Rightarrow> bool" where
  "only_sent h h' \<longleftrightarrow> (\<forall>d. \<exists>ms. length (l_sendChan (hub_link h d) @ ms) \<le> max (length (l_sendChan (hub_link h d))) sendChanSize \<and>
    hub_link h' d = (hub_link h d)\<lparr>l_sendChan := l_sendChan (hub_link h d) @ ms, l_accepted := l_accepted (hub_link h d) @ ms\<rparr>)"

lemma only_sent_same: "hub_link h' = hub_link h \<Longrightarrow> only_sent h h'"
  unfolding only_sent_def by (intro allI exI [of _ "[]"]) simp

lemma only_sent_sendMsg: "sendMsg c m h = Some h' \<Longrightarrow> only_sent h h'"
  unfolding only_sent_def
proof (rule allI)
  fix d assume s: "sendMsg c m h = Some h'"
  show "\<exists>ms. length (l_sendChan (hub_link h d) @ ms) \<le> max (length (l_sendChan (hub_link h d))) sendChanSize \<and>
    hub_link h' d = (hub_link h d)\<lparr>l_sendChan := l_sendChan (hub_link h d) @ ms, l_accepted := l_accepted (hub_link h d) @ ms\<rparr>"
    using sendMsg_eq [OF s] by (intro exI [of _ "if d = c then [m] else []"]) auto
qed

lemma call_only_sent:
  assumes "call_step enc r c x cs h = Some (cs', h')"
  shows "only_sent h h'"
  using assms only_sent_sendMsg by (cases x) (auto simp: send_def intro: only_sent_same split: if_splits)

lemma only_sentD:
  assumes "only_sent h h'"
  shows "l_pc (hub_link h' d) = l_pc (hub_link h d)" and "l_sender (hub_link h' d) = l_sender (hub_link h d)"
    and "l_receiver (hub_link h' d) = l_receiver (hub_link h d)" and "l_cancelled (hub_link h' d) = l_cancelled (hub_link h d)"
    and "l_disconnectChan (hub_link h' d) = l_disconnectChan (hub_link h d)"
    and "\<exists>ms. l_sendChan (hub_link h' d) = l_sendChan (hub_link h d) @ ms"
    and "sendChanSize \<le> length (l_sendChan (hub_link h d)) \<Longrightarrow> hub_link h' d = hub_link h d"
proof -
  obtain ms where ms: "length (l_sendChan (hub_link h d) @ ms) \<le> max (length (l_sendChan (hub_link h d))) sendChanSize"
    "hub_link h' d = (hub_link h d)\<lparr>l_sendChan := l_sendChan (hub_link h d) @ ms, l_accepted := l_accepted (hub_link h d) @ ms\<rparr>"
    using assms unfolding only_sent_def by blast
  show "l_pc (hub_link h' d) = l_pc (hub_link h d)" "l_sender (hub_link h' d) = l_sender (hub_link h d)"
    "l_receiver (hub_link h' d) = l_receiver (hub_link h d)" "l_cancelled (hub_link h' d) = l_cancelled (hub_link h d)"
    "l_disconnectChan (hub_link h' d) = l_disconnectChan (hub_link h d)"
    "\<exists>ms. l_sendChan (hub_link h' d) = l_sendChan (hub_link h d) @ ms" by (simp_all add: ms(2))
  show "hub_link h' d = hub_link h d" if "sendChanSize \<le> length (l_sendChan (hub_link h d))"
    using ms that by (simp add: max_def split: if_splits)
qed

text \<open>A turn of the loop is a call of a handler, or it changes nothing but the state of the loop.\<close>

definition own_step :: "conn \<Rightarrow> Hub \<Rightarrow> Hub \<Rightarrow> bool" where
  "own_step c h h' \<longleftrightarrow> (\<forall>d. d \<noteq> c \<longrightarrow> hub_link h' d = hub_link h d) \<and>
    l_sender (hub_link h' c) = l_sender (hub_link h c) \<and> l_receiver (hub_link h' c) = l_receiver (hub_link h c) \<and>
    l_sendChan (hub_link h' c) = l_sendChan (hub_link h c) \<and>
    hub_members h' = hub_members h \<and> hub_readers h' = hub_readers h \<and> hub_writer h' = hub_writer h"

lemma own_step_at: "own_step c h (at_pc c p h)"
  by (simp add: own_step_def)

lemma loop_turn_shape:
  assumes "loop_turn enc c ch h = Some h'"
  obtains (own) "own_step c h h'"
    | (call) r x xs cs' h1 p where "call_step enc r c x xs h = Some (cs', h1)" "h' = at_pc c p h1"
proof (cases "l_pc (hub_link h c)")
  case LoopHead
  then show thesis using assms own own_step_at by (auto simp: loop_turn_def)
next
  case Selecting
  then show thesis
    using assms own own_step_at by (cases ch) (auto simp: loop_turn_def own_step_def split: if_splits)
next
  case (Handling cs failed)
  then show thesis
    using assms own own_step_at call
    by (cases ch; cases cs) (auto simp: loop_turn_def own_step_def split: if_splits)
next
  case Disconnecting
  then show thesis
    using assms by (intro own) (auto simp: loop_turn_def own_step_def dest!: report_eq)
next
  case (Leaving cs)
  then show thesis
    using assms own call by (cases ch; cases cs) (auto simp: loop_turn_def own_step_def)
next
  case AwaitGoroutines
  then show thesis using assms by (intro own) (auto simp: loop_turn_def Let_def own_step_def split: if_splits)
qed (use assms in \<open>simp_all add: loop_turn_def\<close>)

lemma loop_turn_others:
  assumes "loop_turn enc c ch h = Some h'" and "d \<noteq> c"
  shows "l_pc (hub_link h' d) = l_pc (hub_link h d)" and "l_sender (hub_link h' d) = l_sender (hub_link h d)"
    and "l_disconnectChan (hub_link h' d) = l_disconnectChan (hub_link h d)"
    and "l_receiver (hub_link h' d) = l_receiver (hub_link h d)" and "l_cancelled (hub_link h' d) = l_cancelled (hub_link h d)"
    and "sendChanSize \<le> length (l_sendChan (hub_link h d)) \<Longrightarrow> hub_link h' d = hub_link h d"
  by (rule loop_turn_shape [OF assms(1)]; use only_sentD [OF call_only_sent] assms(2) in \<open>simp add: own_step_def\<close>)+

lemma loop_turn_own:
  assumes "loop_turn enc c ch h = Some h'"
  shows "l_sender (hub_link h' c) = l_sender (hub_link h c)" and "l_receiver (hub_link h' c) = l_receiver (hub_link h c)"
    and "sendChanSize \<le> length (l_sendChan (hub_link h c)) \<Longrightarrow> l_sendChan (hub_link h' c) = l_sendChan (hub_link h c)"
  by (rule loop_turn_shape [OF assms]; use only_sentD [OF call_only_sent] in \<open>simp add: own_step_def\<close>)+

text \<open>A turn of another goroutine changes neither the loops nor the lock.\<close>

lemma goroutine_frame:
  assumes "sender_turn c good h = Some h' \<or> receiver_turn c good h = Some h'"
  shows "l_pc (hub_link h' d) = l_pc (hub_link h d)" and "l_cancelled (hub_link h' d) = l_cancelled (hub_link h d)"
    and "hub_members h' = hub_members h" and "hub_readers h' = hub_readers h" and "hub_writer h' = hub_writer h"
    and "d \<noteq> c \<Longrightarrow> hub_link h' d = hub_link h d"
proof -
  have "l_pc (hub_link h' d) = l_pc (hub_link h d) \<and> l_cancelled (hub_link h' d) = l_cancelled (hub_link h d) \<and>
    hub_members h' = hub_members h \<and> hub_readers h' = hub_readers h \<and> hub_writer h' = hub_writer h \<and>
    (d \<noteq> c \<longrightarrow> hub_link h' d = hub_link h d)"
    using assms
  proof
    assume "sender_turn c good h = Some h'"
    then show ?thesis
      by (cases "d = c"; cases "l_sender (hub_link h c)")
        (auto simp: sender_turn_def Let_def dest!: report_eq split: list.splits if_splits)
  next
    assume "receiver_turn c good h = Some h'"
    then show ?thesis
      by (cases "d = c"; cases "l_receiver (hub_link h c)") (auto simp: receiver_turn_def Let_def dest!: report_eq)
  qed
  then show "l_pc (hub_link h' d) = l_pc (hub_link h d)" "l_cancelled (hub_link h' d) = l_cancelled (hub_link h d)"
    "hub_members h' = hub_members h" "hub_readers h' = hub_readers h" "hub_writer h' = hub_writer h"
    "d \<noteq> c \<Longrightarrow> hub_link h' d = hub_link h d" by simp_all
qed

lemma receiver_frame:
  assumes "receiver_turn c good h = Some h'"
  shows "l_sender (hub_link h' d) = l_sender (hub_link h d)" and "l_sendChan (hub_link h' d) = l_sendChan (hub_link h d)"
  using assms by (auto simp: receiver_turn_def Let_def dest!: report_eq split: receiving.splits)

end
