(* ===== verification/Backpressure.thy ===== *)
theory Backpressure
imports Goroutines
begin

text \<open>
  What the bounded channels do to the participants of a session: messages arrive in order;
  broadcasts get through while the receivers send on; and a participant whose sending
  goroutine has ended freezes its session once its channel is full.
\<close>

section \<open>Freezing\<close>

text \<open>A channel that is full and that nobody empties stays so.\<close>

definition clogged :: "conn \<Rightarrow> Hub \<Rightarrow> bool" where
  "clogged d h \<longleftrightarrow> l_sender (hub_link h d) = SenderStopped \<and> length (l_sendChan (hub_link h d)) = sendChanSize"

lemma clogged_sendMsg: "clogged d h \<Longrightarrow> sendMsg d m h = None"
  by (simp add: clogged_def sendMsg_def)

lemma clogged_turn:
  assumes "clogged d h" and "hub_turn enc t h = Some h'"
  shows "clogged d h'"
proof (cases t)
  case (LoopTurn c ch)
  then have L: "loop_turn enc c ch h = Some h'" using assms(2) by (simp add: hub_turn_def)
  show ?thesis
    using assms(1) loop_turn_own [OF L] loop_turn_others [OF L, of d] by (cases "d = c") (auto simp: clogged_def)
next
  case (SenderTurn c good)
  then have S: "sender_turn c good h = Some h'" using assms(2) by (simp add: hub_turn_def)
  then have "d \<noteq> c" using assms(1) by (auto simp: clogged_def sender_turn_def)
  then show ?thesis using goroutine_frame(6) [OF disjI1, OF S] assms(1) by (simp add: clogged_def)
next
  case (ReceiverTurn c good)
  then have R: "receiver_turn c good h = Some h'" using assms(2) by (simp add: hub_turn_def)
  show ?thesis using receiver_frame [OF R] assms(1) by (simp add: clogged_def)
next
  case (ContextCancelled c)
  then have "h' = upd_link c (\<lambda>l. l\<lparr>l_cancelled := True\<rparr>) h" using assms(2) by (simp add: hub_turn_def)
  then show ?thesis using assms(1) by (cases "d = c") (simp_all add: clogged_def)
qed

text \<open>A broadcast that waits for such a channel holds its lock for ever.\<close>

definition waits_for :: "conn \<Rightarrow> conn \<Rightarrow> Hub \<Rightarrow> bool" where
  "waits_for c d h \<longleftrightarrow> c \<in> hub_readers h \<and>
    (\<exists>m cs. (\<exists>failed. l_pc (hub_link h c) = Handling (SendMsg d m # cs) failed) \<or> l_pc (hub_link h c) = Leaving (SendMsg d m # cs))"

lemma waits_for_loop: "waits_for c d h \<Longrightarrow> clogged d h \<Longrightarrow> loop_turn enc c ch h = None"
  by (auto simp: waits_for_def loop_turn_def clogged_sendMsg split: pick.split)

lemma call_locks:
  assumes "call_step enc r e x cs h = Some (cs', h')" and "c \<in> hub_readers h" and "e \<noteq> c"
  shows "c \<in> hub_readers h'" and "hub_members h' = hub_members h"
    and "hub_writer h = Some w \<Longrightarrow> hub_writer h' = Some w \<and> hub_readers h' \<subseteq> hub_readers h"
  using assms by (cases x; auto simp: send_def dest!: sendMsg_eq split: if_splits)+

lemma loop_locks:
  assumes "loop_turn enc e ch h = Some h'" and "c \<in> hub_readers h" and "e \<noteq> c"
  shows "c \<in> hub_readers h'" and "hub_members h' = hub_members h"
    and "hub_writer h = Some w \<Longrightarrow> hub_writer h' = Some w \<and> hub_readers h' \<subseteq> hub_readers h"
proof -
  from assms(1) have "c \<in> hub_readers h' \<and> hub_members h' = hub_members h \<and>
    (hub_writer h = Some w \<longrightarrow> hub_writer h' = Some w \<and> hub_readers h' \<subseteq> hub_readers h)"
  proof (cases rule: loop_turn_shape)
    case (call r x xs cs' h1 p)
    then show ?thesis using call_locks [OF call(1) assms(2,3)] by simp
  qed (use assms(2) in \<open>simp add: own_step_def\<close>)
  then show "c \<in> hub_readers h'" "hub_members h' = hub_members h"
    "hub_writer h = Some w \<Longrightarrow> hub_writer h' = Some w \<and> hub_readers h' \<subseteq> hub_readers h" by simp_all
qed

lemma frozen_turn:
  assumes "clogged d h" and "waits_for c d h" and "hub_turn enc t h = Some h'"
  shows "l_pc (hub_link h' c) = l_pc (hub_link h c)" and "c \<in> hub_readers h'" and "hub_members h' = hub_members h"
    and "hub_writer h = Some w \<Longrightarrow> hub_writer h' = Some w \<and> hub_readers h' \<subseteq> hub_readers h"
proof -
  have c: "c \<in> hub_readers h" using assms(2) by (simp add: waits_for_def)
  have "l_pc (hub_link h' c) = l_pc (hub_link h c) \<and> c \<in> hub_readers h' \<and> hub_members h' = hub_members h \<and>
    (hub_writer h = Some w \<longrightarrow> hub_writer h' = Some w \<and> hub_readers h' \<subseteq> hub_readers h)"
  proof (cases t)
    case (LoopTurn e ch)
    then have L: "loop_turn enc e ch h = Some h'" using assms(3) by (simp add: hub_turn_def)
    then have "e \<noteq> c" using waits_for_loop [OF assms(2,1)] by auto
    then show ?thesis using loop_turn_others(1) [OF L, of c] loop_locks [OF L c] by simp
  next
    case (SenderTurn e good)
    then have S: "sender_turn e good h = Some h'" using assms(3) by (simp add: hub_turn_def)
    show ?thesis using goroutine_frame [OF disjI1, OF S] c by simp
  next
    case (ReceiverTurn e good)
    then have R: "receiver_turn e good h = Some h'" using assms(3) by (simp add: hub_turn_def)
    show ?thesis using goroutine_frame [OF disjI2, OF R] c by simp
  next
    case (ContextCancelled e)
    then have "h' = upd_link e (\<lambda>l. l\<lparr>l_cancelled := True\<rparr>) h" using assms(3) by (simp add: hub_turn_def)
    then show ?thesis using c by simp
  qed
  then show "l_pc (hub_link h' c) = l_pc (hub_link h c)" "c \<in> hub_readers h'" "hub_members h' = hub_members h"
    "hub_writer h = Some w \<Longrightarrow> hub_writer h' = Some w \<and> hub_readers h' \<subseteq> hub_readers h" by simp_all
qed

text \<open>C15: A participant whose sending goroutine has ended freezes its session as soon as 512 messages
  wait for it: a broadcast that reaches it never returns and keeps the lock of the
  participants for ever, whatever else happens, so nobody enters or leaves the session any
  more, and once somebody tries, nobody else begins to broadcast.\<close>

theorem clogged_participant_freezes_session:
  assumes "l_sender (hub_link h d) = SenderStopped" and "length (l_sendChan (hub_link h d)) = sendChanSize"
    and "c \<in> hub_readers h" and "l_pc (hub_link h c) = Handling (SendMsg d m # cs) failed" and "later enc h h'"
  shows "l_pc (hub_link h' c) = Handling (SendMsg d m # cs) failed \<and> c \<in> hub_readers h' \<and>
    hub_members h' = hub_members h \<and>
    (\<forall>w. hub_writer h = Some w \<longrightarrow> hub_writer h' = Some w \<and> hub_readers h' \<subseteq> hub_readers h)"
proof -
  have d: "clogged d h" using assms(1,2) by (simp add: clogged_def)
  from assms(5) have "clogged d h' \<and> l_pc (hub_link h' c) = Handling (SendMsg d m # cs) failed \<and> c \<in> hub_readers h' \<and>
    hub_members h' = hub_members h \<and>
    (\<forall>w. hub_writer h = Some w \<longrightarrow> hub_writer h' = Some w \<and> hub_readers h' \<subseteq> hub_readers h)"
  proof (induction rule: later.induct)
    case later_refl
    then show ?case using d assms(3,4) by simp
  next
    case (later_turn h1 t h2)
    then have "waits_for c d h1" by (auto simp: waits_for_def)
    then show ?case
      using frozen_turn [OF conjunct1 [OF later_turn.IH] _ later_turn.hyps(3), of c]
        clogged_turn [OF conjunct1 [OF later_turn.IH] later_turn.hyps(3)] later_turn.IH by auto blast
  qed
  then show ?thesis by simp
qed

section \<open>How it comes to that\<close>

text \<open>Connections 0 and 1 join. The handler of 1 panics; its sending goroutine sees the context done
  and ends, but 1 remains a participant.\<close>

definition joins :: "conn \<Rightarrow> turn list" where
  "joins c = [LoopTurn c (Next sorted_list_of_set), LoopTurn c (TakesMessage [AskLock True] False),
    LoopTurn c (Next sorted_list_of_set), LoopTurn c (Next sorted_list_of_set), LoopTurn c (Next sorted_list_of_set)]"

definition panics :: "conn \<Rightarrow> turn list" where
  "panics c = [LoopTurn c (Next sorted_list_of_set), LoopTurn c (TakesMessage [] False), LoopTurn c Panics,
    SenderTurn c False, SenderTurn c True]"

text \<open>Connection 0 then broadcasts more than 512 messages in one go.\<close>

definition talks :: "nat \<Rightarrow> nat \<Rightarrow> Hub" where
  "talks k n = \<lparr>hub_link = (\<lambda>_. new_link)
      (0 := new_link\<lparr>l_pc := Handling (replicate n (BroadcastMsg SyncClock)) False\<rparr>,
       1 := new_link\<lparr>l_pc := HandlePanicked, l_cancelled := True, l_sender := SenderStopped,
         l_sendChan := replicate k SyncClock, l_accepted := replicate k SyncClock\<rparr>),
     hub_members = {0, 1}, hub_readers = {}, hub_writer = None\<rparr>"

lemma talks_start: "play (\<lambda>_. True) (joins 0 @ joins 1 @ panics 1 @
    [LoopTurn 0 (Next sorted_list_of_set), LoopTurn 0 (TakesMessage (replicate n (BroadcastMsg SyncClock)) False)]) hub0 = Some (talks 0 n)"
  by (simp add: joins_def panics_def hub_turn_def loop_turn_def sender_turn_def hub0_def new_link_def upd_link_def at_pc_def talks_def
      issued_def Let_def insert_commute fun_eq_iff fun_upd_def)

lemma talks_turns: 
  assumes "k < sendChanSize"
  shows "play (\<lambda>_. True) (replicate 3 (LoopTurn 0 (Next sorted_list_of_set))) (talks k (Suc n)) = Some (talks (Suc k) n)"
  using assms
  by (simp add: hub_turn_def loop_turn_def new_link_def upd_link_def at_pc_def talks_def numeral_3_eq_3 sendMsg_def Let_def
      replicate_append_same fun_eq_iff fun_upd_def)

lemma talks_many: "k + j \<le> sendChanSize \<Longrightarrow> later (\<lambda>_. True) (talks k (j + n)) (talks (k + j) n)"
proof (induction j arbitrary: k)
  case (Suc j)
  have "later (\<lambda>_. True) (talks k (Suc (j + n))) (talks (Suc k) (j + n))"
    by (rule play_later [OF talks_turns]) (use Suc.prems in \<open>auto simp: turn_ok_def range_ok_sorted\<close>)
  moreover have "later (\<lambda>_. True) (talks (Suc k) (j + n)) (talks (Suc k + j) n)" using Suc.prems by (intro Suc.IH) simp
  ultimately show ?case using later_trans by simp
qed (simp add: later_refl)

definition frozen :: Hub where
  "frozen = (at_pc 0 (Handling [SendMsg 1 SyncClock, BroadcastEnds] False) (talks sendChanSize 1))\<lparr>hub_readers := {0}\<rparr>"

lemma frozen_reached: "later (\<lambda>_. True) hub0 frozen"
proof -
  have "later (\<lambda>_. True) hub0 (talks 0 (sendChanSize + 1))"
    by (rule play_later [OF talks_start]) (auto simp: turn_ok_def range_ok_sorted joins_def panics_def)
  then have "later (\<lambda>_. True) hub0 (talks sendChanSize 1)"
    using later_trans [OF talks_many [of 0 sendChanSize 1]] by simp
  moreover have "turn_ok (LoopTurn 0 (Next sorted_list_of_set))" by (simp add: turn_ok_def range_ok_sorted)
  moreover have "hub_turn (\<lambda>_. True) (LoopTurn 0 (Next sorted_list_of_set)) (talks sendChanSize 1) = Some frozen"
    by (simp add: hub_turn_def loop_turn_def Let_def frozen_def talks_def at_pc_def upd_link_def)
  ultimately show ?thesis by (rule later_turn)
qed

lemma clogged_participant_freezes_session_witness:
  "later (\<lambda>_. True) hub0 frozen \<and>
    l_pc (hub_link (upd_link 0 (\<lambda>l. l\<lparr>l_cancelled := True\<rparr>) frozen) 0) = Handling [SendMsg 1 SyncClock, BroadcastEnds] False"
proof -
  have f: "l_sender (hub_link frozen 1) = SenderStopped" "length (l_sendChan (hub_link frozen 1)) = sendChanSize"
    "0 \<in> hub_readers frozen" "l_pc (hub_link frozen 0) = Handling [SendMsg 1 SyncClock, BroadcastEnds] False"
    by (simp_all add: frozen_def talks_def at_pc_def upd_link_def)
  have "later (\<lambda>_. True) frozen (upd_link 0 (\<lambda>l. l\<lparr>l_cancelled := True\<rparr>) frozen)"
    by (rule later_turn [OF later_refl, of "ContextCancelled 0"]) (simp_all add: turn_ok_def hub_turn_def)
  from clogged_participant_freezes_session [OF f this] frozen_reached show ?thesis by simp
qed

section \<open>Order and bounds\<close>

text \<open>C17: At most 512 messages wait for a connection and at most 8 disconnections. What has been written to
  the socket is always a prefix of what was sent to the connection, in the same order; and as long as
  its sending goroutine has neither failed nor been told to stop, the messages that have not been written yet are the
  one in its hand and those in the channel, so none is lost.\<close>

theorem messages_arrive_in_order:
  assumes "later enc hub0 h"
  shows "length (l_sendChan (hub_link h c)) \<le> sendChanSize \<and> l_disconnectChan (hub_link h c) \<le> disconnectChanSize \<and>
    (\<exists>rest. l_accepted (hub_link h c) = l_written (hub_link h c) @ rest) \<and>
    (case l_sender (hub_link h c) of
       SenderSelects \<Rightarrow> l_accepted (hub_link h c) = l_written (hub_link h c) @ l_sendChan (hub_link h c)
     | SenderWrites m \<Rightarrow> l_accepted (hub_link h c) = l_written (hub_link h c) @ m # l_sendChan (hub_link h c)
     | _ \<Rightarrow> True)"
proof -
  have "link_ok (hub_link h c)" using links_ok_later [OF assms links_ok_hub0] by (simp add: links_ok_def)
  then show ?thesis by (auto simp: link_ok_def in_hand_def split: sending.split)
qed

lemma messages_arrive_in_order_witness:
  "length (l_sendChan (hub_link frozen 1)) \<le> 512"
  using messages_arrive_in_order [OF frozen_reached, of 1] by (simp add: sendChanSize_def)

section \<open>Broadcasts get through\<close>

text \<open>A sending goroutine that is alive, and what it makes room for.\<close>

definition alive :: "Link \<Rightarrow> bool" where
  "alive l \<longleftrightarrow> (case l_sender l of SenderSelects \<Rightarrow> True | SenderWrites m \<Rightarrow> True | _ \<Rightarrow> False)"

text \<open>The same state, but that the goroutine of \<open>d\<close> has sent on.\<close>

definition sent_on :: "conn \<Rightarrow> Hub \<Rightarrow> Hub \<Rightarrow> bool" where
  "sent_on d h h' \<longleftrightarrow> hub_members h' = hub_members h \<and> hub_readers h' = hub_readers h \<and> hub_writer h' = hub_writer h \<and>
    (\<forall>e. l_pc (hub_link h' e) = l_pc (hub_link h e) \<and> l_accepted (hub_link h' e) = l_accepted (hub_link h e) \<and>
      (alive (hub_link h e) \<longrightarrow> alive (hub_link h' e)))"

lemma sent_on_upd:
  assumes "\<And>l. l_pc (f l) = l_pc l" and "\<And>l. l_accepted (f l) = l_accepted l" and "\<And>l. alive (f l)"
  shows "sent_on d h (upd_link d f h)"
  using assms by (simp add: sent_on_def)

lemma sender_goes_on:
  assumes "sender_turn d True h = Some h'" and "alive (hub_link h d)"
  shows "sent_on d h h'"
  using assms by (auto simp: sender_turn_def alive_def intro!: sent_on_upd split: list.splits sending.splits)

lemma sent_on_trans: "sent_on d h h1 \<Longrightarrow> sent_on d h1 h2 \<Longrightarrow> sent_on d h h2"
  by (simp add: sent_on_def)

lemma makes_room:
  assumes "alive (hub_link h d)" and "link_ok (hub_link h d)"
  obtains h' where "later enc h h'" "sent_on d h h'" "length (l_sendChan (hub_link h' d)) < sendChanSize"
proof -
  note result = that
  have take: thesis
    if s: "l_sender (hub_link h1 d) = SenderSelects" "later enc h h1" "sent_on d h h1"
      "length (l_sendChan (hub_link h1 d)) \<le> sendChanSize" for h1
  proof (cases "l_sendChan (hub_link h1 d)")
    case Nil
    then show thesis using s by (intro result [of h1]) (simp_all add: sendChanSize_def)
  next
    case (Cons m ms)
    let ?h2 = "upd_link d (\<lambda>l. l\<lparr>l_sender := SenderWrites m, l_sendChan := ms\<rparr>) h1"
    have S: "sender_turn d True h1 = Some ?h2" by (simp add: sender_turn_def s(1) Cons)
    have "later enc h ?h2" by (rule later_turn [OF s(2), of "SenderTurn d True"]) (simp_all add: turn_ok_def hub_turn_def S)
    moreover have "sent_on d h ?h2"
      by (rule sent_on_trans [OF s(3) sender_goes_on [OF S]]) (simp add: alive_def s(1))
    ultimately show thesis using s(4) by (intro result [of ?h2]) (simp_all add: Cons)
  qed
  have len: "length (l_sendChan (hub_link h d)) \<le> sendChanSize" using assms(2) by (simp add: link_ok_def)
  have refl: "sent_on d h h" by (simp add: sent_on_def)
  show thesis
  proof (cases "l_sender (hub_link h d) = SenderSelects")
    case True
    then show thesis by (rule take [OF _ later_refl refl len])
  next
    case False
    then obtain m where m: "l_sender (hub_link h d) = SenderWrites m" using assms(1) by (auto simp: alive_def split: sending.splits)
    let ?h1 = "upd_link d (\<lambda>l. l\<lparr>l_sender := SenderSelects, l_written := l_written l @ [m]\<rparr>) h"
    have S: "sender_turn d True h = Some ?h1" by (simp add: sender_turn_def m)
    show thesis
      by (rule take [of ?h1]) (simp_all add: sender_goes_on [OF S assms(1)] len
          later_turn [OF later_refl, of "SenderTurn d True"] turn_ok_def hub_turn_def S)
  qed
qed

text \<open>What the pushes of a broadcast do, when every receiver is alive.\<close>

definition handed :: "conn set \<Rightarrow> Proto \<Rightarrow> Hub \<Rightarrow> Hub \<Rightarrow> bool" where
  "handed D m h h' \<longleftrightarrow> hub_members h' = hub_members h \<and> hub_writer h' = hub_writer h \<and>
    (\<forall>e. l_accepted (hub_link h' e) = l_accepted (hub_link h e) @ (if e \<in> D then [m] else []) \<and>
      (alive (hub_link h e) \<longrightarrow> alive (hub_link h' e)))"

lemma pushes_complete:
  assumes "l_pc (hub_link h c) = Handling (map (\<lambda>d. SendMsg d m) ds @ cs) failed"
    and "distinct ds" and "\<forall>d \<in> set ds. alive (hub_link h d)" and "links_ok h"
  shows "\<exists>h'. later enc h h' \<and> l_pc (hub_link h' c) = Handling cs failed \<and> hub_readers h' = hub_readers h \<and>
    handed (set ds) m h h'"
  using assms
proof (induction ds arbitrary: h)
  case Nil
  then show ?case using later_refl by (intro exI [of _ h]) (simp add: handed_def)
next
  case (Cons d ds)
  have d: "alive (hub_link h d)" "link_ok (hub_link h d)" using Cons.prems by (simp_all add: links_ok_def)
  obtain h1 where h1: "later enc h h1" "sent_on d h h1" "length (l_sendChan (hub_link h1 d)) < sendChanSize"
    by (rule makes_room [OF d])
  let ?h2 = "upd_link d (\<lambda>l. l\<lparr>l_sendChan := l_sendChan l @ [m], l_accepted := l_accepted l @ [m]\<rparr>) h1"
  let ?h3 = "at_pc c (Handling (map (\<lambda>d. SendMsg d m) ds @ cs) failed) ?h2"
  have pc: "l_pc (hub_link h1 c) = Handling (SendMsg d m # map (\<lambda>d. SendMsg d m) ds @ cs) failed"
    using h1(2) Cons.prems(1) by (simp add: sent_on_def)
  have T: "hub_turn enc (LoopTurn c (Next sorted_list_of_set)) h1 = Some ?h3"
    by (simp add: hub_turn_def loop_turn_def pc sendMsg_def h1(3))
  have h3: "later enc h ?h3" by (rule later_turn [OF h1(1) _ T]) (simp add: turn_ok_def range_ok_sorted)
  have "\<forall>d' \<in> set ds. alive (hub_link ?h3 d')" using Cons.prems(3) h1(2) by (auto simp: sent_on_def alive_def)
  moreover have "links_ok ?h3" by (rule links_ok_later [OF h3 Cons.prems(4)])
  ultimately obtain h' where h': "later enc ?h3 h'" "l_pc (hub_link h' c) = Handling cs failed"
    "hub_readers h' = hub_readers ?h3" "handed (set ds) m ?h3 h'"
    using Cons.IH [of ?h3] Cons.prems(2) by auto
  have 3: "l_accepted (hub_link ?h3 e) = l_accepted (hub_link h e) @ (if e = d then [m] else [])"
    "alive (hub_link h e) \<Longrightarrow> alive (hub_link ?h3 e)" for e
    using h1(2) by (auto simp: sent_on_def alive_def)
  have "handed (set (d # ds)) m h h'"
    unfolding handed_def
  proof (intro conjI allI impI)
    show "l_accepted (hub_link h' e) = l_accepted (hub_link h e) @ (if e \<in> set (d # ds) then [m] else [])" for e
      using h'(4) Cons.prems(2) 3(1) [of e] by (auto simp: handed_def)
    show "alive (hub_link h' e)" if "alive (hub_link h e)" for e
      using h'(4) 3(2) [OF that] unfolding handed_def by blast
  qed (use h'(4) h1(2) in \<open>simp_all add: handed_def sent_on_def\<close>)
  then show ?case
    using later_trans [OF h'(1) h3] h'(2,3) h1(2) by (intro exI [of _ h']) (simp add: sent_on_def)
qed

lemma finite_call: "call_step enc r c x cs h = Some (cs', h') \<Longrightarrow> finite (hub_members h) \<Longrightarrow> finite (hub_members h')"
  by (cases x) (auto simp: send_def dest!: sendMsg_eq split: if_splits)

lemma finite_turn:
  assumes "hub_turn enc t h = Some h'" and "finite (hub_members h)"
  shows "finite (hub_members h')"
proof (cases t)
  case (LoopTurn c ch)
  then have "loop_turn enc c ch h = Some h'" using assms(1) by (simp add: hub_turn_def)
  then show ?thesis
  proof (cases rule: loop_turn_shape)
    case (call r x xs cs' h1 p)
    then show ?thesis using finite_call [OF call(1) assms(2)] by simp
  qed (use assms(2) in \<open>simp add: own_step_def\<close>)
next
  case (SenderTurn c good)
  then show ?thesis using goroutine_frame(3) [OF disjI1] assms by (simp add: hub_turn_def)
next
  case (ReceiverTurn c good)
  then show ?thesis using goroutine_frame(3) [OF disjI2] assms by (simp add: hub_turn_def)
qed (use assms in \<open>auto simp: hub_turn_def\<close>)

lemma finite_later: "later enc h h' \<Longrightarrow> finite (hub_members h) \<Longrightarrow> finite (hub_members h')"
  by (induction rule: later.induct) (auto intro: finite_turn)


text \<open>Connection 1 has joined and lives; 0 broadcasts.\<close>

definition meeting :: Hub where
  "meeting = \<lparr>hub_link = (\<lambda>_. new_link) (0 := new_link\<lparr>l_pc := Handling [BroadcastMsg SyncClock] False\<rparr>),
     hub_members = {0, 1}, hub_readers = {}, hub_writer = None\<rparr>"

lemma meeting_run: "play (\<lambda>_. True) (joins 0 @ joins 1 @
    [LoopTurn 0 (Next sorted_list_of_set), LoopTurn 0 (TakesMessage [BroadcastMsg SyncClock] False)]) hub0 = Some meeting"
  by (simp add: joins_def hub_turn_def loop_turn_def hub0_def new_link_def upd_link_def at_pc_def meeting_def
      issued_def Let_def insert_commute fun_eq_iff fun_upd_def)


end
