(* ===== verification/Handle_Return.thy ===== *)
theory Handle_Return
imports Goroutines
begin

text \<open>
  The end of \<^verbatim>\<open>Handle\<close>: when it can return; and that the loop of \<open>exec\<close> is an
  abstraction of it.
\<close>

section \<open>The end of a connection\<close>

text \<open>The goroutines of a connection that have an error to report.\<close>

definition failing :: "Link \<Rightarrow> nat" where
  "failing l = (if l_sender l = SenderFails then 1 else 0) + (if l_receiver l = ReceiverFails then 1 else 0)"

lemma failing_pos: "l_sender l = SenderFails \<Longrightarrow> 0 < failing l" "l_receiver l = ReceiverFails \<Longrightarrow> 0 < failing l"
  by (simp_all add: failing_def)

text \<open>The loop leaves its \<^verbatim>\<open>for\<close> only when the context is cancelled.\<close>

definition cancelled_ok :: "Link \<Rightarrow> bool" where
  "cancelled_ok l \<longleftrightarrow> (l_pc l \<in> {AwaitGoroutines, HandleReturned, HandlePanicked} \<longrightarrow> l_cancelled l)"

lemma cancelled_loop:
  assumes "loop_turn enc c ch h = Some h'" and "cancelled_ok (hub_link h c)"
  shows "cancelled_ok (hub_link h' c)"
  using assms
  by (auto simp: loop_turn_def Let_def cancelled_ok_def dest!: report_eq split: pc.splits pick.splits list.splits if_splits)

lemma cancelled_turn:
  assumes "hub_turn enc t h = Some h'" and "cancelled_ok (hub_link h d)"
  shows "cancelled_ok (hub_link h' d)"
proof (cases t)
  case (LoopTurn c ch)
  then have L: "loop_turn enc c ch h = Some h'" using assms(1) by (simp add: hub_turn_def)
  show ?thesis
    using cancelled_loop [OF L] loop_turn_others [OF L, of d] assms(2) by (cases "d = c") (simp_all add: cancelled_ok_def)
next
  case (SenderTurn c good)
  then have "sender_turn c good h = Some h' \<or> receiver_turn c good h = Some h'" using assms(1) by (simp add: hub_turn_def)
  then show ?thesis using goroutine_frame(1,2) assms(2) by (simp add: cancelled_ok_def)
next
  case (ReceiverTurn c good)
  then have "sender_turn c good h = Some h' \<or> receiver_turn c good h = Some h'" using assms(1) by (simp add: hub_turn_def)
  then show ?thesis using goroutine_frame(1,2) assms(2) by (simp add: cancelled_ok_def)
next
  case (ContextCancelled c)
  then have "h' = upd_link c (\<lambda>l. l\<lparr>l_cancelled := True\<rparr>) h" using assms(1) by (simp add: hub_turn_def)
  then show ?thesis using assms(2) by (simp add: cancelled_ok_def)
qed

lemma cancelled_later: "later enc h h' \<Longrightarrow> cancelled_ok (hub_link h d) \<Longrightarrow> cancelled_ok (hub_link h' d)"
  by (induction rule: later.induct) (auto intro: cancelled_turn)

text \<open>A goroutine of the connection can always end when its error finds room.\<close>

definition own_turns :: "(Proto \<Rightarrow> bool) \<Rightarrow> conn \<Rightarrow> Hub \<Rightarrow> Link \<Rightarrow> bool" where
  "own_turns enc c h l \<longleftrightarrow> (\<exists>h'. later enc h h' \<and> hub_link h' c = l)"

lemma own_turns_refl: "own_turns enc c h (hub_link h c)"
  unfolding own_turns_def using later_refl by blast

lemma own_turn:
  assumes "own_turns enc c h l" and "\<And>h'. hub_link h' c = l \<Longrightarrow> \<exists>h''. hub_turn enc t h' = Some h'' \<and> hub_link h'' c = l'"
    and "turn_ok t"
  shows "own_turns enc c h l'"
  using assms unfolding own_turns_def by (metis later_turn)

lemma sender_drains:
  assumes "own_turns enc c h l" and "l_sender l = SenderDrains"
  shows "own_turns enc c h (l\<lparr>l_sender := SenderStopped, l_sendChan := []\<rparr>)"
  using assms
proof (induction "l_sendChan l" arbitrary: l)
  case Nil
  show ?case
    by (rule own_turn [OF Nil.prems(1), where t = "SenderTurn c True"])
      (use Nil in \<open>auto simp: hub_turn_def sender_turn_def turn_ok_def\<close>)
next
  case (Cons m ms)
  have "own_turns enc c h (l\<lparr>l_sendChan := ms\<rparr>)"
    by (rule own_turn [OF Cons.prems(1), where t = "SenderTurn c True"])
      (use Cons in \<open>auto simp: hub_turn_def sender_turn_def turn_ok_def split: list.split\<close>)
  from Cons.hyps(1) [OF _ this] Cons.prems(2) show ?case by simp
qed

lemma sender_ends:
  assumes "own_turns enc c h l" and "l_cancelled l" and "l_sender l = SenderFails \<Longrightarrow> l_disconnectChan l < disconnectChanSize"
  obtains l' where "own_turns enc c h l'" "l_sender l' = SenderStopped" "l_receiver l' = l_receiver l" "l_pc l' = l_pc l"
    "l_cancelled l'" "l_disconnectChan l' = (if l_sender l = SenderFails then 1 else 0) + l_disconnectChan l"
proof -
  note result = that
  have drain: thesis if "own_turns enc c h l1" "l_sender l1 = SenderDrains" "l_receiver l1 = l_receiver l" "l_pc l1 = l_pc l"
    "l_cancelled l1" "l_disconnectChan l1 = (if l_sender l = SenderFails then 1 else 0) + l_disconnectChan l" for l1
    by (rule result [OF sender_drains [OF that(1,2)]]) (simp_all add: that)
  show thesis
  proof (cases "l_sender l")
    case SenderSelects
    have "own_turns enc c h (l\<lparr>l_sender := SenderDrains\<rparr>)"
      by (rule own_turn [OF assms(1), where t = "SenderTurn c False"])
        (use SenderSelects assms(2) in \<open>auto simp: hub_turn_def sender_turn_def turn_ok_def\<close>)
    then show thesis by (rule drain) (simp_all add: SenderSelects assms(2))
  next
    case (SenderWrites m)
    have "own_turns enc c h (l\<lparr>l_sender := SenderSelects, l_written := l_written l @ [m]\<rparr>)"
      by (rule own_turn [OF assms(1), where t = "SenderTurn c True"])
        (use SenderWrites in \<open>auto simp: hub_turn_def sender_turn_def turn_ok_def\<close>)
    then have "own_turns enc c h (l\<lparr>l_sender := SenderDrains, l_written := l_written l @ [m]\<rparr>)"
      by (rule own_turn [where t = "SenderTurn c False"])
        (use assms(2) in \<open>auto simp: hub_turn_def sender_turn_def turn_ok_def\<close>)
    then show thesis by (rule drain) (simp_all add: SenderWrites assms(2))
  next
    case SenderFails
    have "own_turns enc c h (l\<lparr>l_sender := SenderDrains, l_disconnectChan := Suc (l_disconnectChan l)\<rparr>)"
      by (rule own_turn [OF assms(1), where t = "SenderTurn c True"])
        (use SenderFails assms(3) in \<open>auto simp: hub_turn_def sender_turn_def turn_ok_def report_def\<close>)
    then show thesis by (rule drain) (simp_all add: SenderFails assms(2))
  next
    case SenderDrains
    with assms(1) show thesis by (rule drain) (simp_all add: SenderDrains assms(2))
  next
    case SenderStopped
    with assms(1) show thesis by (rule result) (simp_all add: SenderStopped assms(2))
  qed
qed

lemma receiver_ends:
  assumes "own_turns enc c h l" and "l_cancelled l" and "l_receiver l = ReceiverFails \<Longrightarrow> l_disconnectChan l < disconnectChanSize"
  obtains l' where "own_turns enc c h l'" "l_receiver l' = ReceiverStopped" "l_sender l' = l_sender l" "l_pc l' = l_pc l"
proof (cases "l_receiver l")
  case ReceiverSelects
  have "own_turns enc c h (l\<lparr>l_receiver := ReceiverStopped\<rparr>)"
    by (rule own_turn [OF assms(1), where t = "ReceiverTurn c True"])
      (use ReceiverSelects assms(2) in \<open>auto simp: hub_turn_def receiver_turn_def turn_ok_def\<close>)
  then show thesis by (rule that) simp_all
next
  case ReceiverReads
  have "own_turns enc c h (l\<lparr>l_receiver := ReceiverSelects\<rparr>)"
    by (rule own_turn [OF assms(1), where t = "ReceiverTurn c True"])
      (use ReceiverReads in \<open>auto simp: hub_turn_def receiver_turn_def turn_ok_def\<close>)
  then have "own_turns enc c h (l\<lparr>l_receiver := ReceiverStopped\<rparr>)"
    by (rule own_turn [where t = "ReceiverTurn c True"])
      (use assms(2) in \<open>auto simp: hub_turn_def receiver_turn_def turn_ok_def\<close>)
  then show thesis by (rule that) simp_all
next
  case ReceiverFails
  have "own_turns enc c h (l\<lparr>l_receiver := ReceiverStopped, l_disconnectChan := Suc (l_disconnectChan l)\<rparr>)"
    by (rule own_turn [OF assms(1), where t = "ReceiverTurn c True"])
      (use ReceiverFails assms(3) in \<open>auto simp: hub_turn_def receiver_turn_def turn_ok_def report_def\<close>)
  then show thesis by (rule that) simp_all
next
  case ReceiverStopped
  with assms(1) show thesis by (rule that) simp_all
qed

lemma room_returns:
  assumes "l_pc (hub_link h c) = AwaitGoroutines" and "l_cancelled (hub_link h c)"
    and "l_disconnectChan (hub_link h c) + failing (hub_link h c) \<le> disconnectChanSize"
  shows "\<exists>h'. later enc h h' \<and> l_pc (hub_link h' c) = HandleReturned"
proof -
  obtain l1 where l1: "own_turns enc c h l1" "l_sender l1 = SenderStopped" "l_receiver l1 = l_receiver (hub_link h c)"
    "l_pc l1 = AwaitGoroutines" "l_cancelled l1"
    "l_disconnectChan l1 = (if l_sender (hub_link h c) = SenderFails then 1 else 0) + l_disconnectChan (hub_link h c)"
    by (rule sender_ends [OF own_turns_refl [of enc c h] assms(2)]) (use assms in \<open>auto simp: failing_def\<close>)
  obtain l2 where l2: "own_turns enc c h l2" "l_receiver l2 = ReceiverStopped" "l_sender l2 = SenderStopped"
    "l_pc l2 = AwaitGoroutines"
    by (rule receiver_ends [OF l1(1,5)]) (use l1 assms(3) in \<open>auto simp: failing_def\<close>)
  have "own_turns enc c h (l2\<lparr>l_pc := HandleReturned, l_disconnectChan := 0\<rparr>)"
    by (rule own_turn [OF l2(1), where t = "LoopTurn c TakesTimer"])
      (use l2 in \<open>auto simp: hub_turn_def loop_turn_def Let_def turn_ok_def\<close>)
  then show ?thesis unfolding own_turns_def by (metis Link.select_convs(1) Link.surjective Link.update_convs(1,5))
qed

text \<open>Without room they wait for each other.\<close>

definition cramped :: "Link \<Rightarrow> bool" where
  "cramped l \<longleftrightarrow> l_pc l = AwaitGoroutines \<and> disconnectChanSize < l_disconnectChan l + failing l"

lemma cramped_turn:
  assumes "cramped (hub_link h c)" and "link_ok (hub_link h c)" and "hub_turn enc t h = Some h'"
  shows "cramped (hub_link h' c)"
proof (cases t)
  case (LoopTurn e ch)
  then have L: "loop_turn enc e ch h = Some h'" using assms(3) by (simp add: hub_turn_def)
  have "failing (hub_link h c) \<noteq> 0" using assms(1,2) by (auto simp: cramped_def link_ok_def)
  then have "e \<noteq> c" using L assms(1) by (auto simp: cramped_def loop_turn_def Let_def failing_def split: if_splits)
  then show ?thesis using loop_turn_others [OF L, of c] assms(1) by (simp add: cramped_def failing_def)
next
  case (SenderTurn e good)
  then have "sender_turn e good h = Some h'" using assms(3) by (simp add: hub_turn_def)
  then show ?thesis
    using assms(1) goroutine_frame(6) [OF disjI1, of e good h h' c]
    by (cases "e = c"; cases "l_sender (hub_link h e)")
      (auto simp: sender_turn_def cramped_def failing_def Let_def dest!: report_eq split: list.splits if_splits)
next
  case (ReceiverTurn e good)
  then have "receiver_turn e good h = Some h'" using assms(3) by (simp add: hub_turn_def)
  then show ?thesis
    using assms(1) goroutine_frame(6) [OF disjI2, of e good h h' c]
    by (cases "e = c"; cases "l_receiver (hub_link h e)")
      (auto simp: receiver_turn_def cramped_def failing_def Let_def dest!: report_eq split: if_splits)
next
  case (ContextCancelled e)
  then have "h' = upd_link e (\<lambda>l. l\<lparr>l_cancelled := True\<rparr>) h" using assms(3) by (simp add: hub_turn_def)
  then show ?thesis using assms(1) by (cases "c = e") (simp_all add: cramped_def failing_def)
qed

lemma cramped_later: "later enc h h' \<Longrightarrow> links_ok h \<Longrightarrow> cramped (hub_link h c) \<Longrightarrow> cramped (hub_link h' c)"
proof (induction rule: later.induct)
  case (later_turn h1 t h2)
  then show ?case using cramped_turn links_ok_later by (metis links_ok_def)
qed simp

text \<open>C18: When the loop of a connection is over, \<^verbatim>\<open>Handle\<close> can return if and only if the
  channel of disconnections still has room for the errors of the goroutines that have failed. Nobody reads this channel
  any more, so without room a failed goroutine waits for ever, and \<^verbatim>\<open>Handle\<close> with it.\<close>

theorem handle_returns_iff_room:
  assumes "later enc hub0 h" and "l_pc (hub_link h c) = AwaitGoroutines"
  shows "(\<exists>h'. later enc h h' \<and> l_pc (hub_link h' c) = HandleReturned) \<longleftrightarrow>
    l_disconnectChan (hub_link h c) + failing (hub_link h c) \<le> disconnectChanSize"
proof
  assume "l_disconnectChan (hub_link h c) + failing (hub_link h c) \<le> disconnectChanSize"
  moreover have "l_cancelled (hub_link h c)"
    using cancelled_later [OF assms(1), of c] assms(2) by (simp add: cancelled_ok_def hub0_def new_link_def)
  ultimately show "\<exists>h'. later enc h h' \<and> l_pc (hub_link h' c) = HandleReturned"
    using room_returns [OF assms(2)] by blast
next
  assume "\<exists>h'. later enc h h' \<and> l_pc (hub_link h' c) = HandleReturned"
  then obtain h' where h': "later enc h h'" "l_pc (hub_link h' c) = HandleReturned" by blast
  have "\<not> cramped (hub_link h c)"
    using cramped_later [OF h'(1) links_ok_later [OF assms(1) links_ok_hub0], of c] h'(2) by (auto simp: cramped_def)
  then show "l_disconnectChan (hub_link h c) + failing (hub_link h c) \<le> disconnectChanSize"
    using assms(2) by (simp add: cramped_def)
qed

text \<open>Eight times the idle timer fires, the receiving goroutine fails, and the server shuts down.\<close>

definition idles :: "turn list" where
  "idles = [LoopTurn 0 TakesTimer, LoopTurn 0 TakesTimer, LoopTurn 0 TakesTimer]"

definition cramped_link :: Link where
  "cramped_link = new_link\<lparr>l_pc := AwaitGoroutines, l_receiver := ReceiverFails, l_disconnectChan := 8, l_cancelled := True\<rparr>"

lemma cramped_run: "play (\<lambda>_. True)
    (idles @ idles @ idles @ idles @ idles @ idles @ idles @ idles @
      [ReceiverTurn 0 True, ReceiverTurn 0 False, ContextCancelled 0, LoopTurn 0 TakesTimer]) hub0 =
  Some (upd_link 0 (\<lambda>_. cramped_link) hub0)"
  by (simp add: idles_def hub_turn_def loop_turn_def receiver_turn_def report_def disconnectChanSize_def hub0_def new_link_def
      upd_link_def at_pc_def cramped_link_def Let_def fun_eq_iff fun_upd_def)

lemma handle_returns_iff_room_witness:
  "\<not> (\<exists>h'. later (\<lambda>_. True) (upd_link 0 (\<lambda>_. cramped_link) hub0) h' \<and> l_pc (hub_link h' 0) = HandleReturned)"
proof -
  have "later (\<lambda>_. True) hub0 (upd_link 0 (\<lambda>_. cramped_link) hub0)"
    by (rule play_later [OF cramped_run]) (auto simp: idles_def turn_ok_def)
  from handle_returns_iff_room [OF this, of 0] show ?thesis
    by (simp add: cramped_link_def failing_def disconnectChanSize_def)
qed

section \<open>The steps of the coarser model\<close>

text \<open>The loop of a connection as \<open>exec\<close> sees it.\<close>

definition loop_of :: "Link \<Rightarrow> loop" where
  "loop_of l =
    (case l_pc l of
       LoopHead \<Rightarrow> if l_cancelled l then Ended else Running (l_disconnectChan l)
     | Disconnecting \<Rightarrow> if l_disconnectChan l < disconnectChanSize then Running (l_disconnectChan l) else Blocked
     | Leaving cs \<Rightarrow> Ended
     | AwaitGoroutines \<Rightarrow> Ended
     | HandleReturned \<Rightarrow> Ended
     | HandlePanicked \<Rightarrow> Crashed
     | _ \<Rightarrow> Running (l_disconnectChan l))"

text \<open>The events of a connection that move its loop; the error of a handler counts like the idle
  timer.\<close>

definition loop_events :: "conn \<Rightarrow> event set" where
  "loop_events c = {IdleTimeout c, GoroutineError c, TakeDisconnect c, ContextDone c}"

definition moves :: "conn \<Rightarrow> loop \<Rightarrow> loop \<Rightarrow> bool" where
  "moves c l l' \<longleftrightarrow> (\<exists>evs. set evs \<subseteq> loop_events c \<and>
    (\<forall>w e. w_loop w c = l \<longrightarrow> w_loop (run (map (Pair e) evs) w) c = l'))"

lemma moves_refl: "moves c l l"
  unfolding moves_def by (intro exI [of _ "[]"]) simp

lemma moves_event:
  assumes "ev \<in> loop_events c" and "\<And>w e. w_loop w c = l \<Longrightarrow> w_loop (exec e ev w) c = l'"
  shows "moves c l l'"
  unfolding moves_def using assms by (intro exI [of _ "[ev]"]) simp

lemma run_append: "run (es @ es') w = run es' (run es w)"
  by (induction es arbitrary: w) auto

lemma moves_trans: "moves c l1 l2 \<Longrightarrow> moves c l2 l3 \<Longrightarrow> moves c l1 l3"
  unfolding moves_def
proof (elim exE conjE)
  fix es es' assume "set es \<subseteq> loop_events c" "\<forall>w e. w_loop w c = l1 \<longrightarrow> w_loop (run (map (Pair e) es) w) c = l2"
    "set es' \<subseteq> loop_events c" "\<forall>w e. w_loop w c = l2 \<longrightarrow> w_loop (run (map (Pair e) es') w) c = l3"
  then show "\<exists>evs. set evs \<subseteq> loop_events c \<and> (\<forall>w e. w_loop w c = l1 \<longrightarrow> w_loop (run (map (Pair e) evs) w) c = l3)"
    by (intro exI [of _ "es @ es'"]) (simp add: run_append)
qed

lemma moves_error: "k < disconnectChanSize \<Longrightarrow> moves c (Running k) (Running (Suc k))"
  by (rule moves_event [of "GoroutineError c"]) (simp_all add: loop_events_def exec_def set_loop_def)

lemma moves_end: "moves c (Running k) Ended"
  by (rule moves_event [of "ContextDone c"]) (simp_all add: loop_events_def exec_def set_loop_def)

lemma moves_block: "disconnectChanSize \<le> k \<Longrightarrow> moves c (Running k) Blocked"
  by (rule moves_event [of "IdleTimeout c"]) (simp_all add: loop_events_def exec_def disconnect_def set_loop_def)

lemma moves_leave: "moves c (Running (Suc k)) Ended"
  by (rule moves_event [of "TakeDisconnect c"]) (simp_all add: loop_events_def exec_def handleDisconnect_def set_loop_def)

lemma loop_of_same:
  "l_pc l' = l_pc l \<Longrightarrow> l_disconnectChan l' = l_disconnectChan l \<Longrightarrow> l_cancelled l' = l_cancelled l \<Longrightarrow> loop_of l' = loop_of l"
  by (simp only: loop_of_def)

lemma loop_of_panicked: "l_pc l = HandlePanicked \<Longrightarrow> loop_of l = Crashed"
  by (simp add: loop_of_def)

text \<open>One more error in the channel of disconnections.\<close>

lemma moves_report:
  assumes "l_disconnectChan l < disconnectChanSize" and "l_pc l' = l_pc l" and "l_cancelled l' = l_cancelled l"
    and "l_disconnectChan l' = Suc (l_disconnectChan l)"
  shows "moves c (loop_of l) (loop_of l')"
proof -
  have e: "moves c (Running (l_disconnectChan l)) (Running (Suc (l_disconnectChan l)))" by (rule moves_error [OF assms(1)])
  moreover have "moves c (Running (l_disconnectChan l)) Blocked" if "\<not> Suc (l_disconnectChan l) < disconnectChanSize"
    using moves_trans [OF e moves_block] that by simp
  ultimately show ?thesis using assms by (auto simp: loop_of_def moves_refl split: pc.split)
qed

lemma goroutine_moves:
  assumes "sender_turn e good h = Some h' \<or> receiver_turn e good h = Some h'"
  shows "moves c (loop_of (hub_link h c)) (loop_of (hub_link h' c))"
proof (cases "l_disconnectChan (hub_link h' c) = l_disconnectChan (hub_link h c)")
  case True
  then show ?thesis using loop_of_same [of "hub_link h' c" "hub_link h c"] goroutine_frame(1,2) [OF assms]
    by (simp add: moves_refl)
next
  case False
  then have "l_disconnectChan (hub_link h' c) = Suc (l_disconnectChan (hub_link h c)) \<and> l_disconnectChan (hub_link h c) < disconnectChanSize"
    using assms
    by (auto simp: sender_turn_def receiver_turn_def Let_def dest!: report_eq
        split: sending.splits receiving.splits list.splits if_splits)
  then show ?thesis using moves_report goroutine_frame(1,2) [OF assms] by simp
qed

lemma call_loop_of:
  assumes "call_step enc r c x cs h = Some (cs', h')"
  shows "l_disconnectChan (hub_link h' c) = l_disconnectChan (hub_link h c)"
  using only_sentD(5) [OF call_only_sent [OF assms]] .

lemma loop_moves:
  assumes "loop_turn enc c ch h = Some h'" and "link_ok (hub_link h c)" and "l_pc (hub_link h' c) \<noteq> HandlePanicked"
  shows "moves c (loop_of (hub_link h c)) (loop_of (hub_link h' c))"
proof -
  have k: "l_disconnectChan (hub_link h c) \<le> disconnectChanSize" using assms(2) by (simp add: link_ok_def)
  have leave: "moves c (Running n) Ended" if "0 < n" for n using moves_leave [of c "n - 1"] that by simp
  have full: "moves c (Running n) Blocked" if "\<not> n < disconnectChanSize" for n using moves_block that by simp
  have err: "moves c (Running n) (if b then Ended else Running (Suc n))" if "n < disconnectChanSize" for n b
    using moves_error [OF that] moves_end by simp
  show ?thesis
  proof (cases "l_pc (hub_link h c)")
    case LoopHead
    then show ?thesis using assms(1) by (auto simp: loop_turn_def loop_of_def moves_refl)
  next
    case Selecting
    then show ?thesis
      using assms(1) leave [of "l_disconnectChan (hub_link h c)"] full [of "l_disconnectChan (hub_link h c)"]
      by (auto simp: loop_turn_def Let_def loop_of_def moves_refl split: pick.splits if_splits)
  next
    case (Handling cs failed)
    consider r x xs cs' h1 where "call_step enc r c x xs h = Some (cs', h1)" "h' = at_pc c (Handling cs' failed) h1"
      | "h' = at_pc c (if failed then Disconnecting else LoopHead) h"
      using assms(1,3) Handling by (auto simp: loop_turn_def split: pick.splits list.splits if_splits)
    then show ?thesis
    proof cases
      case 1
      then show ?thesis using Handling by (simp add: loop_of_def call_loop_of moves_refl)
    next
      case 2
      then show ?thesis
        using Handling full [of "l_disconnectChan (hub_link h c)"] by (auto simp: loop_of_def moves_refl moves_end)
    qed
  next
    case Disconnecting
    then show ?thesis
      using assms(1) err [of "l_disconnectChan (hub_link h c)" "l_cancelled (hub_link h c)"]
      by (auto simp: loop_turn_def loop_of_def dest!: report_eq)
  next
    case (Leaving cs)
    consider r x xs cs' h1 where "call_step enc r c x xs h = Some (cs', h1)" "h' = at_pc c (Leaving cs') h1"
      | "h' = upd_link c (\<lambda>l. l\<lparr>l_cancelled := True, l_pc := LoopHead\<rparr>) h"
      using assms(1) Leaving by (auto simp: loop_turn_def split: pick.splits list.splits)
    then show ?thesis using Leaving by cases (simp_all add: loop_of_def moves_refl)
  next
    case AwaitGoroutines
    then show ?thesis using assms(1) by (auto simp: loop_turn_def Let_def loop_of_def moves_refl split: if_splits)
  qed (use assms(1) in \<open>simp_all add: loop_turn_def\<close>)
qed

lemma loop_panics:
  assumes "loop_turn enc c ch h = Some h'" and "l_pc (hub_link h' c) = HandlePanicked"
  shows "ch = Panics"
  using assms
  by (auto simp: loop_turn_def Let_def dest!: report_eq split: pc.splits pick.splits list.splits if_splits)

text \<open>C19: The loop of \<open>exec\<close> is an abstraction of the goroutine of \<^verbatim>\<open>Handle\<close>. Every turn of any
  goroutine moves the loop of a connection as some events of that connection move it in \<open>exec\<close>, or not at
  all, and a panic of a handler makes it crash. In particular the loop that waits at its own
  full channel is blocked, and one that saw its context done ends without leaving.\<close>

theorem turns_refine_loop_events:
  assumes "later enc hub0 h" and "hub_turn enc t h = Some h'"
  shows "t = LoopTurn c Panics \<and> loop_of (hub_link h' c) = Crashed \<or>
    (\<exists>evs. set evs \<subseteq> loop_events c \<and>
      (\<forall>w e. w_loop w c = loop_of (hub_link h c) \<longrightarrow>
        w_loop (run (map (Pair e) evs) w) c = loop_of (hub_link h' c)))"
proof -
  have ok: "link_ok (hub_link h c)" using links_ok_later [OF assms(1) links_ok_hub0] by (simp add: links_ok_def)
  have "t = LoopTurn c Panics \<and> loop_of (hub_link h' c) = Crashed \<or> moves c (loop_of (hub_link h c)) (loop_of (hub_link h' c))"
  proof (cases t)
    case (LoopTurn e ch)
    then have L: "loop_turn enc e ch h = Some h'" using assms(2) by (simp add: hub_turn_def)
    show ?thesis
    proof (cases "e = c")
      case True
      then show ?thesis
        using loop_moves [of enc c ch h h'] L ok loop_of_panicked [of "hub_link h' c"] loop_panics [of enc c ch h h'] LoopTurn by blast
    next
      case False
      then show ?thesis
        using loop_turn_others [OF L, of c] loop_of_same [of "hub_link h' c" "hub_link h c"] by (simp add: moves_refl)
    qed
  next
    case (SenderTurn e good)
    then show ?thesis using goroutine_moves [OF disjI1] assms(2) by (simp add: hub_turn_def)
  next
    case (ReceiverTurn e good)
    then show ?thesis using goroutine_moves [OF disjI2] assms(2) by (simp add: hub_turn_def)
  next
    case (ContextCancelled e)
    then have "h' = upd_link e (\<lambda>l. l\<lparr>l_cancelled := True\<rparr>) h" using assms(2) by (simp add: hub_turn_def)
    then show ?thesis by (cases "c = e") (auto simp: loop_of_def moves_refl moves_end split: pc.split)
  qed
  then show ?thesis by (simp add: moves_def)
qed

text \<open>The server shuts down before the loop has started.\<close>

lemma turns_refine_loop_events_witness:
  "\<exists>evs. set evs \<subseteq> loop_events 1 \<and>
    (\<forall>w e. w_loop w 1 = loop_of (hub_link hub0 1) \<longrightarrow> w_loop (run (map (Pair e) evs) w) 1 = Ended)"
proof -
  have "hub_turn (\<lambda>_. True) (ContextCancelled 1) hub0 = Some (upd_link 1 (\<lambda>l. l\<lparr>l_cancelled := True\<rparr>) hub0)"
    by (simp add: hub_turn_def)
  from turns_refine_loop_events [OF later_refl this, of 1] show ?thesis
    by (simp add: loop_of_def hub0_def new_link_def)
qed

end
