(* ===== verification/Spec2Isabelle.thy ===== *)
theory Spec2Isabelle
imports Main_Program Ground_Planes Dagaz_Queries Dagaz_Merge Backpressure Handle_Return
begin

text \<open>
  Hagall is a relay: participants connect by WebSocket, join a session, and share entities
  with poses, entity components and custom messages with the other participants of the
  session. This development models the relay from the source at \<^verbatim>\<open>src/\<close> and proves what
  it promises to its clients, over every sequence of events of any number of connections.

  \<^bold>\<open>The parts of the program and their theories.\<close>

  \<^item> \<^verbatim>\<open>models/id.go\<close> (\<open>Ids\<close>): the generator of ids with its pool of reusable ones.
  \<^item> \<^verbatim>\<open>featureflag/\<close> (\<open>Feature_Flags\<close>): the set of flags that switch broadcasts off.
  \<^item> \<^verbatim>\<open>models/participant.go\<close>, \<^verbatim>\<open>models/entity.go\<close> (\<open>Entity\<close>, \<open>Entity_Components\<close>):
    participants, entities, poses, and the store of components with its types and
    subscriptions.
  \<^item> The protocol messages that the code reads and builds (\<open>Messages\<close>).
  \<^item> \<^verbatim>\<open>models/session.go\<close>, \<^verbatim>\<open>models/metrics.go\<close> (\<open>Session\<close>, \<open>Session_Inv\<close>,
    \<open>Session_Store\<close>): a session with its participants, entities, frame handlers and
    broadcasts; the store of sessions, global ids and the gauges of sessions.
  \<^item> \<^verbatim>\<open>models/signed_latency.go\<close> (\<open>Signed_Latency\<close>): the measurement of a latency by
    pings, its statistics and its signed answer.
  \<^item> \<^verbatim>\<open>modules/module.go\<close> (\<open>Module_Calls\<close>), \<^verbatim>\<open>modules/vikja\<close> (\<open>Vikja_State\<close>,
    \<open>Vikja\<close>) and \<^verbatim>\<open>modules/odal\<close> (\<open>Odal_State\<close>, \<open>Odal\<close>): the interface of a
    module and the modules for entity actions and asset instances.
  \<^item> \<^verbatim>\<open>modules/dagaz\<close>: the module for ground planes. Its geometry in single precision
    (\<open>Rounding\<close>, \<open>Floats\<close>, \<open>Dagaz_Math\<close>), its grid (\<open>Dagaz_Grid\<close>) and its messages
    (\<open>Dagaz\<close>).
  \<^item> \<^verbatim>\<open>websocket/realtime.go\<close> (\<open>World\<close>, \<open>Realtime\<close>): the state of the server and one
    definition per handler.
  \<^item> \<^verbatim>\<open>websocket/handler.go\<close> (\<open>Dispatch\<close>): the dispatch of a message, and the loop of a
    connection as steps \<open>exec\<close> on events: a connection is accepted, a message arrives, a
    timer fires, a goroutine of the connection fails, an entry of the channel of
    disconnections is read, the context is cancelled, a receipt is taken. \<open>Goroutines\<close> has
    the same connection in finer steps: its three goroutines, its bounded channels, and the
    lock that a broadcast holds.
  \<^item> \<^verbatim>\<open>websocket/metrics.go\<close> (\<open>Metering\<close>) and \<^verbatim>\<open>websocket/logs.go\<close> (\<open>Logging\<close>): the
    wrappers around the handler of a connection.
  \<^item> \<^verbatim>\<open>receipt/\<close> (\<open>Receipts\<close>): the goroutine that takes receipts off their channel,
    checks and posts them.
  \<^item> \<^verbatim>\<open>http/\<close> and \<^verbatim>\<open>smoketest/\<close> (\<open>Http\<close>), \<^verbatim>\<open>cmd/main.go\<close> (\<open>Server\<close>,
    \<open>Main_Program\<close>): the helpers around requests, the smoke test, the configuration, the routes,
    serving until shutdown, and the end of the program.

  \<^bold>\<open>The correspondence.\<close> A struct is a record whose fields have the names of the source with
  a prefix, a method is a function with the name of the method that takes and returns the
  state, an error is a value (\<open>Nil_error\<close>, \<open>Failed\<close>), and so are a panic
  (\<open>Panicked\<close>) and a call that never returns (\<open>Endless\<close>).
  Sessions and participants, which several structures point to, live on heaps in the
  \<open>world\<close>. What the code gets from outside in a step is its environment \<open>Env\<close>: the order of
  ranging over a map, the clock, new UUIDs, whether a message can be encoded, and what the
  machine makes of a float that no integer type holds. The goroutine
  of a connection handles one event at a time, and the mutexes of a session make the methods
  atomic, so a run of the server is a list of events in any order, each with its environment.

  \<^bold>\<open>What the lemmas show.\<close>

  \<^item> Each component has its invariant and the functional behaviour of its operations, in its
    own theory. Contracts between components are locales: \<open>id_source\<close> in \<open>Ids\<close>,
    interpreted by the generator; \<open>lookup_table\<close> and \<open>keyed_table\<close> in \<open>Prelude\<close>,
    interpreted by the tables of entities, assets and actions; and \<open>relay_module\<close> in
    \<open>World\<close>, interpreted by the three modules.
  \<^item> \<open>Local_Steps\<close>, \<open>Effects\<close>, \<open>Session_Ok\<close>: every handler that neither joins nor leaves is a step
    that is local to the session and the participant of the sender, and keeps the invariant of
    the session.
  \<^item> \<open>Membership\<close>, \<open>Invariants\<close>, \<open>Reachable\<close>: joining and leaving in closed form, and
    the invariant of the server in every reachable state. The first properties of this theory
    unfold it.
  \<^item> \<open>Delivery\<close>, \<open>Joining\<close>, \<open>Relaying\<close>: who hears of a message, what a join and a leave do,
    and what each relayed operation does to the session and to the queue of every connection.
  \<^item> \<open>Loops\<close>: failures, the blocked loop and the abandoned participant. \<open>Receipts\<close>:
    no receipt is lost. \<open>Metering\<close> and \<open>Logging\<close>: the wrappers change nothing, and count
    right. \<open>Server\<close>: who reaches the relay, and when the server starts. \<open>Main_Program\<close>:
    when it unpairs.
  \<^item> \<open>Backpressure\<close> and \<open>Handle_Return\<close>: messages keep their order, broadcasts get through while
    their receivers live, how one participant freezes its session, when \<^verbatim>\<open>Handle\<close> can
    return, and that the loop of \<open>exec\<close> is an abstraction of the goroutines.
  \<^item> \<open>Dagaz_Cells\<close>, \<open>Dagaz_Insert\<close>, \<open>Dagaz_Merge\<close>, \<open>Dagaz_Queries\<close>, \<open>Dagaz_Rays\<close>: what the operations
    of the grid do. \<open>Plane_Store\<close> and \<open>Ground_Planes\<close>: the grids of a server stay in order, and
    what a client gets to see of them.
  \<^item> \<open>Scenario\<close> holds the concrete states at which the theorems are applied.

  \<^bold>\<open>Bounds.\<close> Ids have 32 bits and the generator wraps, so ids are unique only as long as no
  generator has been called \<open>2 ^ 32 - 1\<close> times. An event draws at most one id from each
  generator; the theorems on reachable states are about runs of at most
  \<open>id_limit = 2 ^ 32 - 1\<close> events. The channel of disconnections holds 8 entries, the one of
  receipts 128, and a custom message 10240 bytes, as in the code. The single precision numbers of a
  latency are integers rounded to 24 bits, those of the grid are exact rationals rounded to 24
  bits, infinities and NaN. The channel of messages to a connection holds 512 in
  \<open>Goroutines\<close> and is unbounded in \<open>world\<close>, which records everything that was ever put into it. No
  definition needs fuel: the loops of the code range over maps and slices, or are steps of a
  relation, but for two in the grid, which may run for ever: the walk along a ray and the search
  for planes to merge are partial functions whose value \<open>None\<close> says that they do.

  \<^bold>\<open>What is not modelled.\<close>

  \<^item> In \<^verbatim>\<open>cmd/main.go\<close>, the clients of other services, the log, metrics and
    signals, which are libraries; what they are given is modelled.
  \<^item> Data races. The mutexes of a session make its methods atomic, so
    that is faithful for them, but the grid of dagaz is shared without one; the state that an
    insertion leaves when it panics or does not end is any grid. The lock of the participants and the
    blocking of channels appear in \<open>Goroutines\<close> only, where the computations of the
    handlers do not.
  \<^item> The scheduler of frames and the WebSocket connection, which are libraries; and
    \<^verbatim>\<open>websocket/testing.go\<close>, which only tests use.
\<close>

section \<open>Connections, participants and sessions\<close>



text \<open>C2: Conversely, in every reachable state, each participant of a stored session is the
  current participant of the connection it answers on, and each frame handler of a stored
  session is the one of a connection that has joined it. So no two participants of a session
  share a connection, and no connection is in two sessions.\<close>

theorem members_are_joined:
  assumes "reach d n w" and "n \<le> id_limit" and "find_session (w_store w) v = Some sp"
  shows "(\<forall>pid pp. s_participants (w_sess w sp) pid = Some pp \<longrightarrow>
      joined w (p_Responder (w_part w pp)) = Some (sp, pp) \<and> p_ID (w_part w pp) = pid) \<and>
    (\<forall>fid c. s_frameHandlers (w_sess w sp) fid = Some c \<longrightarrow>
      (\<exists>pp. joined w c = Some (sp, pp)) \<and> h_stopFrameHandling (w_hand w c) = Some (sp, fid)) \<and>
    one_each (w_part w) (w_sess w sp)"
proof -
  have i: "pre_inv {} n n w" using reach_ok [OF assms(1,2)] by (simp add: server_ok_def inv_def)
  note I = invD [OF i] and S = store_okD [OF invD(3) [OF i] assms(3)]
  note M = members_okD [OF I(2) S(6)]
  have ids: "ids_match (w_part w) (w_sess w sp)"
    using sess_okD(5) [OF session_okD(1) [OF S(3)]] .
  have "\<exists>pp. joined w c = Some (sp, pp)" if f: "s_frameHandlers (w_sess w sp) fid = Some c" for fid c
  proof -
    obtain a where a: "joined w c = Some a" using M(2) [OF f] by blast
    then have "conn_ok w c (fst a) (snd a)" using conns_okD(3) [OF I(1)] by simp
    with M(2) [OF f] a show ?thesis by (cases a) (auto elim!: conn_okE)
  qed
  moreover have "one_each (w_part w) (w_sess w sp)"
    unfolding one_each_def by (metis M(1) ids_matchD [OF ids] option.inject prod.inject)
  ultimately show ?thesis using M ids_matchD [OF ids] by blast
qed

lemma members_are_joined_witness:
  "joined lobby (p_Responder (w_part lobby 1)) = Some (0, 1)"
proof -
  have "find_session (w_store lobby) ''tedx1'' = Some 0"
    by (simp add: find_session_def GetByGlobalID_def Let_def lobby_def store0_def init_once_def)
  from members_are_joined [OF reach_lobby lobby_limit(1) this]
  have "s_participants (w_sess lobby 0) 2 = Some 1 \<longrightarrow> joined lobby (p_Responder (w_part lobby 1)) = Some (0, 1)"
    by blast
  then show ?thesis by (simp add: lobby_def session0_def)
qed







section \<open>Isolation\<close>



section \<open>Leaving\<close>



end
